theory Spec2Isabelle
  imports Complex_Main "HOL-Library.AList" "HOL-Library.Sublist"
begin

section \<open>Shared types and constants (packages/shared)\<close>

text \<open>
  JavaScript values are modelled as follows. A \<open>string\<close> is a list of characters. A
  \<open>number\<close> that holds a count, a line number or a rounded score is an \<open>int\<close> or a
  \<open>nat\<close>; the running score inside \<open>calculateScore\<close>, which takes quarter values
  (\<open>weight / 4\<close>), is a \<open>rat\<close>: every value it takes is a multiple of 1/4 far below
  \<open>2^53\<close>, so the IEEE double arithmetic of the source is exact on it. An optional
  field (\<open>location?: string\<close>) is an \<open>option\<close>.

  The \<open>type\<close> of a flag is declared \<open>string\<close>. The scorer looks it up in two object
  literals; the model reads them as plain tables, which is what they are for every
  category name other than a property inherited from \<open>Object.prototype\<close>
  (\<open>constructor\<close>, \<open>toString\<close>, ...). No detector emits such a name.

  Of a \<open>Skill\<close> the record keeps the three fields the scanner reads: \<open>id\<close>, \<open>name\<close>
  and \<open>path\<close>.
\<close>

datatype RiskRecommendation = allow | sandbox | block

datatype Severity = low | medium | high | critical

datatype FlagSource = regex | ast | dependency | behavior

record RiskFlag =
  type :: string
  severity :: Severity
  description :: string
  location :: "string option"
  line :: "nat option"
  source :: "FlagSource option"
  evidence :: "string option"

record RiskScanResult =
  score :: int
  flags :: "RiskFlag list"
  explanation :: string
  recommendation :: RiskRecommendation
  scannedAt :: string
  dependencyCount :: nat
  astCount :: nat
  behaviorCount :: nat

record Skill =
  skill_id :: string
  skill_name :: string
  skill_path :: string

definition SAFE_MAX :: int where "SAFE_MAX = 30"
definition WARNING_MAX :: int where "WARNING_MAX = 60"
definition DANGER_MIN :: int where "DANGER_MIN = 61"

definition SHELL_EXECUTION :: rat where "SHELL_EXECUTION = 25"
definition FILESYSTEM_WRITE :: rat where "FILESYSTEM_WRITE = 15"
definition FILESYSTEM_DELETE :: rat where "FILESYSTEM_DELETE = 20"
definition NETWORK_CALL :: rat where "NETWORK_CALL = 20"
definition REMOTE_SCRIPT_FETCH :: rat where "REMOTE_SCRIPT_FETCH = 30"
definition OBFUSCATION :: rat where "OBFUSCATION = 25"
definition CREDENTIAL_ACCESS :: rat where "CREDENTIAL_ACCESS = 20"
definition DEPENDENCY_RISK :: rat where "DEPENDENCY_RISK = 20"
definition RUNTIME_BEHAVIOR :: rat where "RUNTIME_BEHAVIOR = 15"

text \<open>
  \<open>getRecommendation\<close> (constants.ts). Its argument is always a score that
  \<open>calculateScore\<close> has rounded, hence an integer.
\<close>

definition getRecommendation :: "int \<Rightarrow> RiskRecommendation" where
  "getRecommendation s =
     (if s \<le> SAFE_MAX then allow
      else if s \<le> WARNING_MAX then sandbox
      else block)"


section \<open>Risk scoring (RiskScannerService.calculateScore)\<close>

definition typeWeights :: "(string \<times> rat) list" where
  "typeWeights =
    [(''shell_execution'', SHELL_EXECUTION),
     (''filesystem_write'', FILESYSTEM_WRITE),
     (''filesystem_delete'', FILESYSTEM_DELETE),
     (''network_call'', NETWORK_CALL),
     (''remote_script_exec'', REMOTE_SCRIPT_FETCH),
     (''obfuscation'', OBFUSCATION),
     (''credential_access'', CREDENTIAL_ACCESS),
     (''suspicious_long_line'', 10),
     (''dependency_script'', DEPENDENCY_RISK),
     (''dependency_url'', DEPENDENCY_RISK),
     (''dependency_index'', DEPENDENCY_RISK),
     (''dependency_unpinned'', 10),
     (''native_binary'', DEPENDENCY_RISK + 5),
     (''dynamic_require'', 10),
     (''dynamic_import'', 10),
     (''sensitive_import'', 5),
     (''runtime_blocked'', RUNTIME_BEHAVIOR)]"

text \<open>\<open>typeWeights[type] || 5\<close>: a missing entry and a zero entry both give 5.\<close>

definition weightOf :: "string \<Rightarrow> rat" where
  "weightOf t =
     (case map_of typeWeights t of
        None \<Rightarrow> 5
      | Some w \<Rightarrow> (if w = 0 then 5 else w))"

text \<open>
  \<open>typeCount[flag.type] = (typeCount[flag.type] || 0) + 1\<close>. The object is an
  association list in insertion order, which is the order \<open>Object.entries\<close>
  enumerates string keys in; \<open>AList.update\<close> overwrites in place or appends.
  \<open>cnt\<close> is \<open>typeCount[c] || 0\<close>: the count recorded for a category, 0 when it has
  no entry.
\<close>

definition cnt :: "(string \<times> int) list \<Rightarrow> string \<Rightarrow> int" where
  "cnt tc c = (case map_of tc c of None \<Rightarrow> 0 | Some n \<Rightarrow> n)"

definition countType :: "(string \<times> int) list \<Rightarrow> RiskFlag \<Rightarrow> (string \<times> int) list" where
  "countType typeCount flag =
     AList.update (type flag) (cnt typeCount (type flag) + 1) typeCount"

definition countTypes :: "RiskFlag list \<Rightarrow> (string \<times> int) list" where
  "countTypes fs = foldl countType [] fs"

definition Math_round :: "rat \<Rightarrow> int" where
  "Math_round x = \<lfloor>x + 1 / 2\<rfloor>"

definition addContribution :: "rat \<Rightarrow> string \<times> int \<Rightarrow> rat" where
  "addContribution sc e =
     (case e of (t, count) \<Rightarrow>
        (let weight = weightOf t
         in sc + (weight + of_int (min (count - 1) 3) * (weight / 4))))"

definition calculateScore :: "RiskFlag list \<Rightarrow> int" where
  "calculateScore fs = Math_round (foldl addContribution 0 (countTypes fs))"


section \<open>Explanation text (RiskScannerService.generateExplanation)\<close>

text \<open>Decimal rendering of a count or line number inside a template string.\<close>

definition digitChar :: "nat \<Rightarrow> char" where
  "digitChar d = ''0123456789'' ! (d mod 10)"

fun decimal :: "nat \<Rightarrow> string" where
  "decimal n = (if 10 \<le> n then decimal (n div 10) @ [digitChar n] else [digitChar n])"

definition Number_toString :: "int \<Rightarrow> string" where
  "Number_toString i = (if 0 \<le> i then decimal (nat i) else CHR ''-'' # decimal (nat (- i)))"

fun join :: "string \<Rightarrow> string list \<Rightarrow> string" where
  "join sep [] = []"
| "join sep [x] = x"
| "join sep (x # y # ys) = x @ sep @ join sep (y # ys)"

definition typeDescriptions :: "(string \<times> string) list" where
  "typeDescriptions =
    [(''shell_execution'', ''executes shell commands''),
     (''filesystem_write'', ''writes to the filesystem''),
     (''filesystem_delete'', ''deletes files or directories''),
     (''network_call'', ''makes network requests''),
     (''remote_script_exec'', ''downloads and executes remote scripts''),
     (''obfuscation'', ''uses code obfuscation''),
     (''credential_access'', ''accesses credentials/environment variables''),
     (''suspicious_long_line'', ''contains suspiciously long lines''),
     (''dependency_script'', ''runs install scripts''),
     (''dependency_url'', ''uses non-registry dependencies''),
     (''dependency_index'', ''uses custom package indexes''),
     (''dependency_unpinned'', ''uses unpinned dependencies''),
     (''native_binary'', ''bundles native binaries''),
     (''dynamic_require'', ''uses dynamic require''),
     (''dynamic_import'', ''uses dynamic import''),
     (''sensitive_import'', ''imports sensitive modules''),
     (''runtime_blocked'', ''was blocked by runtime guard'')]"

definition describeType :: "string \<times> int \<Rightarrow> string" where
  "describeType e =
     (case e of (t, count) \<Rightarrow>
        (let desc = (case map_of typeDescriptions t of None \<Rightarrow> t | Some d \<Rightarrow> (if d = [] then t else d))
         in desc @ '' ('' @ Number_toString count @ '' occurrence'' @ (if count > 1 then ''s'' else []) @ '')''))"

definition generateExplanation :: "RiskFlag list \<Rightarrow> int \<Rightarrow> string" where
  "generateExplanation fs sc =
     (if length fs = 0 then ''No security risks detected. This skill appears safe to use.''
      else
        (let parts = map describeType (countTypes fs);
             rec = (if sc \<le> SAFE_MAX then ''Safe to use with standard precautions.''
                    else if sc \<le> WARNING_MAX then
                      ''Review carefully before enabling. Consider running in a sandbox.''
                    else ''High risk detected. Strongly recommend blocking or thorough manual review.'')
         in ''This skill '' @ join '', '' parts @ ''. '' @ rec))"


section \<open>Assembling the result (RiskScannerService.scanSkill, from the score on)\<close>

text \<open>
  The last part of \<open>scanSkill\<close>: from the collected flags to the returned object. The
  time stamp \<open>new Date().toISOString()\<close> is a parameter.
\<close>

definition buildResult :: "string \<Rightarrow> RiskFlag list \<Rightarrow> RiskScanResult" where
  "buildResult now fs =
     (let totalScore = calculateScore fs;
          explanation = generateExplanation fs totalScore;
          recommendation = getRecommendation totalScore;
          dependencyCount = length (filter (\<lambda>f. source f = Some dependency) fs);
          astCount = length (filter (\<lambda>f. source f = Some ast) fs);
          behaviorCount = length (filter (\<lambda>f. source f = Some behavior) fs)
      in \<lparr> score = min 100 totalScore,
           flags = fs,
           explanation = explanation,
           recommendation = recommendation,
           scannedAt = now,
           dependencyCount = dependencyCount,
           astCount = astCount,
           behaviorCount = behaviorCount \<rparr>)"


section \<open>The scoring rule as the specification words it\<close>

definition count_of :: "RiskFlag list \<Rightarrow> string \<Rightarrow> int" where
  "count_of fs c = int (length (filter (\<lambda>f. type f = c) fs))"

text \<open>
  The fixed weight of each category, written out as numbers, and 5 for every category the
  table does not list.
\<close>

definition weight_table :: "(string \<times> rat) list" where
  "weight_table =
    [(''shell_execution'', 25), (''filesystem_write'', 15), (''filesystem_delete'', 20),
     (''network_call'', 20), (''remote_script_exec'', 30), (''obfuscation'', 25),
     (''credential_access'', 20), (''suspicious_long_line'', 10), (''dependency_script'', 20),
     (''dependency_url'', 20), (''dependency_index'', 20), (''dependency_unpinned'', 10),
     (''native_binary'', 25), (''dynamic_require'', 10), (''dynamic_import'', 10),
     (''sensitive_import'', 5), (''runtime_blocked'', 15)]"

definition spec_weight :: "string \<Rightarrow> rat" where
  "spec_weight c = (case map_of weight_table c of None \<Rightarrow> 5 | Some w \<Rightarrow> w)"

text \<open>
  Rounding to the nearest integer: down when the fractional part is below one half, up
  otherwise.
\<close>

definition round_nearest :: "rat \<Rightarrow> int" where
  "round_nearest x = (if x - of_int \<lfloor>x\<rfloor> < 1 / 2 then \<lfloor>x\<rfloor> else \<lfloor>x\<rfloor> + 1)"

definition spec_contribution :: "RiskFlag list \<Rightarrow> string \<Rightarrow> rat" where
  "spec_contribution fs c =
     spec_weight c + of_int (min (count_of fs c - 1) 3) * spec_weight c / 4"

definition spec_score :: "RiskFlag list \<Rightarrow> int" where
  "spec_score fs = max 0 (min 100 (round_nearest (sum (spec_contribution fs) (type ` set fs))))"

text \<open>A finding of a given category, for the examples of the scoring rule.\<close>

definition finding :: "string \<Rightarrow> RiskFlag" where
  "finding c =
     \<lparr>type = c, severity = low, description = [], location = None, line = None,
      source = None, evidence = None\<rparr>"


section \<open>Strings\<close>

text \<open>
  \<open>toLowerCase\<close> / \<open>lower\<close> on the ASCII letters; paths and host names are taken to be
  ASCII. Likewise \<open>trim\<close> / \<open>strip\<close> removes the six ASCII white-space characters.
\<close>

definition lowerChar :: "char \<Rightarrow> char" where
  "lowerChar c =
     (let n = (of_char c :: nat)
      in if 65 \<le> n \<and> n \<le> 90 then char_of (n + 32) else c)"

definition toLowerCase :: "string \<Rightarrow> string" where
  "toLowerCase s = map lowerChar s"

definition isSpace :: "char \<Rightarrow> bool" where
  "isSpace c = (c = CHR '' '' \<or> c = CHR 0x09 \<or> c = CHR 0x0A \<or> c = CHR 0x0B \<or> c = CHR 0x0C \<or> c = CHR 0x0D)"

definition trim :: "string \<Rightarrow> string" where
  "trim s = rev (dropWhile isSpace (rev (dropWhile isSpace s)))"

text \<open>\<open>value.split(/[,;]+/)\<close>: the pieces between maximal runs of separators.\<close>

function splitRuns :: "(char \<Rightarrow> bool) \<Rightarrow> string \<Rightarrow> string list" where
  "splitRuns P [] = [[]]"
| "splitRuns P (c # cs) =
     (if P c then [] # splitRuns P (dropWhile P cs)
      else (case splitRuns P cs of
              [] \<Rightarrow> [[c]]
            | piece # pieces \<Rightarrow> (c # piece) # pieces))"
  by pat_completeness auto
termination
  by (relation "measure (\<lambda>(P, s). length s)") (auto simp: less_Suc_eq_le length_dropWhile_le)

text \<open>\<open>value.split(",")\<close>: the pieces between single separators.\<close>

fun splitEach :: "(char \<Rightarrow> bool) \<Rightarrow> string \<Rightarrow> string list" where
  "splitEach P [] = [[]]"
| "splitEach P (c # cs) =
     (if P c then [] # splitEach P cs
      else (case splitEach P cs of
              [] \<Rightarrow> [[c]]
            | piece # pieces \<Rightarrow> (c # piece) # pieces))"


section \<open>What the scanner takes from its runtime\<close>

text \<open>
  A regular expression is the predicate its \<open>test\<close> computes (none of the scanner's
  expressions is global or sticky, so \<open>test\<close> keeps no state). A value read by
  \<open>JSON.parse\<close> is a \<open>Json\<close>; the pairs of an object are its own properties in the
  order \<open>Object.entries\<close> lists them.
\<close>

type_synonym RegExp = "string \<Rightarrow> bool"

datatype Json = JNull | JBool bool | JNum rat | JStr string | JArr "Json list" | JObj "(string \<times> Json) list"

text \<open>
  The syntax tree, as far as the visitors of \<open>scanAst\<close> look at it: the three kinds of
  node they are called on, and the shapes of expression they tell apart.
\<close>

datatype Expr = Identifier string | MemberExpression Expr Expr | Import | StringLiteral string | OtherExpr

datatype AstNode =
  ImportDeclaration string
| CallExpression Expr "Expr list"
| MemberExpressionNode Expr Expr

record RiskPatterns =
  SHELL_patterns :: "(string \<times> RegExp list) list"
  FILESYSTEM_WRITE_patterns :: "(string \<times> RegExp list) list"
  FILESYSTEM_DELETE_patterns :: "(string \<times> RegExp list) list"
  NETWORK_patterns :: "(string \<times> RegExp list) list"
  REMOTE_EXEC_patterns :: "(string \<times> RegExp list) list"
  OBFUSCATION_patterns :: "(string \<times> RegExp list) list"
  CREDENTIALS_patterns :: "(string \<times> RegExp list) list"

text \<open>The regular expressions written inside \<open>scanDependencies\<close>, in order of appearance.\<close>

record DependencyPatterns =
  riskyScriptPattern :: RegExp
  nonRegistrySpec :: RegExp
  lockResolved :: RegExp
  lockHttp :: RegExp
  lockNonRegistry :: RegExp
  requirementUrl :: RegExp
  requirementEditable :: RegExp
  requirementIndex :: RegExp
  requirementPinned :: RegExp
  requirementName :: RegExp
  manifestUrl :: RegExp

text \<open>
  The file system and the libraries, as the scanner uses them. A call that can throw or
  reject returns an \<open>option\<close>, \<open>None\<close> for the failure. \<open>globFiles\<close> is
  \<open>glob(pattern, {nodir: true})\<close>; \<open>globBinaries\<close> is the glob for native binaries
  under a directory; \<open>babel\<close> is \<open>parse\<close> followed by \<open>traverse\<close>: the nodes that
  have a visitor, in the order they are visited, each with the line it starts on;
  \<open>auditFile\<close> is \<open>path.join(DEFAULT_CLAWSHIELD_PATH, AUDIT_FILE)\<close>; \<open>isoTime\<close> is
  \<open>new Date().toISOString()\<close>.
\<close>

record ScanEnv =
  globFiles :: "string \<Rightarrow> string list option"
  globBinaries :: "string \<Rightarrow> string list option"
  existsSync :: "string \<Rightarrow> bool"
  readFile :: "string \<Rightarrow> string option"
  pathJoin :: "string \<Rightarrow> string \<Rightarrow> string"
  extname :: "string \<Rightarrow> string"
  auditFile :: string
  JSON_parse :: "string \<Rightarrow> Json option"
  numberToString :: "rat \<Rightarrow> string"
  babel :: "string \<Rightarrow> (AstNode \<times> nat option) list option"
  RISK_PATTERNS :: RiskPatterns
  dependencyPatterns :: DependencyPatterns
  isoTime :: string

definition splitLines :: "string \<Rightarrow> string list" where
  "splitLines content = splitEach (\<lambda>c. c = CHR 0x0A) content"

text \<open>\<open>s.includes(needle)\<close>.\<close>

fun includes_str :: "string \<Rightarrow> string \<Rightarrow> bool" where
  "includes_str [] needle = (needle = [])"
| "includes_str (c # cs) needle = (prefix needle (c # cs) \<or> includes_str cs needle)"


section \<open>Discovery of the files to scan (SkillDiscoveryService.listSkillFiles)\<close>

fun globAll :: "ScanEnv \<Rightarrow> string list \<Rightarrow> string list option" where
  "globAll env [] = Some []"
| "globAll env (pattern # patterns) =
     (case globFiles env pattern of
        None \<Rightarrow> None
      | Some matches \<Rightarrow>
          (case globAll env patterns of
             None \<Rightarrow> None
           | Some files \<Rightarrow> Some (matches @ files)))"

definition listSkillFiles :: "ScanEnv \<Rightarrow> string \<Rightarrow> string list option" where
  "listSkillFiles env skillPath =
     (let extensions = [''js'', ''ts'', ''jsx'', ''tsx'', ''py'', ''sh'', ''bash'', ''ps1''];
          patterns = map (\<lambda>ext. skillPath @ ''/**/*.'' @ ext) extensions
      in globAll env patterns)"


section \<open>Pattern matcher (RiskScannerService.scanFile, checkPatterns)\<close>

definition getLanguageCategory :: "string \<Rightarrow> string" where
  "getLanguageCategory ext =
     (if ext \<in> set [''.js'', ''.ts'', ''.jsx'', ''.tsx'', ''.mjs'', ''.cjs''] then ''js''
      else if ext \<in> set [''.py'', ''.pyw''] then ''python''
      else if ext \<in> set [''.sh'', ''.bash'', ''.zsh'', ''.ps1''] then ''bash''
      else ''all'')"

text \<open>
  The loop of \<open>checkPatterns\<close> over the lines, \<open>i\<close> being the index of the first line
  left: a line that some pattern matches gets one flag, unless a flag of this type, line and
  file is already there.
\<close>

fun checkLines ::
  "RegExp list \<Rightarrow> string \<Rightarrow> string \<Rightarrow> string \<Rightarrow> Severity \<Rightarrow> FlagSource option \<Rightarrow>
   nat \<Rightarrow> string list \<Rightarrow> RiskFlag list \<Rightarrow> RiskFlag list" where
  "checkLines patternsToCheck filePath flagType desc sev src i [] found = found"
| "checkLines patternsToCheck filePath flagType desc sev src i (l # ls) found =
     (if list_ex (\<lambda>pattern. pattern l) patternsToCheck
      then
        (case find (\<lambda>f. type f = flagType \<and> line f = Some (i + 1) \<and> location f = Some filePath) found of
           None \<Rightarrow>
             checkLines patternsToCheck filePath flagType desc sev src (i + 1) ls
               (found @ [\<lparr>type = flagType, severity = sev, description = desc,
                           location = Some filePath, line = Some (i + 1), source = src,
                           evidence = None\<rparr>])
         | Some existing \<Rightarrow>
             checkLines patternsToCheck filePath flagType desc sev src (i + 1) ls found)
      else checkLines patternsToCheck filePath flagType desc sev src (i + 1) ls found)"

definition checkPatterns ::
  "string list \<Rightarrow> string \<Rightarrow> string \<Rightarrow> (string \<times> RegExp list) list \<Rightarrow> string \<Rightarrow> string \<Rightarrow>
   Severity \<Rightarrow> FlagSource option \<Rightarrow> RiskFlag list" where
  "checkPatterns lines filePath langCategory patterns flagType desc sev src =
     (let patternsToCheck =
            (case map_of patterns langCategory of None \<Rightarrow> [] | Some ps \<Rightarrow> ps) @
            (case map_of patterns ''all'' of None \<Rightarrow> [] | Some ps \<Rightarrow> ps)
      in checkLines patternsToCheck filePath flagType desc sev src 0 lines [])"

fun longLineFlags :: "string \<Rightarrow> nat \<Rightarrow> string list \<Rightarrow> RiskFlag list" where
  "longLineFlags filePath i [] = []"
| "longLineFlags filePath i (l # ls) =
     (if length l > 500 \<and> \<not> includes_str l ''//'' \<and> \<not> includes_str l ''#''
      then \<lparr>type = ''suspicious_long_line'', severity = medium,
             description = ''Contains suspiciously long line (potential obfuscation)'',
             location = Some filePath, line = Some (i + 1), source = Some regex,
             evidence = None\<rparr> # longLineFlags filePath (i + 1) ls
      else longLineFlags filePath (i + 1) ls)"


section \<open>Syntax analyzer (RiskScannerService.scanAst)\<close>

definition jsExts :: "string list" where
  "jsExts = [''.js'', ''.ts'', ''.jsx'', ''.tsx'', ''.mjs'', ''.cjs'']"

definition shellCallees :: "string list" where
  "shellCallees = [''exec'', ''execSync'', ''spawn'', ''spawnSync'', ''execFile'', ''execFileSync'', ''fork'']"

definition fsWriteCallees :: "string list" where
  "fsWriteCallees =
     [''writeFile'', ''writeFileSync'', ''appendFile'', ''appendFileSync'', ''createWriteStream'',
      ''rm'', ''rmSync'', ''unlink'', ''unlinkSync'', ''rmdir'', ''rmdirSync'', ''rename'', ''renameSync'',
      ''copyFile'', ''copyFileSync'', ''chmod'', ''chmodSync'', ''chown'', ''chownSync'', ''truncate'',
      ''truncateSync'']"

definition fsDeleteCallees :: "string list" where
  "fsDeleteCallees = [''rm'', ''rmSync'', ''unlink'', ''unlinkSync'', ''rmdir'', ''rmdirSync'']"

definition networkObjects :: "string list" where
  "networkObjects = [''http'', ''https'', ''net'', ''tls'', ''dns'', ''dgram'']"

definition networkMethods :: "string list" where
  "networkMethods = [''request'', ''get'', ''connect'', ''createConnection'']"

definition obfuscationCallees :: "string list" where
  "obfuscationCallees = [''eval'', ''Function'']"

definition sensitiveImports :: "string list" where
  "sensitiveImports =
     [''child_process'', ''fs'', ''net'', ''http'', ''https'', ''dns'', ''tls'', ''dgram'',
      ''worker_threads'', ''vm'']"

text \<open>
  What a visitor passes to \<open>addFlag\<close>, if it calls it: type, severity, description and
  evidence. The node, hence the line, is that of the visit.
\<close>

type_synonym AstFinding = "string \<times> Severity \<times> string \<times> string option"

definition visitImportDeclaration :: "string \<Rightarrow> AstFinding option" where
  "visitImportDeclaration src =
     (if src \<in> set sensitiveImports
      then Some (''sensitive_import'', low,
                 ''Imports sensitive module '' @ [CHR 0x22] @ src @ [CHR 0x22], Some src)
      else None)"

definition visitCallExpression :: "Expr \<Rightarrow> Expr list \<Rightarrow> AstFinding option" where
  "visitCallExpression callee arguments =
     (case callee of
        Identifier name \<Rightarrow>
          (if name \<in> set shellCallees
           then Some (''shell_execution'', high, ''Executes shell commands (AST)'', Some name)
           else if name \<in> set obfuscationCallees
           then Some (''obfuscation'', high, ''Uses eval/Function for dynamic execution (AST)'', Some name)
           else if name = ''fetch''
           then Some (''network_call'', medium, ''Makes network requests (AST)'', Some name)
           else if name = ''require''
           then (case arguments of
                   StringLiteral lit # rest \<Rightarrow> None
                 | other \<Rightarrow> Some (''dynamic_require'', medium, ''Uses dynamic require (AST)'', None))
           else None)
      | MemberExpression object property \<Rightarrow>
          (case (object, property) of
             (Identifier objName, Identifier propName) \<Rightarrow>
               (if objName = ''child_process'' \<and> propName \<in> set shellCallees
                then Some (''shell_execution'', high, ''Executes shell commands (AST)'',
                           Some (objName @ ''.'' @ propName))
                else if objName = ''fs'' \<and> propName \<in> set fsWriteCallees
                then (let ty = (if propName \<in> set fsDeleteCallees then ''filesystem_delete''
                                else ''filesystem_write'');
                          desc = (if ty = ''filesystem_delete'' then ''Deletes files or directories (AST)''
                                  else ''Writes to filesystem (AST)'')
                      in Some (ty, if ty = ''filesystem_delete'' then high else medium, desc,
                               Some (objName @ ''.'' @ propName)))
                else if objName = ''axios''
                then Some (''network_call'', medium, ''Makes network requests (AST)'',
                           Some (objName @ ''.'' @ propName))
                else if objName \<in> set networkObjects \<and> propName \<in> set networkMethods
                then Some (''network_call'', medium, ''Makes network requests (AST)'',
                           Some (objName @ ''.'' @ propName))
                else None)
           | other \<Rightarrow> None)
      | Import \<Rightarrow> Some (''dynamic_import'', medium, ''Uses dynamic import (AST)'', None)
      | other \<Rightarrow> None)"

definition visitMemberExpression :: "Expr \<Rightarrow> Expr \<Rightarrow> AstFinding option" where
  "visitMemberExpression object property =
     (if object = Identifier ''process'' \<and> property = Identifier ''env''
      then Some (''credential_access'', medium, ''Accesses environment variables (AST)'',
                 Some ''process.env'')
      else (case object of
              MemberExpression obj prop \<Rightarrow>
                (if obj = Identifier ''process'' \<and> prop = Identifier ''env''
                 then Some (''credential_access'', medium, ''Accesses environment variables (AST)'',
                            Some ''process.env.*'')
                 else None)
            | other \<Rightarrow> None))"

definition visit :: "AstNode \<Rightarrow> AstFinding option" where
  "visit node =
     (case node of
        ImportDeclaration src \<Rightarrow> visitImportDeclaration src
      | CallExpression callee arguments \<Rightarrow> visitCallExpression callee arguments
      | MemberExpressionNode object property \<Rightarrow> visitMemberExpression object property)"

text \<open>\<open>addFlag\<close> of \<open>scanAst\<close>, on the pair of the \<open>seen\<close> set and the flags.\<close>

definition addFlag ::
  "string \<Rightarrow> string list \<times> RiskFlag list \<Rightarrow> AstNode \<times> nat option \<Rightarrow> string list \<times> RiskFlag list" where
  "addFlag filePath st v =
     (case visit (fst v) of
        None \<Rightarrow> st
      | Some (ty, sev, desc, ev) \<Rightarrow>
          (let ln = snd v;
               key = ty @ '':'' @ filePath @ '':'' @
                     decimal (case ln of None \<Rightarrow> 0 | Some n \<Rightarrow> n) @ '':'' @
                     (case ev of None \<Rightarrow> [] | Some e \<Rightarrow> e)
           in if key \<in> set (fst st) then st
              else (fst st @ [key],
                    snd st @ [\<lparr>type = ty, severity = sev, description = desc,
                                location = Some filePath, line = ln, source = Some ast,
                                evidence = ev\<rparr>])))"

definition scanAst :: "ScanEnv \<Rightarrow> string \<Rightarrow> string \<Rightarrow> RiskFlag list" where
  "scanAst env filePath content =
     (let ext = toLowerCase (extname env filePath)
      in if ext \<notin> set jsExts then []
         else (case babel env content of
                 None \<Rightarrow> []
               | Some visits \<Rightarrow> snd (foldl (addFlag filePath) ([], []) visits)))"

text \<open>
  \<open>scanFile\<close>. A file that cannot be read gives no flag: the \<open>catch\<close> is reached before
  any flag is pushed.
\<close>

definition scanFile :: "ScanEnv \<Rightarrow> string \<Rightarrow> RiskFlag list" where
  "scanFile env filePath =
     (let ext = toLowerCase (extname env filePath)
      in case readFile env filePath of
           None \<Rightarrow> []
         | Some content \<Rightarrow>
             (let lines = splitLines content;
                  langCategory = getLanguageCategory ext;
                  pats = RISK_PATTERNS env
              in checkPatterns lines filePath langCategory (SHELL_patterns pats)
                   ''shell_execution'' ''Executes shell commands'' high (Some regex) @
                 checkPatterns lines filePath langCategory (FILESYSTEM_WRITE_patterns pats)
                   ''filesystem_write'' ''Writes to filesystem'' medium (Some regex) @
                 checkPatterns lines filePath langCategory (FILESYSTEM_DELETE_patterns pats)
                   ''filesystem_delete'' ''Deletes files or directories'' high (Some regex) @
                 checkPatterns lines filePath langCategory (NETWORK_patterns pats)
                   ''network_call'' ''Makes network requests'' medium (Some regex) @
                 checkPatterns lines filePath ''all'' (REMOTE_EXEC_patterns pats)
                   ''remote_script_exec'' ''Downloads and executes remote scripts'' critical (Some regex) @
                 checkPatterns lines filePath langCategory (OBFUSCATION_patterns pats)
                   ''obfuscation'' ''Uses code obfuscation or dynamic execution'' high (Some regex) @
                 checkPatterns lines filePath langCategory (CREDENTIALS_patterns pats)
                   ''credential_access'' ''Accesses environment variables or credentials'' medium
                   (Some regex) @
                 longLineFlags filePath 0 lines @
                 scanAst env filePath content))"


section \<open>JavaScript operations on parsed JSON\<close>

text \<open>Truthiness, as \<open>||\<close> and \<open>!\<close> test it.\<close>

definition truthy :: "Json \<Rightarrow> bool" where
  "truthy v =
     (case v of
        JNull \<Rightarrow> False
      | JBool b \<Rightarrow> b
      | JNum n \<Rightarrow> n \<noteq> 0
      | JStr s \<Rightarrow> s \<noteq> []
      | JArr xs \<Rightarrow> True
      | JObj kv \<Rightarrow> True)"

text \<open>
  \<open>v.key\<close> on a value other than \<open>null\<close>, for the property names the scanner reads
  (none of them is defined on a prototype): \<open>None\<close> is \<open>undefined\<close>.
\<close>

definition getProp :: "Json \<Rightarrow> string \<Rightarrow> Json option" where
  "getProp v key = (case v of JObj kv \<Rightarrow> map_of kv key | other \<Rightarrow> None)"

text \<open>\<open>!x\<close> for a property that may be missing.\<close>

definition falsy :: "Json option \<Rightarrow> bool" where
  "falsy x = (case x of None \<Rightarrow> True | Some v \<Rightarrow> \<not> truthy v)"

text \<open>\<open>x || {}\<close>.\<close>

definition orEmptyObject :: "Json option \<Rightarrow> Json" where
  "orEmptyObject x =
     (case x of
        None \<Rightarrow> JObj []
      | Some v \<Rightarrow> (if truthy v then v else JObj []))"

text \<open>\<open>Object.entries(v)\<close> on a value other than \<open>null\<close>.\<close>

definition jsEntries :: "Json \<Rightarrow> (string \<times> Json) list" where
  "jsEntries v =
     (case v of
        JObj kv \<Rightarrow> kv
      | JArr xs \<Rightarrow> zip (map decimal [0..<length xs]) xs
      | JStr s \<Rightarrow> zip (map decimal [0..<length s]) (map (\<lambda>c. JStr [c]) s)
      | other \<Rightarrow> [])"

text \<open>\<open>String(v)\<close>; the rendering of a number is the runtime's.\<close>

fun jsString :: "(rat \<Rightarrow> string) \<Rightarrow> Json \<Rightarrow> string" where
  "jsString num JNull = ''null''"
| "jsString num (JBool b) = (if b then ''true'' else ''false'')"
| "jsString num (JNum n) = num n"
| "jsString num (JStr s) = s"
| "jsString num (JArr xs) = join '','' (map (\<lambda>x. if x = JNull then [] else jsString num x) xs)"
| "jsString num (JObj kv) = ''[object Object]''"


section \<open>Supply-chain auditor (RiskScannerService.scanDependencies)\<close>

text \<open>The arguments of one call of \<open>addFlag\<close>: type, severity, description, location, evidence.\<close>

type_synonym DepFinding = "string \<times> Severity \<times> string \<times> string \<times> string option"

definition addDepFlag ::
  "string list \<times> RiskFlag list \<Rightarrow> DepFinding \<Rightarrow> string list \<times> RiskFlag list" where
  "addDepFlag st c =
     (case c of (ty, sev, desc, loc, ev) \<Rightarrow>
        (let key = ty @ '':'' @ loc @ '':'' @ (case ev of None \<Rightarrow> [] | Some e \<Rightarrow> e)
         in if key \<in> set (fst st) then st
            else (fst st @ [key],
                  snd st @ [\<lparr>type = ty, severity = sev, description = desc, location = Some loc,
                              line = None, source = Some dependency, evidence = ev\<rparr>])))"

definition scriptKeys :: "string list" where
  "scriptKeys = [''preinstall'', ''install'', ''postinstall'', ''prepare'', ''prepublish'', ''prepack'']"

definition specFindings :: "DependencyPatterns \<Rightarrow> string \<Rightarrow> string \<times> Json \<Rightarrow> DepFinding list" where
  "specFindings pats packageJsonPath e =
     (case e of (name, spec) \<Rightarrow>
        (case spec of
           JStr sp \<Rightarrow>
             (let trimmed = trim sp
              in (if trimmed = ''*'' \<or> trimmed = ''latest''
                  then [(''dependency_unpinned'', low, ''Unpinned dependency version'',
                         packageJsonPath, Some (name @ ''@'' @ trimmed))]
                  else []) @
                 (if nonRegistrySpec pats trimmed \<or> prefix ''..'' trimmed
                  then [(''dependency_url'', medium, ''Dependency uses non-registry source'',
                         packageJsonPath, Some (name @ ''@'' @ trimmed))]
                  else []))
         | other \<Rightarrow> []))"

text \<open>The body of the loop over \<open>scriptKeys\<close>.\<close>

definition scriptFinding :: "DependencyPatterns \<Rightarrow> string \<Rightarrow> Json \<Rightarrow> string \<Rightarrow> DepFinding option" where
  "scriptFinding pats packageJsonPath scripts key =
     (case getProp scripts key of
        Some (JStr v) \<Rightarrow>
          (if riskyScriptPattern pats v
           then Some (''dependency_script'', high,
                      ''Install script '' @ [CHR 0x22] @ key @ [CHR 0x22] @ '' executes shell commands'',
                      packageJsonPath, Some (take 120 v))
           else None)
      | other \<Rightarrow> None)"

text \<open>
  The \<open>package.json\<close> block. \<open>pkg.scripts\<close> throws on \<open>null\<close>, before any flag is
  added; nothing after it throws.
\<close>

definition packageJsonFindings :: "ScanEnv \<Rightarrow> string \<Rightarrow> DepFinding list" where
  "packageJsonFindings env skillPath =
     (let packageJsonPath = pathJoin env skillPath ''package.json'';
          pats = dependencyPatterns env
      in if \<not> existsSync env packageJsonPath then []
         else
           (case readFile env packageJsonPath of
              None \<Rightarrow> []
            | Some content \<Rightarrow>
                (case JSON_parse env content of
                   None \<Rightarrow> []
                 | Some pkg \<Rightarrow>
                     (if pkg = JNull then []
                      else
                        (let scripts = orEmptyObject (getProp pkg ''scripts'');
                             depGroups =
                               [orEmptyObject (getProp pkg ''dependencies''),
                                orEmptyObject (getProp pkg ''devDependencies''),
                                orEmptyObject (getProp pkg ''optionalDependencies''),
                                orEmptyObject (getProp pkg ''peerDependencies'')]
                         in List.map_filter (scriptFinding pats packageJsonPath scripts) scriptKeys @
                            concat (map (\<lambda>deps. concat (map (specFindings pats packageJsonPath)
                                                             (jsEntries deps)))
                                      depGroups))))))"

definition lockFiles :: "string list" where
  "lockFiles = [''package-lock.json'', ''npm-shrinkwrap.json'', ''pnpm-lock.yaml'', ''yarn.lock'']"

text \<open>The body of the loop over the lines of a lockfile.\<close>

definition lockLineFinding :: "DependencyPatterns \<Rightarrow> string \<Rightarrow> string \<Rightarrow> DepFinding option" where
  "lockLineFinding pats lockPath l =
     (if (lockResolved pats l \<or> lockHttp pats l) \<and> lockNonRegistry pats l
      then Some (''dependency_url'', medium, ''Lockfile contains non-registry dependency source'',
                 lockPath, Some (take 140 (trim l)))
      else None)"

definition lockFileFindings :: "ScanEnv \<Rightarrow> string \<Rightarrow> DepFinding list" where
  "lockFileFindings env skillPath =
     concat (map (\<lambda>file.
        (let lockPath = pathJoin env skillPath file
         in if \<not> existsSync env lockPath then []
            else
              (case readFile env lockPath of
                 None \<Rightarrow> []
               | Some content \<Rightarrow>
                   List.map_filter (lockLineFinding (dependencyPatterns env) lockPath)
                     (take 20000 (splitLines content)))))
        lockFiles)"

definition requirementFindings :: "DependencyPatterns \<Rightarrow> string \<Rightarrow> string \<Rightarrow> DepFinding list" where
  "requirementFindings pats requirementsPath l =
     (let trimmed = trim l
      in if trimmed = [] \<or> prefix ''#'' trimmed then []
         else
           (if requirementUrl pats trimmed
            then [(''dependency_url'', medium, ''Requirements include URL/git dependency'',
                   requirementsPath, Some (take 140 trimmed))]
            else []) @
           (if requirementEditable pats trimmed
            then [(''dependency_url'', medium, ''Editable requirements entry'',
                   requirementsPath, Some (take 140 trimmed))]
            else []) @
           (if requirementIndex pats trimmed
            then [(''dependency_index'', medium, ''Custom package index in requirements'',
                   requirementsPath, Some (take 140 trimmed))]
            else []) @
           (if \<not> requirementPinned pats trimmed \<and> requirementName pats trimmed
            then [(''dependency_unpinned'', low, ''Unpinned dependency version'',
                   requirementsPath, Some (take 140 trimmed))]
            else []))"

definition requirementsFindings :: "ScanEnv \<Rightarrow> string \<Rightarrow> DepFinding list" where
  "requirementsFindings env skillPath =
     (let requirementsPath = pathJoin env skillPath ''requirements.txt''
      in if \<not> existsSync env requirementsPath then []
         else
           (case readFile env requirementsPath of
              None \<Rightarrow> []
            | Some content \<Rightarrow>
                concat (map (requirementFindings (dependencyPatterns env) requirementsPath)
                          (splitLines content))))"

definition textManifests :: "string list" where
  "textManifests = [''pyproject.toml'', ''Pipfile'', ''Pipfile.lock'', ''poetry.lock'', ''setup.py'', ''setup.cfg'']"

definition textManifestFindings :: "ScanEnv \<Rightarrow> string \<Rightarrow> DepFinding list" where
  "textManifestFindings env skillPath =
     concat (map (\<lambda>file.
        (let manifestPath = pathJoin env skillPath file
         in if \<not> existsSync env manifestPath then []
            else
              (case readFile env manifestPath of
                 None \<Rightarrow> []
               | Some content \<Rightarrow>
                   (if manifestUrl (dependencyPatterns env) content
                    then [(''dependency_url'', medium, ''Manifest includes git/url/path dependency'',
                           manifestPath, None)]
                    else []))))
        textManifests)"

definition binaryFindings :: "ScanEnv \<Rightarrow> string \<Rightarrow> DepFinding list" where
  "binaryFindings env skillPath =
     (case globBinaries env skillPath of
        None \<Rightarrow> []
      | Some binaries \<Rightarrow>
          map (\<lambda>bin. (''native_binary'', high, ''Skill bundles native binary'',
                      pathJoin env skillPath bin, None))
            binaries)"

definition scanDependencies :: "ScanEnv \<Rightarrow> string \<Rightarrow> RiskFlag list" where
  "scanDependencies env skillPath =
     snd (foldl addDepFlag ([], [])
            (packageJsonFindings env skillPath @
             lockFileFindings env skillPath @
             requirementsFindings env skillPath @
             textManifestFindings env skillPath @
             binaryFindings env skillPath))"


section \<open>Behavior correlator (RiskScannerService.scanBehavior)\<close>

text \<open>
  The body of the loop for one line of the audit trail: \<open>None\<close> when the line is skipped
  (\<open>continue\<close>, or an exception caught by the inner \<open>catch\<close>).
\<close>

definition behaviorFlag :: "ScanEnv \<Rightarrow> Skill \<Rightarrow> string \<Rightarrow> RiskFlag option" where
  "behaviorFlag env skill l =
     (case JSON_parse env l of
        None \<Rightarrow> None
      | Some entry \<Rightarrow>
          (if entry = JNull then None
           else if getProp entry ''action'' \<noteq> Some (JStr ''runtime'') then None
           else if falsy (getProp entry ''skillId'') \<or>
                   getProp entry ''skillId'' \<noteq> Some (JStr (skill_id skill)) then None
           else
             (let det = orEmptyObject (getProp entry ''details'');
                  kind = (case getProp det ''kind'' of Some (JStr k) \<Rightarrow> k | other \<Rightarrow> ''runtime'');
                  res = (case getProp entry ''result'' of
                           None \<Rightarrow> JStr ''blocked''
                         | Some r \<Rightarrow> (if truthy r then r else JStr ''blocked''))
              in if res \<noteq> JStr ''blocked'' then None
                 else
                   (let sev0 = medium;
                        sev1 = (if kind = ''shell'' then high else sev0);
                        sev2 = (if kind = ''network'' then high else sev1);
                        sev3 = (if kind = ''env'' \<or> kind = ''env_set'' then medium else sev2);
                        sev4 = (if kind = ''fs_write'' then medium else sev3);
                        ev = take 180
                               (join '' ''
                                  (map (\<lambda>kv. fst kv @ ''='' @ jsString (numberToString env) (snd kv))
                                     (jsEntries det)))
                    in Some \<lparr>type = ''runtime_blocked'', severity = sev4,
                              description = ''Runtime guard blocked '' @ kind @ '' action'',
                              location = Some (auditFile env), line = None,
                              source = Some behavior, evidence = Some ev\<rparr>))))"

definition recentLines :: "string \<Rightarrow> string list" where
  "recentLines content =
     (let lines = filter (\<lambda>l. length (trim l) > 0) (splitLines content)
      in drop (length lines - 2000) lines)"

definition scanBehavior :: "ScanEnv \<Rightarrow> Skill \<Rightarrow> RiskFlag list" where
  "scanBehavior env skill =
     (if \<not> existsSync env (auditFile env) then []
      else
        (case readFile env (auditFile env) of
           None \<Rightarrow> []
         | Some content \<Rightarrow> List.map_filter (behaviorFlag env skill) (recentLines content)))"


section \<open>The scan (RiskScannerService.scanSkill)\<close>

text \<open>
  \<open>scanSkill\<close> returns a promise of a result. The only call in it that is not inside a
  \<open>try\<close> and can fail is the glob of \<open>listSkillFiles\<close>; then the promise is rejected,
  which is the left injection.
\<close>

datatype ScanFailure = GlobRejected

definition collectFlags :: "ScanEnv \<Rightarrow> Skill \<Rightarrow> ScanFailure + RiskFlag list" where
  "collectFlags env skill =
     (case listSkillFiles env (skill_path skill) of
        None \<Rightarrow> Inl GlobRejected
      | Some files \<Rightarrow>
          (let fileFlags = concat (map (scanFile env) files);
               skillMdPath = pathJoin env (skill_path skill) ''SKILL.md'';
               skillMdFlags = (if existsSync env skillMdPath then scanFile env skillMdPath else []);
               dependencyFlags = scanDependencies env (skill_path skill);
               behaviorFlags = scanBehavior env skill
           in Inr (fileFlags @ skillMdFlags @ dependencyFlags @ behaviorFlags)))"

definition scanSkill :: "ScanEnv \<Rightarrow> Skill \<Rightarrow> ScanFailure + RiskScanResult" where
  "scanSkill env skill =
     (case collectFlags env skill of
        Inl failure \<Rightarrow> Inl failure
      | Inr fs \<Rightarrow> Inr (buildResult (isoTime env) fs))"


section \<open>The behavior scan and the uniqueness key as the specification words them\<close>

text \<open>
  The window of the audit trail: its last 2000 non-empty lines, none when the file is
  missing or cannot be read.
\<close>

definition auditWindow :: "ScanEnv \<Rightarrow> string list" where
  "auditWindow env =
     (if existsSync env (auditFile env)
      then (case readFile env (auditFile env) of
              None \<Rightarrow> []
            | Some content \<Rightarrow> rev (take 2000 (rev (filter (\<lambda>l. trim l \<noteq> []) (splitLines content)))))
      else [])"



text \<open>
  The condition with the two defaults of the code: the skill id is not the empty string,
  and a missing, \<open>null\<close>, \<open>false\<close>, zero or empty \<open>result\<close> counts as \<open>blocked\<close>.
\<close>

definition countsAsBlocked :: "Skill \<Rightarrow> Json \<Rightarrow> bool" where
  "countsAsBlocked skill entry =
     (getProp entry ''action'' = Some (JStr ''runtime'') \<and>
      skill_id skill \<noteq> [] \<and>
      getProp entry ''skillId'' = Some (JStr (skill_id skill)) \<and>
      (getProp entry ''result'' = Some (JStr ''blocked'') \<or> falsy (getProp entry ''result'')))"

text \<open>The kind of the blocked operation: \<open>details.kind\<close> when it is a string.\<close>

definition entryKind :: "Json \<Rightarrow> string" where
  "entryKind entry =
     (case getProp (orEmptyObject (getProp entry ''details'')) ''kind'' of
        Some (JStr k) \<Rightarrow> k
      | other \<Rightarrow> ''runtime'')"

definition spec_severity :: "string \<Rightarrow> Severity" where
  "spec_severity kind = (if kind = ''shell'' \<or> kind = ''network'' then high else medium)"

text \<open>Category, source and severity of a finding.\<close>

definition findingClass :: "RiskFlag \<Rightarrow> string \<times> FlagSource option \<times> Severity" where
  "findingClass f = (type f, source f, severity f)"

text \<open>The key on which findings are meant to be unique.\<close>

definition flagKey :: "RiskFlag \<Rightarrow> string \<times> string option \<times> nat option \<times> string option" where
  "flagKey f = (type f, location f, line f, evidence f)"


section \<open>Invariants of the detectors\<close>

text \<open>The categories each detector can emit.\<close>

definition regexTypes :: "string list" where
  "regexTypes = [''shell_execution'', ''filesystem_write'', ''filesystem_delete'', ''network_call'',
     ''remote_script_exec'', ''obfuscation'', ''credential_access'', ''suspicious_long_line'']"

definition astTypes :: "string list" where
  "astTypes = [''sensitive_import'', ''shell_execution'', ''obfuscation'', ''network_call'',
     ''dynamic_require'', ''filesystem_delete'', ''filesystem_write'', ''dynamic_import'',
     ''credential_access'']"

definition depTypes :: "string list" where
  "depTypes = [''dependency_script'', ''dependency_unpinned'', ''dependency_url'',
     ''dependency_index'', ''native_binary'']"

text \<open>The string keys kept in the \<open>seen\<close> sets, as functions of a flag.\<close>

definition astKeyOf :: "string \<Rightarrow> RiskFlag \<Rightarrow> string" where
  "astKeyOf filePath f =
     type f @ '':'' @ filePath @ '':'' @ decimal (case line f of None \<Rightarrow> 0 | Some n \<Rightarrow> n) @ '':'' @
     (case evidence f of None \<Rightarrow> [] | Some e \<Rightarrow> e)"

definition depKeyOf :: "RiskFlag \<Rightarrow> string" where
  "depKeyOf f =
     type f @ '':'' @ (case location f of None \<Rightarrow> [] | Some l \<Rightarrow> l) @ '':'' @
     (case evidence f of None \<Rightarrow> [] | Some e \<Rightarrow> e)"

definition regexFlag :: "string \<Rightarrow> string \<Rightarrow> RiskFlag \<Rightarrow> bool" where
  "regexFlag ty fp f =
     (type f = ty \<and> location f = Some fp \<and> evidence f = None \<and> source f = Some regex \<and>
      line f \<noteq> None)"

definition astFlag :: "string \<Rightarrow> RiskFlag \<Rightarrow> bool" where
  "astFlag fp f =
     (location f = Some fp \<and> source f = Some ast \<and> type f \<in> set astTypes \<and>
      (evidence f = None \<longrightarrow> type f = ''dynamic_require'' \<or> type f = ''dynamic_import''))"

definition astInv :: "string \<Rightarrow> string list \<times> RiskFlag list \<Rightarrow> bool" where
  "astInv fp st =
     (set (fst st) = astKeyOf fp ` set (snd st) \<and>
      distinct (map (astKeyOf fp) (snd st)) \<and>
      (\<forall>f \<in> set (snd st). astFlag fp f))"

definition depInv :: "string list \<times> RiskFlag list \<Rightarrow> bool" where
  "depInv st =
     (set (fst st) = depKeyOf ` set (snd st) \<and>
      distinct (map depKeyOf (snd st)) \<and>
      (\<forall>f \<in> set (snd st). source f = Some dependency \<and> type f \<in> set depTypes))"

text \<open>The eight lists of pattern flags of \<open>scanFile\<close>, in the order they are pushed.\<close>

definition regexPart :: "ScanEnv \<Rightarrow> string \<Rightarrow> string \<Rightarrow> RiskFlag list list" where
  "regexPart env filePath content =
     (let lines = splitLines content;
          langCategory = getLanguageCategory (toLowerCase (extname env filePath));
          pats = RISK_PATTERNS env
      in [checkPatterns lines filePath langCategory (SHELL_patterns pats)
            ''shell_execution'' ''Executes shell commands'' high (Some regex),
          checkPatterns lines filePath langCategory (FILESYSTEM_WRITE_patterns pats)
            ''filesystem_write'' ''Writes to filesystem'' medium (Some regex),
          checkPatterns lines filePath langCategory (FILESYSTEM_DELETE_patterns pats)
            ''filesystem_delete'' ''Deletes files or directories'' high (Some regex),
          checkPatterns lines filePath langCategory (NETWORK_patterns pats)
            ''network_call'' ''Makes network requests'' medium (Some regex),
          checkPatterns lines filePath ''all'' (REMOTE_EXEC_patterns pats)
            ''remote_script_exec'' ''Downloads and executes remote scripts'' critical (Some regex),
          checkPatterns lines filePath langCategory (OBFUSCATION_patterns pats)
            ''obfuscation'' ''Uses code obfuscation or dynamic execution'' high (Some regex),
          checkPatterns lines filePath langCategory (CREDENTIALS_patterns pats)
            ''credential_access'' ''Accesses environment variables or credentials'' medium
            (Some regex),
          longLineFlags filePath 0 lines])"

text \<open>
  A skill path that does not exist: the globs under it match nothing (or the glob for
  binaries fails), and none of the files the scanner looks for under it exists.
\<close>

definition pathMissing :: "ScanEnv \<Rightarrow> string \<Rightarrow> bool" where
  "pathMissing env skillPath =
     (listSkillFiles env skillPath = Some [] \<and>
      list_all (\<lambda>file. \<not> existsSync env (pathJoin env skillPath file))
        ([''SKILL.md'', ''package.json'', ''requirements.txt''] @ lockFiles @ textManifests) \<and>
      (globBinaries env skillPath = None \<or> globBinaries env skillPath = Some []))"


section \<open>Example file systems\<close>

definition noRiskPatterns :: RiskPatterns where
  "noRiskPatterns =
     \<lparr>SHELL_patterns = [], FILESYSTEM_WRITE_patterns = [], FILESYSTEM_DELETE_patterns = [],
      NETWORK_patterns = [], REMOTE_EXEC_patterns = [], OBFUSCATION_patterns = [],
      CREDENTIALS_patterns = []\<rparr>"

definition noDependencyPatterns :: DependencyPatterns where
  "noDependencyPatterns =
     \<lparr>riskyScriptPattern = (\<lambda>s. False), nonRegistrySpec = (\<lambda>s. False), lockResolved = (\<lambda>s. False),
      lockHttp = (\<lambda>s. False), lockNonRegistry = (\<lambda>s. False), requirementUrl = (\<lambda>s. False),
      requirementEditable = (\<lambda>s. False), requirementIndex = (\<lambda>s. False),
      requirementPinned = (\<lambda>s. False), requirementName = (\<lambda>s. False), manifestUrl = (\<lambda>s. False)\<rparr>"

text \<open>A machine on which neither the skill nor the audit trail exists.\<close>

definition emptyDisk :: ScanEnv where
  "emptyDisk =
     \<lparr>globFiles = (\<lambda>pattern. Some []), globBinaries = (\<lambda>dir. Some []),
      existsSync = (\<lambda>p. False), readFile = (\<lambda>p. None),
      pathJoin = (\<lambda>a b. a @ ''/'' @ b), extname = (\<lambda>p. []),
      auditFile = ''/home/u/.clawshield/audit.jsonl'',
      JSON_parse = (\<lambda>text. None), numberToString = (\<lambda>n. ''0''), babel = (\<lambda>content. None),
      RISK_PATTERNS = noRiskPatterns, dependencyPatterns = noDependencyPatterns,
      isoTime = ''2026-01-01T00:00:00.000Z''\<rparr>"

text \<open>The skill that \<open>scanSkillPath\<close> builds for the path \<open>/nope\<close>.\<close>

definition missingSkill :: Skill where
  "missingSkill = \<lparr>skill_id = ''temp'', skill_name = ''nope'', skill_path = ''/nope''\<rparr>"

definition exampleSkill :: Skill where
  "exampleSkill = \<lparr>skill_id = ''L3dzL3NraWxscy9m'', skill_name = ''foo'', skill_path = ''/ws/skills/foo''\<rparr>"

text \<open>
  Lines of an audit trail, written with a backquote where the file has a double quote: a
  blocked \<open>exec\<close> as the Node guard records it, and an entry without a \<open>result\<close>.
\<close>

definition quoted :: "string \<Rightarrow> string" where
  "quoted s = map (\<lambda>c. if c = CHR 0x60 then CHR 0x22 else c) s"

definition blockedLine :: "string \<Rightarrow> string" where
  "blockedLine i =
     quoted (''{`id`:`'' @ i @ ''`,`timestamp`:`2026-01-01T00:00:0'' @ i @ ''.000Z`,`action`:`runtime`,'' @
             ''`result`:`blocked`,`skillId`:`L3dzL3NraWxscy9m`,`skillName`:`foo`,'' @
             ''`details`:{`kind`:`shell`,`fn`:`exec`}}'')"

definition blockedEntry :: "string \<Rightarrow> Json" where
  "blockedEntry i =
     JObj [(''id'', JStr i), (''timestamp'', JStr (''2026-01-01T00:00:0'' @ i @ ''.000Z'')),
           (''action'', JStr ''runtime''), (''result'', JStr ''blocked''),
           (''skillId'', JStr ''L3dzL3NraWxscy9m''), (''skillName'', JStr ''foo''),
           (''details'', JObj [(''kind'', JStr ''shell''), (''fn'', JStr ''exec'')])]"

definition unresultedLine :: string where
  "unresultedLine =
     quoted ''{`action`:`runtime`,`skillId`:`L3dzL3NraWxscy9m`,`details`:{`kind`:`network`}}''"

definition unresultedEntry :: Json where
  "unresultedEntry =
     JObj [(''action'', JStr ''runtime''), (''skillId'', JStr ''L3dzL3NraWxscy9m''),
           (''details'', JObj [(''kind'', JStr ''network'')])]"

text \<open>\<open>JSON.parse\<close> on the lines above; the other texts of the examples are not JSON.\<close>

definition exampleParse :: "string \<Rightarrow> Json option" where
  "exampleParse text =
     (if text = blockedLine ''1'' then Some (blockedEntry ''1'')
      else if text = blockedLine ''2'' then Some (blockedEntry ''2'')
      else if text = unresultedLine then Some unresultedEntry
      else None)"

text \<open>
  A machine with the skill \<open>/ws/skills/foo\<close>, whose only file \<open>index.js\<close> calls
  \<open>exec\<close> on its first line and \<open>fetch\<close> on its second, and with an audit trail of the
  given content.
\<close>

definition exampleSource :: string where
  "exampleSource = ''exec(cmd)'' @ [CHR 0x0A] @ ''fetch(url)''"

definition exampleDisk :: "string \<Rightarrow> ScanEnv" where
  "exampleDisk trail =
     \<lparr>globFiles = (\<lambda>pattern. if pattern = ''/ws/skills/foo/**/*.js''
                               then Some [''/ws/skills/foo/index.js''] else Some []),
      globBinaries = (\<lambda>dir. Some []),
      existsSync = (\<lambda>p. p = ''/ws/skills/foo/index.js'' \<or> p = ''/home/u/.clawshield/audit.jsonl''),
      readFile = (\<lambda>p. if p = ''/ws/skills/foo/index.js'' then Some exampleSource
                        else if p = ''/home/u/.clawshield/audit.jsonl'' then Some trail
                        else None),
      pathJoin = (\<lambda>a b. a @ ''/'' @ b),
      extname = (\<lambda>p. if suffix ''.js'' p then ''.js'' else []),
      auditFile = ''/home/u/.clawshield/audit.jsonl'',
      JSON_parse = exampleParse, numberToString = (\<lambda>n. ''0''),
      babel = (\<lambda>content. if content = exampleSource
                           then Some [(CallExpression (Identifier ''exec'') [Identifier ''cmd''], Some 1),
                                      (CallExpression (Identifier ''fetch'') [Identifier ''url''], Some 2)]
                           else None),
      RISK_PATTERNS = noRiskPatterns
        \<lparr>SHELL_patterns := [(''js'', [\<lambda>l. includes_str l ''exec(''])],
         NETWORK_patterns := [(''js'', [\<lambda>l. includes_str l ''fetch(''])]\<rparr>,
      dependencyPatterns = noDependencyPatterns,
      isoTime = ''2026-01-01T00:00:00.000Z''\<rparr>"

definition twoBlockedLines :: string where
  "twoBlockedLines = blockedLine ''1'' @ [CHR 0x0A] @ blockedLine ''2'' @ [CHR 0x0A]"


section \<open>Runtime guards: configuration (node-guard.ts, python-guard.ts)\<close>

text \<open>
  Both guards read the same configuration values at start-up. The record holds them after
  parsing; \<open>auditPath\<close>, \<open>auditLevel\<close>, \<open>skillId\<close> and \<open>skillName\<close> are the
  module-level constants of the guard.
\<close>

record GuardConfig =
  blockShell :: bool
  blockNetwork :: bool
  blockFsWrite :: bool
  blockSecrets :: bool
  allowedDirs :: "string list"
  allowedDomains :: "string list"
  allowedEnv :: "string list"
  auditPath :: string
  auditLevel :: string
  skillId :: "string option"
  skillName :: "string option"

text \<open>
  What the guard takes from its runtime and operating system: \<open>path.resolve\<close> (Python:
  \<open>os.path.abspath\<close>), which depends on the working directory, the test
  \<open>process.platform === 'win32'\<close> (Python: \<open>os.name == "nt"\<close>), \<open>path.sep\<close>
  (Python: \<open>os.sep\<close>) and \<open>path.dirname\<close> (Python: \<open>os.path.dirname\<close>).
\<close>

record Platform =
  resolve :: "string \<Rightarrow> string"
  win32 :: bool
  sep :: string
  dirname :: "string \<Rightarrow> string"

definition parseList :: "string option \<Rightarrow> string list" where
  "parseList value =
     (case value of
        None \<Rightarrow> []
      | Some v \<Rightarrow>
          (if v = [] then []
           else filter (\<lambda>x. x \<noteq> [])
                  (map trim (splitRuns (\<lambda>c. c = CHR '','' \<or> c = CHR '';'') v))))"

text \<open>
  \<open>_parse_list\<close>: \<open>value.replace(";", ",").split(",")\<close>, each item kept when its
  stripped form is non-empty.
\<close>

definition py_parse_list :: "string option \<Rightarrow> string list" where
  "py_parse_list value =
     (case value of
        None \<Rightarrow> []
      | Some v \<Rightarrow>
          (if v = [] then []
           else map trim
                  (filter (\<lambda>item. trim item \<noteq> [])
                     (splitEach (\<lambda>c. c = CHR '','')
                        (map (\<lambda>c. if c = CHR '';'' then CHR '','' else c) v)))))"


section \<open>Runtime guards: path and domain checks\<close>

definition normalizePath :: "Platform \<Rightarrow> string \<Rightarrow> string" where
  "normalizePath P value =
     (let resolved = resolve P value
      in if win32 P then toLowerCase resolved else resolved)"

text \<open>\<open>new Set(xs)\<close>: the distinct elements in order of first insertion.\<close>

definition newSet :: "'a list \<Rightarrow> 'a list" where
  "newSet xs = foldl (\<lambda>s x. if x \<in> set s then s else s @ [x]) [] xs"

definition allowedDirSet :: "Platform \<Rightarrow> GuardConfig \<Rightarrow> string list" where
  "allowedDirSet P g = newSet (map (normalizePath P) (allowedDirs g))"

definition isPathAllowed :: "Platform \<Rightarrow> GuardConfig \<Rightarrow> string option \<Rightarrow> bool" where
  "isPathAllowed P g targetPath =
     (case targetPath of
        None \<Rightarrow> False
      | Some t \<Rightarrow>
          (if t = [] then False
           else
             (let resolved = normalizePath P t;
                  auditResolved = normalizePath P (auditPath g)
              in if resolved = auditResolved then True
                 else if length (allowedDirSet P g) = 0 then False
                 else list_ex (\<lambda>allowed. resolved = allowed \<or> prefix (allowed @ sep P) resolved)
                        (allowedDirSet P g))))"

definition py_is_path_allowed :: "Platform \<Rightarrow> GuardConfig \<Rightarrow> string \<Rightarrow> bool" where
  "py_is_path_allowed P g value =
     (if value = [] then False
      else
        (let resolved = normalizePath P value;
             audit_resolved = normalizePath P (auditPath g)
         in if resolved = audit_resolved then True
            else if allowedDirs g = [] then False
            else list_ex (\<lambda>base. let base_resolved = normalizePath P base
                                 in resolved = base_resolved \<or> prefix (base_resolved @ sep P) resolved)
                   (allowedDirs g)))"

text \<open>\<open>s.split(':')[0]\<close>: the part of \<open>s\<close> before its first colon.\<close>

definition beforeColon :: "string \<Rightarrow> string" where
  "beforeColon s = takeWhile (\<lambda>c. c \<noteq> CHR '':'') s"

definition isDomainAllowed :: "GuardConfig \<Rightarrow> string option \<Rightarrow> bool" where
  "isDomainAllowed g host =
     (case host of
        None \<Rightarrow> False
      | Some h \<Rightarrow>
          (if h = [] then False
           else
             (let hostname = beforeColon (toLowerCase h)
              in if length (allowedDomains g) = 0 then False
                 else list_ex (\<lambda>domain. let d = toLowerCase domain
                                        in hostname = d \<or> suffix (''.'' @ d) hostname)
                        (allowedDomains g))))"

definition py_is_domain_allowed :: "GuardConfig \<Rightarrow> string option \<Rightarrow> bool" where
  "py_is_domain_allowed g host =
     (case host of
        None \<Rightarrow> False
      | Some h \<Rightarrow>
          (if h = [] then False
           else
             (let hostname = toLowerCase (beforeColon h)
              in if allowedDomains g = [] then False
                 else list_ex (\<lambda>domain. let d = toLowerCase domain
                                        in hostname = d \<or> suffix (''.'' @ d) hostname)
                        (allowedDomains g))))"


section \<open>Runtime guards: the audit file\<close>

text \<open>
  The audit file is the list of the entries appended to it, one per line. The \<open>id\<close> and
  \<open>timestamp\<close> of an entry, on which no decision depends, are left out. Of the machine
  the model keeps what the audit write depends on: whether the directory of the audit
  file exists, whether the file exists, and whether the operating system lets the process
  write there (disk full, permission denied).
\<close>

datatype AuditResult = success | blocked | failure

datatype JsValue = Str string | Bool bool | StrList "string list" | Undefined

record AuditEntry =
  action :: string
  result :: AuditResult
  entrySkillId :: "string option"
  entrySkillName :: "string option"
  details :: "(string \<times> JsValue) list"

record World =
  auditLog :: "AuditEntry list"
  dirExists :: bool
  fileExists :: bool
  writable :: bool

definition auditEntry ::
  "GuardConfig \<Rightarrow> string \<Rightarrow> AuditResult \<Rightarrow> (string \<times> JsValue) list \<Rightarrow> AuditEntry" where
  "auditEntry g act res det =
     \<lparr>action = act, result = res, entrySkillId = skillId g, entrySkillName = skillName g,
      details = det\<rparr>"

text \<open>
  The functions of the runtime that the audit write ends in, before the guard wraps them;
  \<open>None\<close> is the error of the operating system. \<open>mkdirOriginal\<close> is
  \<open>mkdirSync(dir, {recursive: true})\<close> and \<open>makedirs(dir, exist_ok=True)\<close>, which accept
  a directory that exists; \<open>createOriginal\<close> is \<open>writeFileSync(auditPath, '')\<close> and
  \<open>open(AUDIT_PATH, "w")\<close>; \<open>appendOriginal\<close> is \<open>appendFileSync(auditPath, line)\<close> and
  \<open>open(AUDIT_PATH, "a")\<close> followed by the write, which create the file when it is
  missing. The parent of the audit directory is taken to exist. (CPython's \<open>makedirs\<close>
  then calls \<open>os.mkdir\<close> by name and so passes the guard once more, for the same
  directory and with the same verdict; this second pass, which logs only at the audit
  level \<open>all\<close>, is left out.)
\<close>

definition mkdirOriginal :: "World \<Rightarrow> World option" where
  "mkdirOriginal w =
     (if dirExists w then Some w
      else if writable w then Some (w\<lparr>dirExists := True\<rparr>)
      else None)"

definition createOriginal :: "World \<Rightarrow> World option" where
  "createOriginal w =
     (if dirExists w \<and> writable w then Some (w\<lparr>fileExists := True, auditLog := []\<rparr>)
      else None)"

definition appendOriginal :: "AuditEntry \<Rightarrow> World \<Rightarrow> World option" where
  "appendOriginal e w =
     (if dirExists w \<and> writable w
      then Some (w\<lparr>fileExists := True,
                   auditLog := (if fileExists w then auditLog w else []) @ [e]\<rparr>)
      else None)"

definition optStr :: "string option \<Rightarrow> JsValue" where
  "optStr x = (case x of None \<Rightarrow> Undefined | Some v \<Rightarrow> Str v)"


section \<open>Runtime guards: the Node guard (node-guard.ts)\<close>

text \<open>
  What the caller of an intercepted operation gets from the Node guard: the guard's error
  (code \<open>CLAWSHIELD_BLOCKED\<close>, with its message), the \<open>RangeError\<close> of a full stack, the
  error of the original function, the return of the original function, the value
  \<open>undefined\<close> from the \<open>get\<close> trap of the environment proxy, or \<open>false\<close> from its
  \<open>set\<close> trap.
\<close>

datatype Outcome =
  Threw string | ThrewRangeError | ThrewSystemError | Proceeds | ReturnsUndefined | TrapReturnsFalse

text \<open>
  The guard replaces the writing functions of the module \<open>fs\<close> by the wrappers of
  \<open>wrapWrite\<close>, and its own audit write calls \<open>fs.mkdirSync\<close>, \<open>fs.writeFileSync\<close> and
  \<open>fs.appendFileSync\<close> on that module: once the guard is loaded, \<open>writeAudit\<close> goes
  through the wrappers like any other caller, and the wrappers log in turn. The functions
  therefore call each other in a cycle,

  \<open>logBlocked\<close>, \<open>writeAudit\<close>, \<open>ensureAuditFile\<close>, wrapper of \<open>mkdirSync\<close>, \<open>logBlocked\<close>,

  and likewise through \<open>logAllowed\<close> when the audit level is \<open>all\<close>. The nesting ends
  where the stack is full: the call that no longer fits throws, and the \<open>catch\<close> of the
  enclosing \<open>try\<close> swallows that error like any other.

  The argument \<open>n\<close> is the number of frames the stack has room for when the function is
  called: with none the call throws \<open>RangeError\<close> and nothing happens, otherwise the body
  runs with one frame less. Only the calls between the five functions of the cycle are
  counted; \<open>isPathAllowed\<close> and the functions of the runtime return without entering the
  guard again. A function without a result returns \<open>Some\<close> of the new world, or \<open>None\<close>
  when it throws \<open>RangeError\<close> (the world is then as before the call).

  \<open>writeAudit\<close>: \<open>try { ensureAuditFile(); ...; fs.appendFileSync(auditPath, line) } catch { }\<close>.
  \<open>ensureAuditFile\<close>: \<open>try { if (!existsSync(dir)) fs.mkdirSync(dir, ...);
  if (!existsSync(auditPath)) fs.writeFileSync(auditPath, '') } catch { }\<close>.
  \<open>wrapWrite\<close> is the function installed in place of \<open>fs[fnName]\<close>; its last argument is
  the function it wraps.
\<close>

function (sequential) writeAudit ::
    "Platform \<Rightarrow> GuardConfig \<Rightarrow> nat \<Rightarrow> World \<Rightarrow> string \<Rightarrow> AuditResult \<Rightarrow> (string \<times> JsValue) list \<Rightarrow>
       World option"
  and ensureAuditFile :: "Platform \<Rightarrow> GuardConfig \<Rightarrow> nat \<Rightarrow> World \<Rightarrow> World option"
  and logAllowed :: "Platform \<Rightarrow> GuardConfig \<Rightarrow> nat \<Rightarrow> World \<Rightarrow> (string \<times> JsValue) list \<Rightarrow> World option"
  and logBlocked :: "Platform \<Rightarrow> GuardConfig \<Rightarrow> nat \<Rightarrow> World \<Rightarrow> (string \<times> JsValue) list \<Rightarrow> World option"
  and wrapWrite ::
    "Platform \<Rightarrow> GuardConfig \<Rightarrow> nat \<Rightarrow> World \<Rightarrow> string \<Rightarrow> string option \<Rightarrow> (World \<Rightarrow> World option) \<Rightarrow>
       Outcome \<times> World"
where
  "writeAudit P g 0 w act res det = None"
| "writeAudit P g (Suc n) w act res det =
     (case ensureAuditFile P g n w of
        None \<Rightarrow> Some w
      | Some w1 \<Rightarrow>
          Some (snd (wrapWrite P g n w1 ''appendFileSync'' (Some (auditPath g))
                       (appendOriginal (auditEntry g act res det)))))"
| "ensureAuditFile P g 0 w = None"
| "ensureAuditFile P g (Suc n) w =
     (case (if \<not> dirExists w
            then wrapWrite P g n w ''mkdirSync'' (Some (dirname P (auditPath g))) mkdirOriginal
            else (Proceeds, w)) of
        (Proceeds, w1) \<Rightarrow>
          (if \<not> fileExists w1
           then Some (snd (wrapWrite P g n w1 ''writeFileSync'' (Some (auditPath g)) createOriginal))
           else Some w1)
      | (thrown, w1) \<Rightarrow> Some w1)"
| "logAllowed P g 0 w det = None"
| "logAllowed P g (Suc n) w det =
     (if auditLevel g = ''all'' then writeAudit P g n w ''runtime'' success det else Some w)"
| "logBlocked P g 0 w det = None"
| "logBlocked P g (Suc n) w det = writeAudit P g n w ''runtime'' blocked det"
| "wrapWrite P g 0 w fnName target original = (ThrewRangeError, w)"
| "wrapWrite P g (Suc n) w fnName target original =
     (if blockFsWrite g \<and> \<not> isPathAllowed P g target
      then (case logBlocked P g n w
                    [(''kind'', Str ''fs_write''), (''fn'', Str fnName), (''target'', optStr target)] of
              None \<Rightarrow> (ThrewRangeError, w)
            | Some w1 \<Rightarrow>
                (Threw (''ClawShield blocked filesystem write: '' @
                          (case target of None \<Rightarrow> ''undefined'' | Some t \<Rightarrow> t)), w1))
      else (case logAllowed P g n w
                    [(''kind'', Str ''fs_write''), (''fn'', Str fnName), (''target'', optStr target)] of
              None \<Rightarrow> (ThrewRangeError, w)
            | Some w1 \<Rightarrow>
                (case original w1 of
                   None \<Rightarrow> (ThrewSystemError, w1)
                 | Some w2 \<Rightarrow> (Proceeds, w2))))"
  by pat_completeness auto

termination
  by (relation "measure (\<lambda>x. case x of
           Inl (Inl (P, g, n, r)) \<Rightarrow> n
         | Inl (Inr (P, g, n, r)) \<Rightarrow> n
         | Inr (Inl (P, g, n, r)) \<Rightarrow> n
         | Inr (Inr (Inl (P, g, n, r))) \<Rightarrow> n
         | Inr (Inr (Inr (P, g, n, r))) \<Rightarrow> n)") auto

text \<open>
  The other intercepted operations. Each is the function the guard installs, called with
  room for \<open>n\<close> frames; where the guard installs nothing (shell blocking or secret
  blocking off) the original is reached.
\<close>

definition blockedShellFns :: "string list" where
  "blockedShellFns =
     [''exec'', ''execSync'', ''spawn'', ''spawnSync'', ''execFile'', ''execFileSync'', ''fork'']"

definition childProcessCall ::
  "Platform \<Rightarrow> GuardConfig \<Rightarrow> nat \<Rightarrow> World \<Rightarrow> string \<Rightarrow> Outcome \<times> World" where
  "childProcessCall P g n w fn =
     (if blockShell g \<and> fn \<in> set blockedShellFns
      then (case n of
              0 \<Rightarrow> (ThrewRangeError, w)
            | Suc m \<Rightarrow>
                (case logBlocked P g m w [(''kind'', Str ''shell''), (''fn'', Str fn)] of
                   None \<Rightarrow> (ThrewRangeError, w)
                 | Some w1 \<Rightarrow> (Threw (''ClawShield blocked shell execution: '' @ fn), w1)))
      else (Proceeds, w))"

definition handleNetwork ::
  "Platform \<Rightarrow> GuardConfig \<Rightarrow> nat \<Rightarrow> World \<Rightarrow> string option \<Rightarrow> (string \<times> JsValue) list \<Rightarrow>
     Outcome \<times> World" where
  "handleNetwork P g n w host det =
     (case n of
        0 \<Rightarrow> (ThrewRangeError, w)
      | Suc m \<Rightarrow>
          (let allowed = (if length (allowedDomains g) > 0 then isDomainAllowed g host
                          else \<not> blockNetwork g)
           in if \<not> allowed
              then (case logBlocked P g m w
                            ([(''kind'', Str ''network''), (''host'', optStr host)] @ det) of
                      None \<Rightarrow> (ThrewRangeError, w)
                    | Some w1 \<Rightarrow>
                        (Threw (''ClawShield blocked network access: '' @
                                  (case host of None \<Rightarrow> ''unknown'' | Some h \<Rightarrow> h)), w1))
              else (case logAllowed P g m w
                            ([(''kind'', Str ''network''), (''host'', optStr host)] @ det) of
                      None \<Rightarrow> (ThrewRangeError, w)
                    | Some w1 \<Rightarrow> (Proceeds, w1))))"

definition defaultAllowed :: "GuardConfig \<Rightarrow> string list" where
  "defaultAllowed g =
     [''PATH'', ''HOME'', ''USER'', ''SHELL'', ''TMPDIR'', ''TEMP'', ''TMP'', ''LANG'',
      ''NODE_ENV'', ''NODE_OPTIONS''] @ allowedEnv g"

text \<open>The \<open>get\<close> and \<open>set\<close> traps of the proxy put in place of \<open>process.env\<close>.\<close>

definition envGet :: "Platform \<Rightarrow> GuardConfig \<Rightarrow> nat \<Rightarrow> World \<Rightarrow> string \<Rightarrow> Outcome \<times> World" where
  "envGet P g n w prop =
     (if blockSecrets g \<and> prop \<notin> set (defaultAllowed g)
      then (case n of
              0 \<Rightarrow> (ThrewRangeError, w)
            | Suc m \<Rightarrow>
                (case logBlocked P g m w [(''kind'', Str ''env''), (''key'', Str prop)] of
                   None \<Rightarrow> (ThrewRangeError, w)
                 | Some w1 \<Rightarrow> (ReturnsUndefined, w1)))
      else (Proceeds, w))"

definition envSet :: "Platform \<Rightarrow> GuardConfig \<Rightarrow> nat \<Rightarrow> World \<Rightarrow> string \<Rightarrow> Outcome \<times> World" where
  "envSet P g n w prop =
     (if blockSecrets g \<and> prop \<notin> set (defaultAllowed g)
      then (case n of
              0 \<Rightarrow> (ThrewRangeError, w)
            | Suc m \<Rightarrow>
                (case logBlocked P g m w [(''kind'', Str ''env_set''), (''key'', Str prop)] of
                   None \<Rightarrow> (ThrewRangeError, w)
                 | Some w1 \<Rightarrow> (TrapReturnsFalse, w1)))
      else (Proceeds, w))"


section \<open>Runtime guards: the Python guard (python-guard.ts)\<close>

datatype PyOutcome =
  RaisesPermissionError string | RaisesKeyError string | RaisesRecursionError | RaisesOSError |
  PyProceeds | ReturnsDefault | ReturnsNone

text \<open>\<open>any(flag in mode for flag in ("w", "a", "x", "+"))\<close>.\<close>

definition writes :: "string \<Rightarrow> bool" where
  "writes mode = (\<exists>flag \<in> set ''wax+''. flag \<in> set mode)"

text \<open>
  The Python guard replaces \<open>builtins.open\<close> by \<open>_open_guard\<close> and \<open>os.makedirs\<close> by
  the wrapper of \<open>_wrap_os_write\<close>, and \<open>_ensure_audit_file\<close> and \<open>_write_audit\<close> call
  both by name. The cycle is

  \<open>_log_blocked\<close>, \<open>_write_audit\<close>, \<open>_ensure_audit_file\<close>, wrapper of \<open>makedirs\<close>,
  \<open>_guard_path_write\<close>, \<open>_log_blocked\<close>:

  five frames for each nested audit write, and \<open>makedirs\<close> is called for every audit
  write, whether the directory exists or not. \<open>RecursionError\<close> is an \<open>Exception\<close>, so
  \<open>except Exception: pass\<close> swallows it. The argument \<open>n\<close> counts the frames as for the
  Node guard.
\<close>

function (sequential) py_write_audit ::
    "Platform \<Rightarrow> GuardConfig \<Rightarrow> nat \<Rightarrow> World \<Rightarrow> string \<Rightarrow> AuditResult \<Rightarrow> (string \<times> JsValue) list \<Rightarrow>
       World option"
  and py_ensure_audit_file :: "Platform \<Rightarrow> GuardConfig \<Rightarrow> nat \<Rightarrow> World \<Rightarrow> World option"
  and py_log_allowed :: "Platform \<Rightarrow> GuardConfig \<Rightarrow> nat \<Rightarrow> World \<Rightarrow> (string \<times> JsValue) list \<Rightarrow> World option"
  and py_log_blocked :: "Platform \<Rightarrow> GuardConfig \<Rightarrow> nat \<Rightarrow> World \<Rightarrow> (string \<times> JsValue) list \<Rightarrow> World option"
  and py_guard_path_write ::
    "Platform \<Rightarrow> GuardConfig \<Rightarrow> nat \<Rightarrow> World \<Rightarrow> string \<Rightarrow> string \<Rightarrow> PyOutcome \<times> World"
  and py_open_guard ::
    "Platform \<Rightarrow> GuardConfig \<Rightarrow> nat \<Rightarrow> World \<Rightarrow> string \<Rightarrow> string \<Rightarrow> (World \<Rightarrow> World option) \<Rightarrow>
       PyOutcome \<times> World"
  and py_wrap_os_write ::
    "Platform \<Rightarrow> GuardConfig \<Rightarrow> nat \<Rightarrow> World \<Rightarrow> string \<Rightarrow> string \<Rightarrow> (World \<Rightarrow> World option) \<Rightarrow>
       PyOutcome \<times> World"
where
  "py_write_audit P g 0 w act res det = None"
| "py_write_audit P g (Suc n) w act res det =
     (case py_ensure_audit_file P g n w of
        None \<Rightarrow> Some w
      | Some w1 \<Rightarrow>
          Some (snd (py_open_guard P g n w1 (auditPath g) ''a''
                       (appendOriginal (auditEntry g act res det)))))"
| "py_ensure_audit_file P g 0 w = None"
| "py_ensure_audit_file P g (Suc n) w =
     (case py_wrap_os_write P g n w ''makedirs'' (dirname P (auditPath g)) mkdirOriginal of
        (PyProceeds, w1) \<Rightarrow>
          (if \<not> fileExists w1
           then Some (snd (py_open_guard P g n w1 (auditPath g) ''w'' createOriginal))
           else Some w1)
      | (raised, w1) \<Rightarrow> Some w1)"
| "py_log_allowed P g 0 w det = None"
| "py_log_allowed P g (Suc n) w det =
     (if auditLevel g = ''all'' then py_write_audit P g n w ''runtime'' success det else Some w)"
| "py_log_blocked P g 0 w det = None"
| "py_log_blocked P g (Suc n) w det = py_write_audit P g n w ''runtime'' blocked det"
| "py_guard_path_write P g 0 w target fn = (RaisesRecursionError, w)"
| "py_guard_path_write P g (Suc n) w target fn =
     (if blockFsWrite g \<and> \<not> py_is_path_allowed P g target
      then (case py_log_blocked P g n w
                    [(''kind'', Str ''fs_write''), (''fn'', Str fn), (''target'', Str target)] of
              None \<Rightarrow> (RaisesRecursionError, w)
            | Some w1 \<Rightarrow> (RaisesPermissionError ''ClawShield blocked filesystem write'', w1))
      else (case py_log_allowed P g n w
                    [(''kind'', Str ''fs_write''), (''fn'', Str fn), (''target'', Str target)] of
              None \<Rightarrow> (RaisesRecursionError, w)
            | Some w1 \<Rightarrow> (PyProceeds, w1)))"
| "py_open_guard P g 0 w file mode original = (RaisesRecursionError, w)"
| "py_open_guard P g (Suc n) w file mode original =
     (case (if writes mode then py_guard_path_write P g n w file ''open'' else (PyProceeds, w)) of
        (PyProceeds, w1) \<Rightarrow>
          (case original w1 of
             None \<Rightarrow> (RaisesOSError, w1)
           | Some w2 \<Rightarrow> (PyProceeds, w2))
      | (raised, w1) \<Rightarrow> (raised, w1))"
| "py_wrap_os_write P g 0 w fn_name path_value original = (RaisesRecursionError, w)"
| "py_wrap_os_write P g (Suc n) w fn_name path_value original =
     (case py_guard_path_write P g n w path_value fn_name of
        (PyProceeds, w1) \<Rightarrow>
          (case original w1 of
             None \<Rightarrow> (RaisesOSError, w1)
           | Some w2 \<Rightarrow> (PyProceeds, w2))
      | (raised, w1) \<Rightarrow> (raised, w1))"
  by pat_completeness auto

termination
  by (relation "measure (\<lambda>x. case x of
           Inl (Inl (P, g, n, r)) \<Rightarrow> n
         | Inl (Inr (Inl (P, g, n, r))) \<Rightarrow> n
         | Inl (Inr (Inr (P, g, n, r))) \<Rightarrow> n
         | Inr (Inl (Inl (P, g, n, r))) \<Rightarrow> n
         | Inr (Inl (Inr (P, g, n, r))) \<Rightarrow> n
         | Inr (Inr (Inl (P, g, n, r))) \<Rightarrow> n
         | Inr (Inr (Inr (P, g, n, r))) \<Rightarrow> n)") auto

definition py_blocked_shell_fns :: "string list" where
  "py_blocked_shell_fns = [''system'', ''popen'', ''Popen'', ''run'', ''call'', ''check_output'']"

definition py_block_shell ::
  "Platform \<Rightarrow> GuardConfig \<Rightarrow> nat \<Rightarrow> World \<Rightarrow> string \<Rightarrow> PyOutcome \<times> World" where
  "py_block_shell P g n w fn =
     (if blockShell g \<and> fn \<in> set py_blocked_shell_fns
      then (case n of
              0 \<Rightarrow> (RaisesRecursionError, w)
            | Suc m \<Rightarrow>
                (case py_log_blocked P g m w [(''kind'', Str ''shell''), (''fn'', Str fn)] of
                   None \<Rightarrow> (RaisesRecursionError, w)
                 | Some w1 \<Rightarrow> (RaisesPermissionError ''ClawShield blocked shell execution'', w1)))
      else (PyProceeds, w))"

definition py_handle_network ::
  "Platform \<Rightarrow> GuardConfig \<Rightarrow> nat \<Rightarrow> World \<Rightarrow> string option \<Rightarrow> string \<Rightarrow> PyOutcome \<times> World" where
  "py_handle_network P g n w host fn =
     (case n of
        0 \<Rightarrow> (RaisesRecursionError, w)
      | Suc m \<Rightarrow>
          (let allowed = ((\<not> blockNetwork g) \<or> py_is_domain_allowed g host)
           in if \<not> allowed
              then (case py_log_blocked P g m w
                            [(''kind'', Str ''network''), (''fn'', Str fn), (''host'', optStr host)] of
                      None \<Rightarrow> (RaisesRecursionError, w)
                    | Some w1 \<Rightarrow> (RaisesPermissionError ''ClawShield blocked network access'', w1))
              else (case py_log_allowed P g m w
                            [(''kind'', Str ''network''), (''fn'', Str fn), (''host'', optStr host)] of
                      None \<Rightarrow> (RaisesRecursionError, w)
                    | Some w1 \<Rightarrow> (PyProceeds, w1))))"

definition py_default_allowed :: "GuardConfig \<Rightarrow> string list" where
  "py_default_allowed g =
     [''PATH'', ''HOME'', ''USER'', ''SHELL'', ''TMPDIR'', ''TEMP'', ''TMP'', ''LANG'', ''LC_ALL'',
      ''PYTHONPATH'', ''VIRTUAL_ENV'', ''NODE_ENV'', ''PWD''] @ allowedEnv g"

text \<open>
  The denials of \<open>_EnvironProxy\<close> and of \<open>os.putenv\<close> have one shape: log a blocked entry
  of the given kind for the key, then raise or return what the method says.
\<close>

definition py_env_denial ::
  "Platform \<Rightarrow> GuardConfig \<Rightarrow> nat \<Rightarrow> World \<Rightarrow> string \<Rightarrow> string \<Rightarrow> PyOutcome \<Rightarrow> PyOutcome \<times> World" where
  "py_env_denial P g n w kind key out =
     (case n of
        0 \<Rightarrow> (RaisesRecursionError, w)
      | Suc m \<Rightarrow>
          (case py_log_blocked P g m w [(''kind'', Str kind), (''key'', Str key)] of
             None \<Rightarrow> (RaisesRecursionError, w)
           | Some w1 \<Rightarrow> (out, w1)))"

text \<open>\<open>_EnvironProxy.__getitem__\<close>, \<open>__setitem__\<close>, \<open>__delitem__\<close> and \<open>get\<close>.\<close>

definition py_env_getitem ::
  "Platform \<Rightarrow> GuardConfig \<Rightarrow> nat \<Rightarrow> World \<Rightarrow> string \<Rightarrow> PyOutcome \<times> World" where
  "py_env_getitem P g n w key =
     (if blockSecrets g \<and> key \<notin> set (py_default_allowed g)
      then py_env_denial P g n w ''env'' key (RaisesKeyError key)
      else (PyProceeds, w))"

definition py_env_setitem ::
  "Platform \<Rightarrow> GuardConfig \<Rightarrow> nat \<Rightarrow> World \<Rightarrow> string \<Rightarrow> PyOutcome \<times> World" where
  "py_env_setitem P g n w key =
     (if blockSecrets g \<and> key \<notin> set (py_default_allowed g)
      then py_env_denial P g n w ''env_set'' key (RaisesPermissionError ''ClawShield blocked env set'')
      else (PyProceeds, w))"

definition py_env_delitem ::
  "Platform \<Rightarrow> GuardConfig \<Rightarrow> nat \<Rightarrow> World \<Rightarrow> string \<Rightarrow> PyOutcome \<times> World" where
  "py_env_delitem P g n w key =
     (if blockSecrets g \<and> key \<notin> set (py_default_allowed g)
      then py_env_denial P g n w ''env_delete'' key
             (RaisesPermissionError ''ClawShield blocked env delete'')
      else (PyProceeds, w))"

definition py_env_get ::
  "Platform \<Rightarrow> GuardConfig \<Rightarrow> nat \<Rightarrow> World \<Rightarrow> string \<Rightarrow> PyOutcome \<times> World" where
  "py_env_get P g n w key =
     (if blockSecrets g \<and> key \<notin> set (py_default_allowed g)
      then py_env_denial P g n w ''env'' key ReturnsDefault
      else (PyProceeds, w))"

text \<open>\<open>os.putenv\<close> once secrets are blocked: logs a blocked entry and returns \<open>None\<close>.\<close>

definition py_putenv ::
  "Platform \<Rightarrow> GuardConfig \<Rightarrow> nat \<Rightarrow> World \<Rightarrow> string \<Rightarrow> PyOutcome \<times> World" where
  "py_putenv P g n w key =
     (if blockSecrets g then py_env_denial P g n w ''env_set'' key ReturnsNone
      else (PyProceeds, w))"


section \<open>Runtime guards: a POSIX platform for the examples\<close>

text \<open>
  Modelled from the documentation of \<open>path.resolve\<close> and \<open>path.dirname\<close>: a relative
  path is taken from the working directory, empty and \<open>.\<close> segments are dropped, \<open>..\<close>
  removes the segment before it, and the result has no trailing separator; the directory
  of a path is what precedes its last separator, \<open>/\<close> for a file in the root and \<open>.\<close>
  for a bare name.
\<close>

definition posixResolve :: "string \<Rightarrow> string \<Rightarrow> string" where
  "posixResolve cwd p =
     (let full = (case p of CHR ''/'' # rest \<Rightarrow> p | other \<Rightarrow> cwd @ ''/'' @ p);
          segs = foldl (\<lambda>stack seg.
                          if seg = [] \<or> seg = ''.'' then stack
                          else if seg = ''..'' then butlast stack
                          else stack @ [seg])
                   [] (splitEach (\<lambda>c. c = CHR ''/'') full)
      in CHR ''/'' # join ''/'' segs)"

definition posixDirname :: "string \<Rightarrow> string" where
  "posixDirname p =
     (let d = rev (drop 1 (dropWhile (\<lambda>c. c \<noteq> CHR ''/'') (rev p)))
      in if d \<noteq> [] then d else if prefix ''/'' p then ''/'' else ''.'')"

definition posix :: "string \<Rightarrow> Platform" where
  "posix cwd = \<lparr>resolve = posixResolve cwd, win32 = False, sep = ''/'', dirname = posixDirname\<rparr>"


section \<open>Runtime guards: what the specification says, and an example configuration\<close>

text \<open>
  The path rule in the words of the specification: a target is allowed exactly when its
  canonical form equals an allow-listed directory (in canonical form) or extends it
  followed by the path separator.
\<close>

definition spec_path_allowed :: "Platform \<Rightarrow> string list \<Rightarrow> string \<Rightarrow> bool" where
  "spec_path_allowed P dirs target =
     list_ex (\<lambda>d. normalizePath P target = normalizePath P d \<or>
                  prefix (normalizePath P d @ sep P) (normalizePath P target)) dirs"

text \<open>
  An operation is denied by the guard when, on a machine where the audit directory and
  the audit file exist and can be written, the call makes the audit log longer, keeps
  what was in it, and leaves a \<open>blocked\<close> entry at its end.
\<close>

definition healthy :: "World \<Rightarrow> World" where
  "healthy w = w\<lparr>dirExists := True, fileExists := True, writable := True\<rparr>"

definition logsBlocked :: "World \<Rightarrow> World \<Rightarrow> bool" where
  "logsBlocked w w' =
     (length (auditLog w) < length (auditLog w') \<and>
      take (length (auditLog w)) (auditLog w') = auditLog w \<and>
      result (last (auditLog w')) = blocked)"

definition denied :: "(World \<Rightarrow> 'o \<times> World) \<Rightarrow> World \<Rightarrow> bool" where
  "denied guardedCall w = logsBlocked (healthy w) (snd (guardedCall (healthy w)))"


text \<open>The guard's own error, as opposed to the error of a full stack.\<close>

definition isThrown :: "Outcome \<Rightarrow> bool" where
  "isThrown out = (case out of Threw msg \<Rightarrow> True | other \<Rightarrow> False)"

definition isRaised :: "PyOutcome \<Rightarrow> bool" where
  "isRaised out =
     (case out of RaisesPermissionError msg \<Rightarrow> True | RaisesKeyError k \<Rightarrow> True | other \<Rightarrow> False)"

text \<open>
  The example configuration allows writes below the skill only; the audit file lies in
  \<open>/home/u/.clawshield\<close>, outside the allow-list. On \<open>failingDisk\<close> the audit directory
  and file exist and nothing can be written.
\<close>

definition exampleGuard :: GuardConfig where
  "exampleGuard =
     \<lparr>blockShell = True, blockNetwork = True, blockFsWrite = True, blockSecrets = True,
      allowedDirs = [''/ws/skills/foo''], allowedDomains = [''example.com''], allowedEnv = [],
      auditPath = ''/home/u/.clawshield/audit.jsonl'', auditLevel = ''blocked'',
      skillId = Some ''L3dzL3NraWxscy9m'', skillName = Some ''foo''\<rparr>"

definition failingDisk :: World where
  "failingDisk = \<lparr>auditLog = [], dirExists = True, fileExists = True, writable = False\<rparr>"

text \<open>
  Predicates for the invariants of the audit write: a function of the runtime that
  leaves a world it cannot write to as it is; a world whose audit directory and file
  exist and can be written; a step that keeps such a world so and only adds to the log.
\<close>

definition keepsUnwritable :: "(World \<Rightarrow> World option) \<Rightarrow> bool" where
  "keepsUnwritable original = (\<forall>v v'. \<not> writable v \<longrightarrow> original v = Some v' \<longrightarrow> v' = v)"

definition sound :: "World \<Rightarrow> bool" where
  "sound w = (dirExists w \<and> fileExists w \<and> writable w)"

definition grows :: "World \<Rightarrow> World \<Rightarrow> bool" where
  "grows w w' = (sound w' \<and> prefix (auditLog w) (auditLog w'))"

definition growing :: "(World \<Rightarrow> World option) \<Rightarrow> bool" where
  "growing original = (\<forall>v v'. sound v \<longrightarrow> original v = Some v' \<longrightarrow> grows v v')"


section \<open>Properties of the scorer\<close>

subsection \<open>Counting by category\<close>

lemma cnt_countType: "cnt (countType tc f) c = cnt tc c + (if type f = c then 1 else 0)"
  by (simp add: cnt_def countType_def update_conv')

lemma keys_countType: "fst ` set (countType tc f) = insert (type f) (fst ` set tc)"
  by (simp add: countType_def dom_update)

lemma distinct_countType: "distinct (map fst tc) \<Longrightarrow> distinct (map fst (countType tc f))"
  by (simp add: countType_def distinct_update)

lemma foldl_countType:
  "distinct (map fst tc) \<Longrightarrow>
     distinct (map fst (foldl countType tc fs)) \<and>
     fst ` set (foldl countType tc fs) = fst ` set tc \<union> type ` set fs \<and>
     (\<forall>c. cnt (foldl countType tc fs) c = cnt tc c + count_of fs c)"
proof (induction fs arbitrary: tc)
  case Nil
  then show ?case by (simp add: count_of_def)
next
  case (Cons f fs)
  have d: "distinct (map fst (countType tc f))"
    using Cons.prems by (rule distinct_countType)
  from Cons.IH [OF d] show ?case
    by (auto simp: keys_countType cnt_countType count_of_def)
qed

lemma countTypes_props:
  "distinct (map fst (countTypes fs))"
  "fst ` set (countTypes fs) = type ` set fs"
  "cnt (countTypes fs) c = count_of fs c"
  using foldl_countType [of "[]" fs] by (simp_all add: countTypes_def cnt_def)

lemma count_of_pos: "c \<in> type ` set fs \<Longrightarrow> 1 \<le> count_of fs c"
proof -
  assume "c \<in> type ` set fs"
  then have "filter (\<lambda>f. type f = c) fs \<noteq> []"
    by (auto simp: filter_empty_conv)
  then show ?thesis
    by (simp add: count_of_def Suc_le_eq)
qed

subsection \<open>The loop over the counted categories is the specified sum\<close>

lemma foldl_addContribution:
  "foldl addContribution a tc = a + sum_list (map (addContribution 0) tc)"
  by (induction tc arbitrary: a)
     (simp_all add: addContribution_def Let_def split: prod.splits)

lemma weightOf_pos: "0 < weightOf t"
proof -
  have "\<forall>e \<in> set typeWeights. 0 \<le> snd e"
    by (simp add: typeWeights_def SHELL_EXECUTION_def FILESYSTEM_WRITE_def FILESYSTEM_DELETE_def
        NETWORK_CALL_def REMOTE_SCRIPT_FETCH_def OBFUSCATION_def CREDENTIAL_ACCESS_def
        DEPENDENCY_RISK_def RUNTIME_BEHAVIOR_def)
  then have nonneg: "0 \<le> w" if "map_of typeWeights t = Some w" for w
    using map_of_SomeD [OF that] by fastforce
  show ?thesis
  proof (cases "map_of typeWeights t")
    case None
    then show ?thesis by (simp add: weightOf_def)
  next
    case (Some w)
    with nonneg [OF Some] show ?thesis by (simp add: weightOf_def)
  qed
qed

lemma weightOf_spec_weight: "weightOf c = spec_weight c"
  by (simp add: weightOf_def spec_weight_def typeWeights_def weight_table_def
      SHELL_EXECUTION_def FILESYSTEM_WRITE_def FILESYSTEM_DELETE_def
      NETWORK_CALL_def REMOTE_SCRIPT_FETCH_def OBFUSCATION_def CREDENTIAL_ACCESS_def
      DEPENDENCY_RISK_def RUNTIME_BEHAVIOR_def)

lemma Math_round_nearest: "Math_round x = round_nearest x"
proof -
  have a: "rat_of_int \<lfloor>x\<rfloor> \<le> x" and b: "x < rat_of_int \<lfloor>x\<rfloor> + 1"
    by linarith+
  show ?thesis
  proof (cases "x - of_int \<lfloor>x\<rfloor> < 1 / 2")
    case True
    have "\<lfloor>x + 1 / 2\<rfloor> = \<lfloor>x\<rfloor>"
      by (rule floor_unique) (use a True in linarith)+
    with True show ?thesis by (simp add: Math_round_def round_nearest_def)
  next
    case False
    have "\<lfloor>x + 1 / 2\<rfloor> = \<lfloor>x\<rfloor> + 1"
    proof (rule floor_unique)
      show "rat_of_int (\<lfloor>x\<rfloor> + 1) \<le> x + 1 / 2" using False by simp
      show "x + 1 / 2 < rat_of_int (\<lfloor>x\<rfloor> + 1) + 1" using b by simp
    qed
    with False show ?thesis by (simp add: Math_round_def round_nearest_def)
  qed
qed

lemma entry_contribution:
  assumes "distinct (map fst tc)" "e \<in> set tc"
  shows "addContribution 0 e =
         weightOf (fst e) + of_int (min (cnt tc (fst e) - 1) 3) * weightOf (fst e) / 4"
proof -
  obtain t c where e: "e = (t, c)" by (cases e)
  with assms have "map_of tc t = Some c" by simp
  then show ?thesis by (simp add: e addContribution_def cnt_def Let_def)
qed

lemma raw_score_eq:
  "foldl addContribution 0 (countTypes fs) = sum (spec_contribution fs) (type ` set fs)"
proof -
  let ?tc = "countTypes fs"
  let ?h = "\<lambda>t. weightOf t + of_int (min (cnt ?tc t - 1) 3) * weightOf t / 4"
  have "foldl addContribution 0 ?tc = sum_list (map (addContribution 0) ?tc)"
    by (simp add: foldl_addContribution)
  also have "\<dots> = sum_list (map (\<lambda>e. ?h (fst e)) ?tc)"
    by (rule arg_cong [where f = sum_list], rule map_cong [OF refl])
       (rule entry_contribution [OF countTypes_props(1)])
  also have "\<dots> = sum_list (map ?h (map fst ?tc))"
    by (simp add: comp_def)
  also have "\<dots> = sum ?h (set (map fst ?tc))"
    by (rule sum_list_distinct_conv_sum_set [OF countTypes_props(1)])
  also have "\<dots> = sum (spec_contribution fs) (type ` set fs)"
    by (simp add: countTypes_props spec_contribution_def weightOf_spec_weight)
  finally show ?thesis .
qed

lemma spec_contribution_nonneg: "c \<in> type ` set fs \<Longrightarrow> 0 \<le> spec_contribution fs c"
proof -
  assume "c \<in> type ` set fs"
  then have "0 \<le> min (count_of fs c - 1) 3" using count_of_pos by fastforce
  then have "0 \<le> (of_int (min (count_of fs c - 1) 3) :: rat)" by simp
  with weightOf_pos [of c] show ?thesis
    unfolding spec_contribution_def weightOf_spec_weight by (simp add: less_imp_le)
qed

lemma calculateScore_nonneg: "0 \<le> calculateScore fs"
proof -
  have "0 \<le> sum (spec_contribution fs) (type ` set fs)"
    by (rule sum_nonneg) (rule spec_contribution_nonneg)
  then show ?thesis
    by (simp add: calculateScore_def raw_score_eq Math_round_def)
qed

lemma scanSkill_result: "scanSkill env skill = Inr r \<Longrightarrow> \<exists>fs. r = buildResult (isoTime env) fs"
  by (auto simp: scanSkill_def split: sum.splits)

lemma flags_buildResult: "flags (buildResult t fs) = fs"
  by (simp add: buildResult_def Let_def)

text \<open>
  Claim C1. For every list of findings, the score field of the scan result is the sum,
  over the distinct categories present, of
  \<open>weight[c] + min(count[c] - 1, 3) * weight[c] / 4\<close>, rounded to the nearest integer and
  cut off at 100, and it lies between 0 and 100. The weight of a category is the number
  the weight table gives it, and 5 when the table does not list it. This holds of the
  result of every scan, for the findings it lists.
\<close>

theorem score_formula:
  "score (buildResult now fs) = spec_score fs \<and>
   0 \<le> score (buildResult now fs) \<and> score (buildResult now fs) \<le> 100 \<and>
   (\<forall>r. scanSkill env skill = Inr r \<longrightarrow>
        score r = spec_score (flags r) \<and> 0 \<le> score r \<and> score r \<le> 100)"
proof -
  have a: "score (buildResult t gs) = spec_score gs \<and>
        0 \<le> score (buildResult t gs) \<and> score (buildResult t gs) \<le> 100" for t gs
    using calculateScore_nonneg [of gs]
    by (simp add: buildResult_def Let_def spec_score_def calculateScore_def raw_score_eq
        Math_round_nearest)
  have b: "score r = spec_score (flags r) \<and> 0 \<le> score r \<and> score r \<le> 100"
    if "scanSkill env skill = Inr r" for r
  proof -
    from scanSkill_result [OF that] obtain gs where "r = buildResult (isoTime env) gs" ..
    with a [of "isoTime env" gs] show ?thesis by (simp add: flags_buildResult)
  qed
  from a [of now fs] b show ?thesis by blast
qed

text \<open>
  Examples: two findings of a category the table does not list weigh \<open>5 + 5/4\<close>, which
  rounds down to 6; with two findings of \<open>shell_execution\<close> added the sum is 37.5, which
  rounds up to 38; one finding each of \<open>remote_script_exec\<close>, \<open>shell_execution\<close>,
  \<open>obfuscation\<close>, \<open>native_binary\<close> and \<open>network_call\<close> sum to 125, cut to 100. The
  scan of the example skill with one blocked call in the audit trail sums to 71.25 and
  scores 71.
\<close>

theorem score_formula_witness:
  "spec_score [finding ''mystery'', finding ''mystery''] = 6 \<and>
   spec_score [finding ''mystery'', finding ''shell_execution'', finding ''mystery'',
               finding ''shell_execution''] = 38 \<and>
   spec_score (map finding [''remote_script_exec'', ''shell_execution'', ''obfuscation'',
                            ''native_binary'', ''network_call'']) = 100 \<and>
   score (projr (scanSkill (exampleDisk (blockedLine ''1'')) exampleSkill)) = 71 \<and>
   spec_score (flags (projr (scanSkill (exampleDisk (blockedLine ''1'')) exampleSkill))) = 71"
proof -
  have v1: "score (buildResult [] [finding ''mystery'', finding ''mystery'']) = 6"
    by code_simp
  have v2: "score (buildResult [] [finding ''mystery'', finding ''shell_execution'',
              finding ''mystery'', finding ''shell_execution'']) = 38"
    by code_simp
  have v3: "score (buildResult [] (map finding [''remote_script_exec'', ''shell_execution'',
              ''obfuscation'', ''native_binary'', ''network_call''])) = 100"
    by code_simp
  have "\<not> isl (scanSkill (exampleDisk (blockedLine ''1'')) exampleSkill)"
    by code_simp
  then have s: "scanSkill (exampleDisk (blockedLine ''1'')) exampleSkill =
                Inr (projr (scanSkill (exampleDisk (blockedLine ''1'')) exampleSkill))"
    by (cases "scanSkill (exampleDisk (blockedLine ''1'')) exampleSkill") simp_all
  have v4: "score (projr (scanSkill (exampleDisk (blockedLine ''1'')) exampleSkill)) = 71"
    by code_simp
  from score_formula [where now = "[]" and fs = "[finding ''mystery'', finding ''mystery'']"] v1
  have w1: "spec_score [finding ''mystery'', finding ''mystery''] = 6"
    by simp
  from score_formula [where now = "[]" and fs = "[finding ''mystery'', finding ''shell_execution'',
              finding ''mystery'', finding ''shell_execution'']"] v2
  have w2: "spec_score [finding ''mystery'', finding ''shell_execution'', finding ''mystery'',
               finding ''shell_execution''] = 38"
    by simp
  from score_formula [where now = "[]" and fs = "map finding [''remote_script_exec'',
              ''shell_execution'', ''obfuscation'', ''native_binary'', ''network_call'']"] v3
  have w3: "spec_score (map finding [''remote_script_exec'', ''shell_execution'', ''obfuscation'',
                            ''native_binary'', ''network_call'']) = 100"
    by simp
  from score_formula [where env = "exampleDisk (blockedLine ''1'')" and skill = exampleSkill] s v4
  have w4: "spec_score (flags (projr (scanSkill (exampleDisk (blockedLine ''1'')) exampleSkill))) = 71"
    by metis
  from w1 w2 w3 v4 w4 show ?thesis by simp
qed

text \<open>
  Claim C2. On the integer scores from 0 to 100, the recommendation is \<open>allow\<close> exactly
  up to 30, \<open>sandbox\<close> exactly from 31 to 60 and \<open>block\<close> exactly from 61 on; every such
  score falls in one of the three ranges and in no two of them.
\<close>

theorem recommendation_partition:
  assumes "0 \<le> s" and "s \<le> 100"
  shows "(getRecommendation s = allow \<longleftrightarrow> s \<le> 30) \<and>
         (getRecommendation s = sandbox \<longleftrightarrow> 31 \<le> s \<and> s \<le> 60) \<and>
         (getRecommendation s = block \<longleftrightarrow> 61 \<le> s) \<and>
         (s \<le> 30 \<or> (31 \<le> s \<and> s \<le> 60) \<or> 61 \<le> s) \<and>
         \<not> (s \<le> 30 \<and> 31 \<le> s) \<and> \<not> (s \<le> 30 \<and> 61 \<le> s) \<and> \<not> (s \<le> 60 \<and> 61 \<le> s)"
  by (auto simp: getRecommendation_def SAFE_MAX_def WARNING_MAX_def)

theorem recommendation_partition_witness:
  "(0::int) \<le> 45 \<and> (45::int) \<le> 100 \<and> getRecommendation 45 = sandbox \<and>
   getRecommendation 45 \<noteq> allow \<and> getRecommendation 45 \<noteq> block"
  using recommendation_partition [of 45] by simp

text \<open>
  Claim C10. The recommendation of a scan result is the tier of its score field: the
  recommendation is taken from the total before the cut at 100, and a total above 100
  and the value 100 are both in the \<open>block\<close> tier.
\<close>

theorem recommendation_agrees_with_score:
  "recommendation (buildResult now fs) = getRecommendation (score (buildResult now fs)) \<and>
   (\<forall>r. scanSkill env skill = Inr r \<longrightarrow> recommendation r = getRecommendation (score r))"
proof -
  have a: "recommendation (buildResult t gs) = getRecommendation (score (buildResult t gs))" for t gs
    by (simp add: buildResult_def Let_def getRecommendation_def SAFE_MAX_def WARNING_MAX_def min_def)
  have b: "recommendation r = getRecommendation (score r)" if "scanSkill env skill = Inr r" for r
  proof -
    from scanSkill_result [OF that] obtain gs where "r = buildResult (isoTime env) gs" ..
    with a [of "isoTime env" gs] show ?thesis by simp
  qed
  from a [of now fs] b show ?thesis by blast
qed

theorem recommendation_agrees_with_score_witness:
  "recommendation (projr (scanSkill (exampleDisk twoBlockedLines) exampleSkill)) = block \<and>
   getRecommendation (score (projr (scanSkill (exampleDisk twoBlockedLines) exampleSkill))) = block"
proof -
  have "\<not> isl (scanSkill (exampleDisk twoBlockedLines) exampleSkill)"
    by code_simp
  then have s: "scanSkill (exampleDisk twoBlockedLines) exampleSkill =
                Inr (projr (scanSkill (exampleDisk twoBlockedLines) exampleSkill))"
    by (cases "scanSkill (exampleDisk twoBlockedLines) exampleSkill") simp_all
  have v: "recommendation (projr (scanSkill (exampleDisk twoBlockedLines) exampleSkill)) = block"
    by code_simp
  from recommendation_agrees_with_score [where env = "exampleDisk twoBlockedLines" and skill = exampleSkill] s v
  show ?thesis by metis
qed


section \<open>Properties of the runtime guards\<close>

subsection \<open>Helper facts\<close>

lemma parseList_nonempty: "[] \<notin> set (parseList v)"
  by (auto simp: parseList_def split: option.splits)

lemma py_parse_list_nonempty: "[] \<notin> set (py_parse_list v)"
  by (auto simp: py_parse_list_def split: option.splits)

lemma lowerChar_colon: "lowerChar c = CHR '':'' \<longleftrightarrow> c = CHR '':''"
proof (cases "65 \<le> (of_char c :: nat) \<and> (of_char c :: nat) \<le> 90")
  case True
  then have up: "(of_char (lowerChar c) :: nat) = of_char c + 32"
    by (simp add: lowerChar_def Let_def)
  have "lowerChar c \<noteq> CHR '':''"
  proof
    assume "lowerChar c = CHR '':''"
    then have "(of_char (lowerChar c) :: nat) = 58" by simp
    with up True show False by simp
  qed
  moreover have "c \<noteq> CHR '':''"
    using True by auto
  ultimately show ?thesis by simp
next
  case False
  then have "lowerChar c = c" by (auto simp: lowerChar_def Let_def)
  then show ?thesis by simp
qed

lemma beforeColon_toLowerCase: "beforeColon (toLowerCase h) = toLowerCase (beforeColon h)"
  by (induction h) (simp_all add: beforeColon_def toLowerCase_def lowerChar_colon)

lemma toLowerCase_Nil: "toLowerCase d = [] \<longleftrightarrow> d = []"
  by (simp add: toLowerCase_def)

lemma set_newSet: "set (newSet xs) = set xs"
proof -
  have "set (foldl (\<lambda>s x. if x \<in> set s then s else s @ [x]) acc xs) = set acc \<union> set xs" for acc
    by (induction xs arbitrary: acc) auto
  then show ?thesis by (simp add: newSet_def)
qed

lemma domain_node:
  assumes "[] \<notin> set (allowedDomains g)"
  shows "isDomainAllowed g (Some host) \<longleftrightarrow>
     (\<exists>d \<in> set (allowedDomains g).
        beforeColon (toLowerCase host) = toLowerCase d \<or>
        suffix (''.'' @ toLowerCase d) (beforeColon (toLowerCase host)))"
proof (cases "host = []")
  case True
  with assms show ?thesis
    by (auto simp: isDomainAllowed_def beforeColon_def toLowerCase_def)
next
  case False
  then show ?thesis
    by (auto simp: isDomainAllowed_def Let_def list_ex_iff)
qed

lemma domain_py:
  assumes "[] \<notin> set (allowedDomains g)"
  shows "py_is_domain_allowed g (Some host) \<longleftrightarrow>
     (\<exists>d \<in> set (allowedDomains g).
        beforeColon (toLowerCase host) = toLowerCase d \<or>
        suffix (''.'' @ toLowerCase d) (beforeColon (toLowerCase host)))"
proof (cases "host = []")
  case True
  with assms show ?thesis
    by (auto simp: py_is_domain_allowed_def beforeColon_def toLowerCase_def)
next
  case False
  then show ?thesis
    by (auto simp: py_is_domain_allowed_def Let_def list_ex_iff beforeColon_toLowerCase)
qed

lemma path_node:
  "isPathAllowed P g (Some t) \<longleftrightarrow>
     t \<noteq> [] \<and>
     (normalizePath P t = normalizePath P (auditPath g) \<or>
      (\<exists>d \<in> set (allowedDirs g).
         normalizePath P t = normalizePath P d \<or>
         prefix (normalizePath P d @ sep P) (normalizePath P t)))"
  by (auto simp: isPathAllowed_def Let_def list_ex_iff allowedDirSet_def set_newSet
      simp flip: set_empty2 dest: arg_cong [where f = set])

lemma path_py:
  "py_is_path_allowed P g t \<longleftrightarrow>
     t \<noteq> [] \<and>
     (normalizePath P t = normalizePath P (auditPath g) \<or>
      (\<exists>d \<in> set (allowedDirs g).
         normalizePath P t = normalizePath P d \<or>
         prefix (normalizePath P d @ sep P) (normalizePath P t)))"
  by (auto simp: py_is_path_allowed_def Let_def list_ex_iff)



subsection \<open>The audit write and a world that cannot be written\<close>

lemma keepsUnwritable_originals:
  "keepsUnwritable mkdirOriginal" "keepsUnwritable createOriginal"
  "keepsUnwritable (appendOriginal e)" "keepsUnwritable Some"
  by (auto simp: keepsUnwritable_def mkdirOriginal_def createOriginal_def appendOriginal_def
      split: if_splits)

lemma node_unwritable:
  assumes "\<not> writable w"
  shows "(\<forall>a r d w'. writeAudit P g n w a r d = Some w' \<longrightarrow> w' = w) \<and>
         (\<forall>w'. ensureAuditFile P g n w = Some w' \<longrightarrow> w' = w) \<and>
         (\<forall>d w'. logAllowed P g n w d = Some w' \<longrightarrow> w' = w) \<and>
         (\<forall>d w'. logBlocked P g n w d = Some w' \<longrightarrow> w' = w) \<and>
         (\<forall>fn t original. keepsUnwritable original \<longrightarrow> snd (wrapWrite P g n w fn t original) = w)"
proof (induction n)
  case 0
  show ?case by simp
next
  case (Suc n)
  from Suc have wa: "writeAudit P g n w a r d = Some w' \<Longrightarrow> w' = w" for a r d w' by blast
  from Suc have ea: "ensureAuditFile P g n w = Some w' \<Longrightarrow> w' = w" for w' by blast
  from Suc have la: "logAllowed P g n w d = Some w' \<Longrightarrow> w' = w" for d w' by blast
  from Suc have lb: "logBlocked P g n w d = Some w' \<Longrightarrow> w' = w" for d w' by blast
  from Suc have ww: "keepsUnwritable original \<Longrightarrow> snd (wrapWrite P g n w fn t original) = w"
    for fn t original by blast
  have 1: "writeAudit P g (Suc n) w a r d = Some w' \<Longrightarrow> w' = w" for a r d w'
    using ea ww [OF keepsUnwritable_originals(3)]
    by (auto split: option.splits)
  have 2: "ensureAuditFile P g (Suc n) w = Some w' \<Longrightarrow> w' = w" for w'
    using ww [OF keepsUnwritable_originals(1)] ww [OF keepsUnwritable_originals(2)]
    by (auto split: if_splits prod.splits Outcome.splits)
       (metis snd_conv)+
  have 3: "logAllowed P g (Suc n) w d = Some w' \<Longrightarrow> w' = w" for d w'
    using wa by (auto split: if_splits)
  have 4: "logBlocked P g (Suc n) w d = Some w' \<Longrightarrow> w' = w" for d w'
    using wa by auto
  have 5: "snd (wrapWrite P g (Suc n) w fn t original) = w" if "keepsUnwritable original"
    for fn t original
    using that assms
    by (auto simp: keepsUnwritable_def split: option.splits dest!: la lb)
  from 1 2 3 4 5 show ?case by blast
qed

lemma py_unwritable:
  assumes "\<not> writable w"
  shows "(\<forall>a r d w'. py_write_audit P g n w a r d = Some w' \<longrightarrow> w' = w) \<and>
         (\<forall>w'. py_ensure_audit_file P g n w = Some w' \<longrightarrow> w' = w) \<and>
         (\<forall>d w'. py_log_allowed P g n w d = Some w' \<longrightarrow> w' = w) \<and>
         (\<forall>d w'. py_log_blocked P g n w d = Some w' \<longrightarrow> w' = w) \<and>
         (\<forall>t fn. snd (py_guard_path_write P g n w t fn) = w) \<and>
         (\<forall>f m original. keepsUnwritable original \<longrightarrow> snd (py_open_guard P g n w f m original) = w) \<and>
         (\<forall>fn p original. keepsUnwritable original \<longrightarrow>
            snd (py_wrap_os_write P g n w fn p original) = w)"
proof (induction n)
  case 0
  show ?case by simp
next
  case (Suc n)
  from Suc have wa: "py_write_audit P g n w a r d = Some w' \<Longrightarrow> w' = w" for a r d w' by blast
  from Suc have ea: "py_ensure_audit_file P g n w = Some w' \<Longrightarrow> w' = w" for w' by blast
  from Suc have la: "py_log_allowed P g n w d = Some w' \<Longrightarrow> w' = w" for d w' by blast
  from Suc have lb: "py_log_blocked P g n w d = Some w' \<Longrightarrow> w' = w" for d w' by blast
  from Suc have gp: "snd (py_guard_path_write P g n w t fn) = w" for t fn by blast
  from Suc have og: "keepsUnwritable original \<Longrightarrow> snd (py_open_guard P g n w f m original) = w"
    for f m original by blast
  from Suc have ow: "keepsUnwritable original \<Longrightarrow> snd (py_wrap_os_write P g n w fn p original) = w"
    for fn p original by blast
  have gp': "py_guard_path_write P g n w t fn = (out, w') \<Longrightarrow> w' = w" for t fn out w'
    using gp [of t fn] by simp
  have 1: "py_write_audit P g (Suc n) w a r d = Some w' \<Longrightarrow> w' = w" for a r d w'
    using ea og [OF keepsUnwritable_originals(3)]
    by (auto split: option.splits)
  have 2: "py_ensure_audit_file P g (Suc n) w = Some w' \<Longrightarrow> w' = w" for w'
    using ow [OF keepsUnwritable_originals(1)] og [OF keepsUnwritable_originals(2)]
    by (auto split: if_splits prod.splits PyOutcome.splits)
       (metis snd_conv)+
  have 3: "py_log_allowed P g (Suc n) w d = Some w' \<Longrightarrow> w' = w" for d w'
    using wa by (auto split: if_splits)
  have 4: "py_log_blocked P g (Suc n) w d = Some w' \<Longrightarrow> w' = w" for d w'
    using wa by auto
  have 5: "snd (py_guard_path_write P g (Suc n) w t fn) = w" for t fn
    by (auto split: option.splits dest!: la lb)
  have 6: "snd (py_open_guard P g (Suc n) w f m original) = w" if "keepsUnwritable original"
    for f m original
    using that assms
    by (auto simp: keepsUnwritable_def split: option.splits prod.splits PyOutcome.splits
        dest!: gp')
  have 7: "snd (py_wrap_os_write P g (Suc n) w fn p original) = w" if "keepsUnwritable original"
    for fn p original
    using that assms
    by (auto simp: keepsUnwritable_def split: option.splits prod.splits PyOutcome.splits
        dest!: gp')
  from 1 2 3 4 5 6 7 show ?case by blast
qed

subsection \<open>A denial ends in the guard's error\<close>

lemma not_logsBlocked_same: "\<not> logsBlocked w w"
  by (simp add: logsBlocked_def)

lemma logAllowed_quiet:
  "auditLevel g \<noteq> ''all'' \<Longrightarrow> logAllowed P g n w d = Some w' \<Longrightarrow> w' = w"
  by (cases n) auto

lemma py_log_allowed_quiet:
  "auditLevel g \<noteq> ''all'' \<Longrightarrow> py_log_allowed P g n w d = Some w' \<Longrightarrow> w' = w"
  by (cases n) auto

lemma logBlocked_returns:
  assumes "2 \<le> n"
  shows "\<exists>w1. logBlocked P g n w d = Some w1 \<and> (writable w \<or> w1 = w)"
proof -
  from assms obtain m where n: "n = Suc (Suc m)"
    by (metis Suc_le_D numeral_2_eq_2 Suc_le_mono)
  have "writeAudit P g (Suc m) w ''runtime'' blocked d \<noteq> None"
    by (simp split: option.splits)
  with n obtain w1 where s: "logBlocked P g n w d = Some w1"
    by auto
  with node_unwritable [of w P g n] have "writable w \<or> w1 = w" by blast
  with s show ?thesis by blast
qed

lemma py_log_blocked_returns:
  assumes "2 \<le> n"
  shows "\<exists>w1. py_log_blocked P g n w d = Some w1 \<and> (writable w \<or> w1 = w)"
proof -
  from assms obtain m where n: "n = Suc (Suc m)"
    by (metis Suc_le_D numeral_2_eq_2 Suc_le_mono)
  have "py_write_audit P g (Suc m) w ''runtime'' blocked d \<noteq> None"
    by (simp split: option.splits)
  with n obtain w1 where s: "py_log_blocked P g n w d = Some w1"
    by auto
  with py_unwritable [of w P g n] have "writable w \<or> w1 = w" by blast
  with s show ?thesis by blast
qed












subsection \<open>A denial is recorded\<close>

text \<open>
  On a machine whose audit file can be written the nested audit writes only add to the
  log, and the entry of the denial itself is appended last. With the audit level other
  than \<open>all\<close>, a non-empty audit path and room for six frames, an operation is denied in
  the sense above exactly when the condition of the guard's \<open>if\<close> holds.
\<close>

lemma grows_refl: "sound w \<Longrightarrow> grows w w"
  by (simp add: grows_def)

lemma grows_trans: "grows w w1 \<Longrightarrow> grows w1 w2 \<Longrightarrow> grows w w2"
  by (auto simp: grows_def)

lemma grows_sound: "grows w w1 \<Longrightarrow> sound w1"
  by (simp add: grows_def)

lemma growing_originals: "growing mkdirOriginal" "growing (appendOriginal e)" "growing Some"
  by (auto simp: growing_def grows_def sound_def mkdirOriginal_def appendOriginal_def)

lemma sound_healthy: "sound (healthy w)"
  by (simp add: sound_def healthy_def)

lemma py_grows:
  "\<forall>w. sound w \<longrightarrow>
     (\<forall>a r d w'. py_write_audit P g n w a r d = Some w' \<longrightarrow> grows w w') \<and>
     (\<forall>w'. py_ensure_audit_file P g n w = Some w' \<longrightarrow> grows w w') \<and>
     (\<forall>d w'. py_log_allowed P g n w d = Some w' \<longrightarrow> grows w w') \<and>
     (\<forall>d w'. py_log_blocked P g n w d = Some w' \<longrightarrow> grows w w') \<and>
     (\<forall>t fn. grows w (snd (py_guard_path_write P g n w t fn))) \<and>
     (\<forall>f m original. growing original \<longrightarrow> grows w (snd (py_open_guard P g n w f m original))) \<and>
     (\<forall>fn p original. growing original \<longrightarrow>
        grows w (snd (py_wrap_os_write P g n w fn p original)))"
proof (induction n)
  case 0
  show ?case by (simp add: grows_refl)
next
  case (Suc n)
  show ?case
  proof (intro allI impI)
    fix w assume s: "sound w"
    from Suc have wa: "sound v \<Longrightarrow> py_write_audit P g n v a r d = Some v' \<Longrightarrow> grows v v'"
      for v a r d v' by blast
    from Suc have ea: "sound v \<Longrightarrow> py_ensure_audit_file P g n v = Some v' \<Longrightarrow> grows v v'"
      for v v' by blast
    from Suc have la: "sound v \<Longrightarrow> py_log_allowed P g n v d = Some v' \<Longrightarrow> grows v v'"
      for v d v' by blast
    from Suc have lb: "sound v \<Longrightarrow> py_log_blocked P g n v d = Some v' \<Longrightarrow> grows v v'"
      for v d v' by blast
    from Suc have gp: "sound v \<Longrightarrow> grows v (snd (py_guard_path_write P g n v t fn))"
      for v t fn by blast
    from Suc have og: "sound v \<Longrightarrow> growing original \<Longrightarrow>
        grows v (snd (py_open_guard P g n v f m original))" for v f m original by blast
    from Suc have ow: "sound v \<Longrightarrow> growing original \<Longrightarrow>
        grows v (snd (py_wrap_os_write P g n v fn p original))" for v fn p original by blast
    have 1: "py_write_audit P g (Suc n) w a r d = Some w' \<Longrightarrow> grows w w'" for a r d w'
    proof (cases "py_ensure_audit_file P g n w")
      case None
      assume "py_write_audit P g (Suc n) w a r d = Some w'"
      with None s show ?thesis by (simp add: grows_refl)
    next
      case (Some w1)
      assume e: "py_write_audit P g (Suc n) w a r d = Some w'"
      from ea [OF s Some] have g1: "grows w w1" .
      from og [OF grows_sound [OF g1] growing_originals(2)]
      have "grows w1 (snd (py_open_guard P g n w1 (auditPath g) ''a''
                (appendOriginal (auditEntry g a r d))))" .
      with g1 e Some show ?thesis by (auto intro: grows_trans)
    qed
    have 2: "py_ensure_audit_file P g (Suc n) w = Some w' \<Longrightarrow> grows w w'" for w'
    proof -
      assume e: "py_ensure_audit_file P g (Suc n) w = Some w'"
      obtain out w1 where m: "py_wrap_os_write P g n w ''makedirs'' (dirname P (auditPath g))
          mkdirOriginal = (out, w1)" by (cases "py_wrap_os_write P g n w ''makedirs''
          (dirname P (auditPath g)) mkdirOriginal")
      from ow [OF s growing_originals(1), of "''makedirs''" "dirname P (auditPath g)"] m
      have g1: "grows w w1" by simp
      then have "fileExists w1" by (simp add: grows_def sound_def)
      with e m have "w' = w1" by (auto split: PyOutcome.splits)
      with g1 show ?thesis by simp
    qed
    have 3: "py_log_allowed P g (Suc n) w d = Some w' \<Longrightarrow> grows w w'" for d w'
      using wa [OF s] s by (auto split: if_splits simp: grows_refl)
    have 4: "py_log_blocked P g (Suc n) w d = Some w' \<Longrightarrow> grows w w'" for d w'
      using wa [OF s] by auto
    have 5: "grows w (snd (py_guard_path_write P g (Suc n) w t fn))" for t fn
      using la [OF s] lb [OF s] s by (auto split: option.splits simp: grows_refl)
    have 6: "grows w (snd (py_open_guard P g (Suc n) w f m original))" if o: "growing original"
      for f m original
    proof -
      obtain out w1 where c: "(if writes m then py_guard_path_write P g n w f ''open''
          else (PyProceeds, w)) = (out, w1)"
        by (cases "if writes m then py_guard_path_write P g n w f ''open'' else (PyProceeds, w)")
      with gp [OF s, of f "''open''"] s have g1: "grows w w1"
        by (auto split: if_splits simp: grows_refl)
      show ?thesis
      proof (cases "original w1")
        case None
        with c g1 show ?thesis by (auto split: PyOutcome.splits)
      next
        case (Some w2)
        with o grows_sound [OF g1] have "grows w1 w2" by (auto simp: growing_def)
        with g1 have "grows w w2" by (rule grows_trans)
        with c g1 Some show ?thesis by (auto split: PyOutcome.splits)
      qed
    qed
    have 7: "grows w (snd (py_wrap_os_write P g (Suc n) w fn p original))" if o: "growing original"
      for fn p original
    proof -
      obtain out w1 where c: "py_guard_path_write P g n w p fn = (out, w1)"
        by (cases "py_guard_path_write P g n w p fn")
      with gp [OF s, of p fn] have g1: "grows w w1" by simp
      show ?thesis
      proof (cases "original w1")
        case None
        with c g1 show ?thesis by (auto split: PyOutcome.splits)
      next
        case (Some w2)
        with o grows_sound [OF g1] have "grows w1 w2" by (auto simp: growing_def)
        with g1 have "grows w w2" by (rule grows_trans)
        with c g1 Some show ?thesis by (auto split: PyOutcome.splits)
      qed
    qed
    from 1 2 3 4 5 6 7
    show "(\<forall>a r d w'. py_write_audit P g (Suc n) w a r d = Some w' \<longrightarrow> grows w w') \<and>
     (\<forall>w'. py_ensure_audit_file P g (Suc n) w = Some w' \<longrightarrow> grows w w') \<and>
     (\<forall>d w'. py_log_allowed P g (Suc n) w d = Some w' \<longrightarrow> grows w w') \<and>
     (\<forall>d w'. py_log_blocked P g (Suc n) w d = Some w' \<longrightarrow> grows w w') \<and>
     (\<forall>t fn. grows w (snd (py_guard_path_write P g (Suc n) w t fn))) \<and>
     (\<forall>f m original. growing original \<longrightarrow> grows w (snd (py_open_guard P g (Suc n) w f m original))) \<and>
     (\<forall>fn p original. growing original \<longrightarrow>
        grows w (snd (py_wrap_os_write P g (Suc n) w fn p original)))"
      by blast
  qed
qed


lemma audit_path_allowed:
  "auditPath g \<noteq> [] \<Longrightarrow> isPathAllowed P g (Some (auditPath g))"
  "auditPath g \<noteq> [] \<Longrightarrow> py_is_path_allowed P g (auditPath g)"
  by (simp_all add: isPathAllowed_def py_is_path_allowed_def Let_def)

lemma logsBlocked_append:
  "prefix (auditLog w) (auditLog w1) \<Longrightarrow> result e = blocked \<Longrightarrow>
     logsBlocked w (w1\<lparr>fileExists := True, auditLog := auditLog w1 @ [e]\<rparr>)"
  by (auto simp: logsBlocked_def prefix_def)

lemma py_ensure_audit_file_returns: "py_ensure_audit_file P g (Suc m) w \<noteq> None"
  by (simp split: prod.splits PyOutcome.splits)

lemma py_open_audit_file:
  assumes "auditLevel g \<noteq> ''all''" and "auditPath g \<noteq> []" and "writes mode"
    and "original w = Some w2"
  shows "py_open_guard P g (Suc (Suc (Suc m))) w (auditPath g) mode original = (PyProceeds, w2)"
proof -
  have a: "py_log_allowed P g (Suc m) w d = Some w" for d
    using assms(1) by simp
  have b: "py_guard_path_write P g (Suc (Suc m)) w (auditPath g) ''open'' = (PyProceeds, w)"
    using audit_path_allowed(2) [OF assms(2), of P]
    by (simp add: a del: py_log_allowed.simps)
  show ?thesis
    using assms(3,4) by (simp add: b del: py_guard_path_write.simps)
qed

lemma py_log_blocked_records:
  assumes "sound w" and "auditLevel g \<noteq> ''all''" and "auditPath g \<noteq> []" and "5 \<le> n"
  shows "\<exists>w1. py_log_blocked P g n w d = Some w1 \<and> logsBlocked w w1"
proof -
  let ?e = "auditEntry g ''runtime'' blocked d"
  from assms(4) have n: "n = Suc (Suc (Suc (Suc (Suc (n - 5)))))"
    by arith
  obtain w1 where e: "py_ensure_audit_file P g (Suc (Suc (Suc (n - 5)))) w = Some w1"
    using py_ensure_audit_file_returns [of P g "Suc (Suc (n - 5))" w] by blast
  with py_grows [of P g "Suc (Suc (Suc (n - 5)))"] assms(1) have g1: "grows w w1" by blast
  then have s1: "dirExists w1 \<and> writable w1" and p1: "prefix (auditLog w) (auditLog w1)"
    by (simp_all add: grows_def sound_def)
  let ?w2 = "w1\<lparr>fileExists := True, auditLog := auditLog w1 @ [?e]\<rparr>"
  have ap: "appendOriginal ?e w1 = Some ?w2"
    using s1 g1 by (simp add: appendOriginal_def grows_def sound_def)
  have op: "py_open_guard P g (Suc (Suc (Suc (n - 5)))) w1 (auditPath g) ''a'' (appendOriginal ?e) =
            (PyProceeds, ?w2)"
    using py_open_audit_file [where original = "appendOriginal ?e" and mode = "''a''",
        OF assms(2,3) _ ap]
    by (simp add: writes_def del: py_open_guard.simps)
  have "py_write_audit P g (Suc (Suc (Suc (Suc (n - 5))))) w ''runtime'' blocked d = Some ?w2"
    by (simp add: e op del: py_ensure_audit_file.simps py_open_guard.simps)
  then have "py_log_blocked P g (Suc (Suc (Suc (Suc (Suc (n - 5)))))) w d = Some ?w2"
    by (simp del: py_write_audit.simps)
  with n have "py_log_blocked P g n w d = Some ?w2" by simp
  moreover have "logsBlocked w ?w2"
    by (rule logsBlocked_append [OF p1]) (simp add: auditEntry_def)
  ultimately show ?thesis by blast
qed

lemma logBlocked_records:
  assumes "sound w" and "auditLevel g \<noteq> ''all''" and "auditPath g \<noteq> []" and "4 \<le> n"
  shows "\<exists>w1. logBlocked P g n w d = Some w1 \<and> logsBlocked w w1"
proof -
  let ?e = "auditEntry g ''runtime'' blocked d"
  let ?w2 = "w\<lparr>fileExists := True, auditLog := auditLog w @ [?e]\<rparr>"
  from assms(4) have n: "n = Suc (Suc (Suc (Suc (n - 4))))"
    by arith
  have e: "ensureAuditFile P g (Suc (Suc (n - 4))) w = Some w"
    using assms(1) by (simp add: sound_def)
  have a: "logAllowed P g (Suc (n - 4)) w dd = Some w" for dd
    using assms(2) by simp
  have ap: "appendOriginal ?e w = Some ?w2"
    using assms(1) by (simp add: appendOriginal_def sound_def)
  have op: "wrapWrite P g (Suc (Suc (n - 4))) w ''appendFileSync'' (Some (auditPath g))
              (appendOriginal ?e) = (Proceeds, ?w2)"
    using audit_path_allowed(1) [OF assms(3), of P]
    by (simp add: a ap del: logAllowed.simps)
  have "writeAudit P g (Suc (Suc (Suc (n - 4)))) w ''runtime'' blocked d = Some ?w2"
    by (simp add: e op del: ensureAuditFile.simps wrapWrite.simps)
  then have "logBlocked P g (Suc (Suc (Suc (Suc (n - 4))))) w d = Some ?w2"
    by (simp del: writeAudit.simps)
  with n have "logBlocked P g n w d = Some ?w2" by simp
  moreover have "logsBlocked w ?w2"
    by (rule logsBlocked_append) (simp_all add: auditEntry_def)
  ultimately show ?thesis by blast
qed

lemma node_denials_recorded:
  assumes "auditLevel g \<noteq> ''all''" and "auditPath g \<noteq> []" and "5 \<le> n"
  shows "denied (\<lambda>w. childProcessCall P g n w fn) w \<longleftrightarrow> blockShell g \<and> fn \<in> set blockedShellFns"
    and "denied (\<lambda>w. wrapWrite P g n w fn t Some) w \<longleftrightarrow> blockFsWrite g \<and> \<not> isPathAllowed P g t"
    and "denied (\<lambda>w. handleNetwork P g n w host d) w \<longleftrightarrow>
           \<not> (if length (allowedDomains g) > 0 then isDomainAllowed g host else \<not> blockNetwork g)"
    and "denied (\<lambda>w. envGet P g n w k) w \<longleftrightarrow> blockSecrets g \<and> k \<notin> set (defaultAllowed g)"
    and "denied (\<lambda>w. envSet P g n w k) w \<longleftrightarrow> blockSecrets g \<and> k \<notin> set (defaultAllowed g)"
proof -
  from assms(3) obtain m where n: "n = Suc m" and m: "4 \<le> m"
    by (cases n) auto
  have r: "\<exists>w1. logBlocked P g m (healthy w) d = Some w1 \<and> logsBlocked (healthy w) w1" for d
    by (rule logBlocked_records [OF sound_healthy assms(1,2) m])
  have q: "logAllowed P g m v d = Some v' \<Longrightarrow> v' = v" for v d v'
    by (rule logAllowed_quiet [OF assms(1)])
  show "denied (\<lambda>w. childProcessCall P g n w fn) w \<longleftrightarrow> blockShell g \<and> fn \<in> set blockedShellFns"
    using r [of "[(''kind'', Str ''shell''), (''fn'', Str fn)]"]
    by (auto simp: denied_def childProcessCall_def n not_logsBlocked_same)
  show "denied (\<lambda>w. wrapWrite P g n w fn t Some) w \<longleftrightarrow> blockFsWrite g \<and> \<not> isPathAllowed P g t"
    using r [of "[(''kind'', Str ''fs_write''), (''fn'', Str fn), (''target'', optStr t)]"]
    by (auto simp: denied_def n not_logsBlocked_same split: option.splits dest!: q)
  show "denied (\<lambda>w. handleNetwork P g n w host d) w \<longleftrightarrow>
           \<not> (if length (allowedDomains g) > 0 then isDomainAllowed g host else \<not> blockNetwork g)"
    using r [of "[(''kind'', Str ''network''), (''host'', optStr host)] @ d"]
    by (auto simp: denied_def handleNetwork_def Let_def n not_logsBlocked_same
        split: option.splits if_splits dest!: q)
  show "denied (\<lambda>w. envGet P g n w k) w \<longleftrightarrow> blockSecrets g \<and> k \<notin> set (defaultAllowed g)"
    using r [of "[(''kind'', Str ''env''), (''key'', Str k)]"]
    by (auto simp: denied_def envGet_def n not_logsBlocked_same)
  show "denied (\<lambda>w. envSet P g n w k) w \<longleftrightarrow> blockSecrets g \<and> k \<notin> set (defaultAllowed g)"
    using r [of "[(''kind'', Str ''env_set''), (''key'', Str k)]"]
    by (auto simp: denied_def envSet_def n not_logsBlocked_same)
qed

lemma py_denials_recorded:
  assumes "auditLevel g \<noteq> ''all''" and "auditPath g \<noteq> []" and "6 \<le> n"
  shows "denied (\<lambda>w. py_block_shell P g n w fn) w \<longleftrightarrow> blockShell g \<and> fn \<in> set py_blocked_shell_fns"
    and "denied (\<lambda>w. py_guard_path_write P g n w t fn) w \<longleftrightarrow>
           blockFsWrite g \<and> \<not> py_is_path_allowed P g t"
    and "denied (\<lambda>w. py_handle_network P g n w host fn) w \<longleftrightarrow>
           blockNetwork g \<and> \<not> py_is_domain_allowed g host"
    and "denied (\<lambda>w. py_env_getitem P g n w k) w \<longleftrightarrow> blockSecrets g \<and> k \<notin> set (py_default_allowed g)"
    and "denied (\<lambda>w. py_env_setitem P g n w k) w \<longleftrightarrow> blockSecrets g \<and> k \<notin> set (py_default_allowed g)"
    and "denied (\<lambda>w. py_env_delitem P g n w k) w \<longleftrightarrow> blockSecrets g \<and> k \<notin> set (py_default_allowed g)"
    and "denied (\<lambda>w. py_env_get P g n w k) w \<longleftrightarrow> blockSecrets g \<and> k \<notin> set (py_default_allowed g)"
    and "denied (\<lambda>w. py_putenv P g n w k) w \<longleftrightarrow> blockSecrets g"
proof -
  from assms(3) obtain m where n: "n = Suc m" and m: "5 \<le> m"
    by (cases n) auto
  have r: "\<exists>w1. py_log_blocked P g m (healthy w) d = Some w1 \<and> logsBlocked (healthy w) w1" for d
    by (rule py_log_blocked_records [OF sound_healthy assms(1,2) m])
  have q: "py_log_allowed P g m v d = Some v' \<Longrightarrow> v' = v" for v d v'
    by (rule py_log_allowed_quiet [OF assms(1)])
  have e: "logsBlocked (healthy w) (snd (py_env_denial P g n (healthy w) kind key out))"
    for kind key out
    using r [of "[(''kind'', Str kind), (''key'', Str key)]"]
    by (auto simp: py_env_denial_def n)
  show "denied (\<lambda>w. py_block_shell P g n w fn) w \<longleftrightarrow> blockShell g \<and> fn \<in> set py_blocked_shell_fns"
    using r [of "[(''kind'', Str ''shell''), (''fn'', Str fn)]"]
    by (auto simp: denied_def py_block_shell_def n not_logsBlocked_same)
  show "denied (\<lambda>w. py_guard_path_write P g n w t fn) w \<longleftrightarrow>
           blockFsWrite g \<and> \<not> py_is_path_allowed P g t"
    using r [of "[(''kind'', Str ''fs_write''), (''fn'', Str fn), (''target'', Str t)]"]
    by (auto simp: denied_def n not_logsBlocked_same split: option.splits dest!: q)
  show "denied (\<lambda>w. py_handle_network P g n w host fn) w \<longleftrightarrow>
           blockNetwork g \<and> \<not> py_is_domain_allowed g host"
    using r [of "[(''kind'', Str ''network''), (''fn'', Str fn), (''host'', optStr host)]"]
    by (auto simp: denied_def py_handle_network_def Let_def n not_logsBlocked_same
        split: option.splits dest!: q)
  show "denied (\<lambda>w. py_env_getitem P g n w k) w \<longleftrightarrow> blockSecrets g \<and> k \<notin> set (py_default_allowed g)"
    using e by (auto simp: denied_def py_env_getitem_def not_logsBlocked_same)
  show "denied (\<lambda>w. py_env_setitem P g n w k) w \<longleftrightarrow> blockSecrets g \<and> k \<notin> set (py_default_allowed g)"
    using e by (auto simp: denied_def py_env_setitem_def not_logsBlocked_same)
  show "denied (\<lambda>w. py_env_delitem P g n w k) w \<longleftrightarrow> blockSecrets g \<and> k \<notin> set (py_default_allowed g)"
    using e by (auto simp: denied_def py_env_delitem_def not_logsBlocked_same)
  show "denied (\<lambda>w. py_env_get P g n w k) w \<longleftrightarrow> blockSecrets g \<and> k \<notin> set (py_default_allowed g)"
    using e by (auto simp: denied_def py_env_get_def not_logsBlocked_same)
  show "denied (\<lambda>w. py_putenv P g n w k) w \<longleftrightarrow> blockSecrets g"
    using e by (auto simp: denied_def py_putenv_def not_logsBlocked_same)
qed


subsection \<open>The entries of one denial in the Python guard\<close>

text \<open>
  With filesystem-write blocking on and the audit directory outside the allow-list, every
  audit write of the Python guard is preceded by a denied \<open>makedirs\<close>, which is logged
  by an audit write of its own, five frames further down. On a machine whose audit file
  can be written, \<open>_log_blocked\<close> called with room for \<open>n\<close> frames therefore appends one
  entry for every five frames; a denied write called with room for 1000 frames, the
  default recursion limit of Python, leaves 199 entries.
\<close>

lemma py_log_blocked_count:
  assumes lv: "auditLevel g \<noteq> ''all''" and ap: "auditPath g \<noteq> []"
    and bl: "blockFsWrite g" and na: "\<not> py_is_path_allowed P g (dirname P (auditPath g))"
  shows "sound w \<Longrightarrow> 2 \<le> n \<Longrightarrow>
         \<exists>w1. py_log_blocked P g n w d = Some w1 \<and> sound w1 \<and>
              length (auditLog w1) = length (auditLog w) + n div 5"
proof (induction n arbitrary: w d rule: less_induct)
  case (less n)
  note s = \<open>sound w\<close>
  have allowed: "py_log_allowed P g (Suc m) v dd = Some v" for m v dd
    using lv by simp
  have gp_audit: "py_guard_path_write P g (Suc (Suc m)) v (auditPath g) ''open'' = (PyProceeds, v)"
    for m v
    using audit_path_allowed(2) [OF ap, of P]
    by (simp add: allowed del: py_log_allowed.simps)
  show ?case
  proof (cases "n < 5")
    case True
    with less.prems(2) consider "n = 2" | "n = 3" | "n = 4" by arith
    then show ?thesis
    proof cases
      case 1
      then have "n = Suc (Suc 0)" by simp
      then show ?thesis using s by simp
    next
      case 2
      then have "n = Suc (Suc (Suc 0))" by simp
      then show ?thesis using s by (simp add: writes_def)
    next
      case 3
      then have "n = Suc (Suc (Suc (Suc 0)))" by simp
      then show ?thesis using s lv by (simp add: writes_def audit_path_allowed(2) [OF ap])
    qed
  next
    case False
    then have n: "n = Suc (Suc (Suc (Suc (Suc (n - 5)))))" by arith
    let ?k = "n - 5"
    let ?det = "[(''kind'', Str ''fs_write''), (''fn'', Str ''makedirs''),
                 (''target'', Str (dirname P (auditPath g)))]"
    let ?e = "auditEntry g ''runtime'' blocked d"
    have ens: "\<exists>w1. py_ensure_audit_file P g (Suc (Suc (Suc ?k))) w = Some w1 \<and> sound w1 \<and>
                 length (auditLog w1) = length (auditLog w) + ?k div 5"
    proof (cases "?k < 2")
      case True
      then consider "?k = 0" | "?k = Suc 0" by arith
      then show ?thesis
      proof cases
        case 1
        then show ?thesis using s bl na by simp
      next
        case 2
        then show ?thesis using s bl na by simp
      qed
    next
      case False
      then have "2 \<le> ?k" by simp
      moreover have "?k < n" using \<open>\<not> n < 5\<close> by arith
      ultimately obtain w1 where w1: "py_log_blocked P g ?k w ?det = Some w1" "sound w1"
          "length (auditLog w1) = length (auditLog w) + ?k div 5"
        using less.IH [OF _ s, of ?k ?det] by blast
      have "py_guard_path_write P g (Suc ?k) w (dirname P (auditPath g)) ''makedirs'' =
            (RaisesPermissionError ''ClawShield blocked filesystem write'', w1)"
        using bl na w1(1) by (simp del: py_log_blocked.simps)
      then have "py_wrap_os_write P g (Suc (Suc ?k)) w ''makedirs'' (dirname P (auditPath g))
                   mkdirOriginal =
            (RaisesPermissionError ''ClawShield blocked filesystem write'', w1)"
        by (simp del: py_guard_path_write.simps)
      then have "py_ensure_audit_file P g (Suc (Suc (Suc ?k))) w = Some w1"
        by (simp del: py_wrap_os_write.simps)
      with w1 show ?thesis by blast
    qed
    then obtain w1 where e: "py_ensure_audit_file P g (Suc (Suc (Suc ?k))) w = Some w1"
      and s1: "sound w1" and l1: "length (auditLog w1) = length (auditLog w) + ?k div 5"
      by blast
    let ?w2 = "w1\<lparr>fileExists := True, auditLog := auditLog w1 @ [?e]\<rparr>"
    have apd: "appendOriginal ?e w1 = Some ?w2"
      using s1 by (simp add: appendOriginal_def sound_def)
    have op: "py_open_guard P g (Suc (Suc (Suc ?k))) w1 (auditPath g) ''a'' (appendOriginal ?e) =
              (PyProceeds, ?w2)"
      using py_open_audit_file [where original = "appendOriginal ?e" and mode = "''a''",
          OF lv ap _ apd]
      by (simp add: writes_def del: py_open_guard.simps)
    have "py_write_audit P g (Suc (Suc (Suc (Suc ?k)))) w ''runtime'' blocked d = Some ?w2"
      by (simp add: e op del: py_ensure_audit_file.simps py_open_guard.simps)
    then have "py_log_blocked P g (Suc (Suc (Suc (Suc (Suc ?k))))) w d = Some ?w2"
      by (simp del: py_write_audit.simps)
    with n have r: "py_log_blocked P g n w d = Some ?w2" by simp
    have "n div 5 = Suc (?k div 5)" using \<open>\<not> n < 5\<close> by arith
    with l1 have "length (auditLog ?w2) = length (auditLog w) + n div 5" by simp
    moreover have "sound ?w2" using s1 by (simp add: sound_def)
    ultimately show ?thesis using r by blast
  qed
qed


lemma py_denial_entries:
  assumes "auditLevel g \<noteq> ''all''" and "auditPath g \<noteq> []" and "blockFsWrite g"
    and "\<not> py_is_path_allowed P g (dirname P (auditPath g))"
    and "\<not> py_is_path_allowed P g t" and "sound w" and "3 \<le> n"
  shows "fst (py_guard_path_write P g n w t fn) =
           RaisesPermissionError ''ClawShield blocked filesystem write'' \<and>
         length (auditLog (snd (py_guard_path_write P g n w t fn))) =
           length (auditLog w) + (n - 1) div 5"
proof -
  from assms(7) have n: "n = Suc (n - 1)" and m: "2 \<le> n - 1" by arith+
  from py_log_blocked_count [OF assms(1-4) assms(6) m]
  obtain w1 where "py_log_blocked P g (n - 1) w
      [(''kind'', Str ''fs_write''), (''fn'', Str fn), (''target'', Str t)] = Some w1"
    and "length (auditLog w1) = length (auditLog w) + (n - 1) div 5"
    by blast
  then have "fst (py_guard_path_write P g (Suc (n - 1)) w t fn) =
           RaisesPermissionError ''ClawShield blocked filesystem write'' \<and>
         length (auditLog (snd (py_guard_path_write P g (Suc (n - 1)) w t fn))) =
           length (auditLog w) + (n - 1) div 5"
    using assms(3,5) by (simp del: py_log_blocked.simps)
  with n show ?thesis by simp
qed

lemma py_denial_at_recursion_limit:
  "length (auditLog (snd (py_guard_path_write (posix ''/home/u'') exampleGuard 1000
                            (healthy failingDisk) ''/etc/passwd'' ''remove''))) = 199"
proof -
  have a: "auditLevel exampleGuard \<noteq> ''all''" "auditPath exampleGuard \<noteq> []"
      "blockFsWrite exampleGuard"
    by (simp_all add: exampleGuard_def)
  have b: "\<not> py_is_path_allowed (posix ''/home/u'') exampleGuard
               (dirname (posix ''/home/u'') (auditPath exampleGuard))"
    by code_simp
  have c: "\<not> py_is_path_allowed (posix ''/home/u'') exampleGuard ''/etc/passwd''"
    by code_simp
  have d: "auditLog (healthy failingDisk) = []"
    by (simp add: healthy_def failingDisk_def)
  from py_denial_entries [OF a b c sound_healthy, of 1000 failingDisk "''remove''"] d
  show ?thesis by simp
qed

text \<open>
  With the audit level \<open>all\<close> the allowed \<open>open\<close> of the audit file is logged as well, so
  that every audit write of the Python guard makes two nested ones: the entries of one
  denied write multiply with the room on the stack.
\<close>

lemma py_audit_level_all_multiplies:
  "map (\<lambda>n. length (auditLog (snd (py_guard_path_write (posix ''/home/u'')
           (exampleGuard\<lparr>auditLevel := ''all''\<rparr>) n (healthy failingDisk) ''/etc/passwd'' ''remove''))))
     [8, 16, 24] = [1, 6, 20]"
  by code_simp

subsection \<open>The two network decisions\<close>

lemma logAllowed_returns: "2 \<le> n \<Longrightarrow> logAllowed P g n w d \<noteq> None"
proof -
  assume "2 \<le> n"
  then have n: "n = Suc (Suc (n - 2))" by arith
  have "logAllowed P g (Suc (Suc (n - 2))) w d \<noteq> None"
    by (simp split: option.splits)
  with n show ?thesis by simp
qed

lemma py_log_allowed_returns: "2 \<le> n \<Longrightarrow> py_log_allowed P g n w d \<noteq> None"
proof -
  assume "2 \<le> n"
  then have n: "n = Suc (Suc (n - 2))" by arith
  have "py_log_allowed P g (Suc (Suc (n - 2))) w d \<noteq> None"
    by (simp split: option.splits)
  with n show ?thesis by simp
qed

lemma network_decisions_agree:
  assumes "3 \<le> n"
  shows "isThrown (fst (handleNetwork P g n w host d)) =
           isRaised (fst (py_handle_network P g n w host fn)) \<longleftrightarrow>
         blockNetwork g \<or> allowedDomains g = [] \<or> isDomainAllowed g host"
proof -
  from assms obtain m where n: "n = Suc m" and m: "2 \<le> m"
    by (cases n) auto
  have same: "py_is_domain_allowed g host = isDomainAllowed g host"
    by (cases host)
       (simp_all add: py_is_domain_allowed_def isDomainAllowed_def Let_def beforeColon_toLowerCase)
  have empty: "allowedDomains g = [] \<Longrightarrow> \<not> isDomainAllowed g host"
    by (cases host) (simp_all add: isDomainAllowed_def)
  from logBlocked_returns [OF m] obtain b where
    b: "logBlocked P g m w ((''kind'', Str ''network'') # (''host'', optStr host) # d) = Some b"
    by blast
  from py_log_blocked_returns [OF m] obtain pb where
    pb: "py_log_blocked P g m w
           [(''kind'', Str ''network''), (''fn'', Str fn), (''host'', optStr host)] = Some pb"
    by blast
  from logAllowed_returns [OF m] obtain a where
    a: "logAllowed P g m w ((''kind'', Str ''network'') # (''host'', optStr host) # d) = Some a"
    by blast
  from py_log_allowed_returns [OF m] obtain pa where
    pa: "py_log_allowed P g m w
           [(''kind'', Str ''network''), (''fn'', Str fn), (''host'', optStr host)] = Some pa"
    by blast
  show ?thesis
    using empty
    by (auto simp: n handleNetwork_def py_handle_network_def Let_def isThrown_def isRaised_def
        same a b pa pb)
qed

subsection \<open>Path allow-list\<close>

text \<open>
  Claim C3, as stated, fails: the guard's own audit file is allowed whatever the
  allow-list holds. Here the allow-list is \<open>/ws/skills/foo\<close> and the audit file lies
  outside it.
\<close>

theorem audit_path_allowed_outside_allow_list:
  "isPathAllowed (posix ''/home/u'') exampleGuard (Some ''/home/u/.clawshield/audit.jsonl'') \<and>
   \<not> spec_path_allowed (posix ''/home/u'') (allowedDirs exampleGuard)
        ''/home/u/.clawshield/audit.jsonl''"
  by code_simp

text \<open>
  Claim C3, amended. In both guards the path check allows a target exactly when the
  target is a non-empty string and its canonical form is that of the guard's audit file,
  or equals a canonicalised allow-listed directory, or extends one followed by the path
  separator; an absent target is refused. On a POSIX platform, with
  \<open>/ws/skills/foo\<close> allow-listed, \<open>/ws/skills/foo/data.txt\<close> is allowed and the
  sibling \<open>/ws/skills/foobar/x\<close> is not.
\<close>

theorem path_allow_list:
  "(isPathAllowed P g (Some t) \<longleftrightarrow>
      t \<noteq> [] \<and>
      (normalizePath P t = normalizePath P (auditPath g) \<or>
       (\<exists>d \<in> set (allowedDirs g).
          normalizePath P t = normalizePath P d \<or>
          prefix (normalizePath P d @ sep P) (normalizePath P t)))) \<and>
   \<not> isPathAllowed P g None \<and>
   (py_is_path_allowed P g t \<longleftrightarrow>
      t \<noteq> [] \<and>
      (normalizePath P t = normalizePath P (auditPath g) \<or>
       (\<exists>d \<in> set (allowedDirs g).
          normalizePath P t = normalizePath P d \<or>
          prefix (normalizePath P d @ sep P) (normalizePath P t)))) \<and>
   isPathAllowed (posix cwd) (g\<lparr>allowedDirs := [''/ws/skills/foo''], auditPath := ''/home/u/.clawshield/audit.jsonl''\<rparr>)
     (Some ''/ws/skills/foo/data.txt'') \<and>
   \<not> isPathAllowed (posix cwd) (g\<lparr>allowedDirs := [''/ws/skills/foo''], auditPath := ''/home/u/.clawshield/audit.jsonl''\<rparr>)
     (Some ''/ws/skills/foobar/x'') \<and>
   py_is_path_allowed (posix cwd) (g\<lparr>allowedDirs := [''/ws/skills/foo''], auditPath := ''/home/u/.clawshield/audit.jsonl''\<rparr>)
     ''/ws/skills/foo/data.txt'' \<and>
   \<not> py_is_path_allowed (posix cwd) (g\<lparr>allowedDirs := [''/ws/skills/foo''], auditPath := ''/home/u/.clawshield/audit.jsonl''\<rparr>)
     ''/ws/skills/foobar/x''"
proof -
  have r1: "posixResolve cwd ''/ws/skills/foo/data.txt'' = ''/ws/skills/foo/data.txt''"
    by (simp add: posixResolve_def)
  have r2: "posixResolve cwd ''/ws/skills/foobar/x'' = ''/ws/skills/foobar/x''"
    by (simp add: posixResolve_def)
  have r3: "posixResolve cwd ''/ws/skills/foo'' = ''/ws/skills/foo''"
    by (simp add: posixResolve_def)
  have r4: "posixResolve cwd ''/home/u/.clawshield/audit.jsonl'' = ''/home/u/.clawshield/audit.jsonl''"
    by (simp add: posixResolve_def)
  have none: "\<not> isPathAllowed P g None"
    by (simp add: isPathAllowed_def)
  show ?thesis
    unfolding path_node path_py
    by (simp add: none normalizePath_def posix_def r1 r2 r3 r4)
qed

theorem path_allow_list_witness:
  "isPathAllowed (posix ''/ws/skills/foo'') exampleGuard (Some ''out/../data.txt'') \<and>
   \<not> py_is_path_allowed (posix ''/ws/skills/foo'') exampleGuard ''../foobar/x''"
proof -
  have a: "normalizePath (posix ''/ws/skills/foo'') ''out/../data.txt'' = ''/ws/skills/foo/data.txt''"
    by code_simp
  have b: "normalizePath (posix ''/ws/skills/foo'') ''../foobar/x'' = ''/ws/skills/foobar/x''"
    by code_simp
  have c: "normalizePath (posix ''/ws/skills/foo'') ''/ws/skills/foo'' = ''/ws/skills/foo''"
    by code_simp
  have d: "normalizePath (posix ''/ws/skills/foo'') ''/home/u/.clawshield/audit.jsonl'' =
           ''/home/u/.clawshield/audit.jsonl''"
    by code_simp
  have cfg: "allowedDirs exampleGuard = [''/ws/skills/foo'']"
    "auditPath exampleGuard = ''/home/u/.clawshield/audit.jsonl''"
    "sep (posix ''/ws/skills/foo'') = ''/''"
    by (simp_all add: exampleGuard_def posix_def)
  have node: "isPathAllowed (posix ''/ws/skills/foo'') exampleGuard (Some ''out/../data.txt'')"
    using path_allow_list [where P = "posix ''/ws/skills/foo''" and g = exampleGuard
        and t = "''out/../data.txt''", THEN conjunct1]
    by (simp add: a c d cfg)
  have py: "\<not> py_is_path_allowed (posix ''/ws/skills/foo'') exampleGuard ''../foobar/x''"
    using path_allow_list [where P = "posix ''/ws/skills/foo''" and g = exampleGuard
        and t = "''../foobar/x''", THEN conjunct2, THEN conjunct2, THEN conjunct1]
    by (simp add: b c d cfg)
  from node py show ?thesis by simp
qed

subsection \<open>Domain allow-list\<close>

text \<open>
  Claim C4. For every allow-list read from the configuration value, both guards allow a
  target host exactly when the host, lower-cased and cut at its first colon, equals an
  allow-listed domain (lower-cased) or ends with a dot followed by one. Under the
  allow-listed domain \<open>example.com\<close>, \<open>api.example.com\<close> is allowed and
  \<open>evilexample.com\<close> is not.
\<close>

theorem domain_allow_list:
  "(isDomainAllowed (g\<lparr>allowedDomains := parseList v\<rparr>) (Some host) \<longleftrightarrow>
      (\<exists>d \<in> set (parseList v).
         beforeColon (toLowerCase host) = toLowerCase d \<or>
         suffix (''.'' @ toLowerCase d) (beforeColon (toLowerCase host)))) \<and>
   (py_is_domain_allowed (g\<lparr>allowedDomains := py_parse_list v\<rparr>) (Some host) \<longleftrightarrow>
      (\<exists>d \<in> set (py_parse_list v).
         beforeColon (toLowerCase host) = toLowerCase d \<or>
         suffix (''.'' @ toLowerCase d) (beforeColon (toLowerCase host)))) \<and>
   isDomainAllowed (g\<lparr>allowedDomains := [''example.com'']\<rparr>) (Some ''api.example.com'') \<and>
   \<not> isDomainAllowed (g\<lparr>allowedDomains := [''example.com'']\<rparr>) (Some ''evilexample.com'') \<and>
   py_is_domain_allowed (g\<lparr>allowedDomains := [''example.com'']\<rparr>) (Some ''api.example.com'') \<and>
   \<not> py_is_domain_allowed (g\<lparr>allowedDomains := [''example.com'']\<rparr>) (Some ''evilexample.com'')"
proof -
  have n: "[] \<notin> set (allowedDomains (g\<lparr>allowedDomains := parseList v\<rparr>))"
    by (simp add: parseList_nonempty)
  have p: "[] \<notin> set (allowedDomains (g\<lparr>allowedDomains := py_parse_list v\<rparr>))"
    by (simp add: py_parse_list_nonempty)
  have e: "[] \<notin> set (allowedDomains (g\<lparr>allowedDomains := [''example.com'']\<rparr>))"
    by simp
  have l1: "toLowerCase ''api.example.com'' = ''api.example.com''" by code_simp
  have l2: "toLowerCase ''evilexample.com'' = ''evilexample.com''" by code_simp
  have l3: "toLowerCase ''example.com'' = ''example.com''" by code_simp
  have x1: "suffix ''.example.com'' ''api.example.com''" by code_simp
  have x2: "\<not> suffix ''.example.com'' ''evilexample.com''" by code_simp
  show ?thesis
    unfolding domain_node [OF n] domain_py [OF p] domain_node [OF e] domain_py [OF e]
    using x1 x2 by (simp add: l1 l2 l3 beforeColon_def)
qed

theorem domain_allow_list_witness:
  "isDomainAllowed (exampleGuard\<lparr>allowedDomains := parseList (Some ''example.com; Other.ORG,,'')\<rparr>)
     (Some ''API.Other.org:8443'') \<and>
   \<not> py_is_domain_allowed (exampleGuard\<lparr>allowedDomains := py_parse_list (Some ''example.com; Other.ORG,,'')\<rparr>)
     (Some ''another.org:8443'')"
proof -
  have a: "\<exists>d \<in> set (parseList (Some ''example.com; Other.ORG,,'')).
             beforeColon (toLowerCase ''API.Other.org:8443'') = toLowerCase d \<or>
             suffix (''.'' @ toLowerCase d) (beforeColon (toLowerCase ''API.Other.org:8443''))"
    by code_simp
  have b: "\<not> (\<exists>d \<in> set (py_parse_list (Some ''example.com; Other.ORG,,'')).
             beforeColon (toLowerCase ''another.org:8443'') = toLowerCase d \<or>
             suffix (''.'' @ toLowerCase d) (beforeColon (toLowerCase ''another.org:8443'')))"
    by code_simp
  show ?thesis
    using a b
      domain_allow_list [where g = exampleGuard and v = "Some ''example.com; Other.ORG,,''"
        and host = "''API.Other.org:8443''"]
      domain_allow_list [where g = exampleGuard and v = "Some ''example.com; Other.ORG,,''"
        and host = "''another.org:8443''"]
    by blast
qed

subsection \<open>Network decision of the two guards\<close>

text \<open>
  Claim C5 fails on the code. With network blocking off and the allow-list
  \<open>example.com\<close>, a connection to \<open>evil.org\<close> is refused by the Node guard and let
  through by the Python guard.
\<close>

theorem network_decision_diverges:
  "fst (handleNetwork (posix ''/home/u'') (exampleGuard\<lparr>blockNetwork := False\<rparr>) 16 failingDisk
          (Some ''evil.org'') []) =
     Threw ''ClawShield blocked network access: evil.org'' \<and>
   fst (py_handle_network (posix ''/home/u'') (exampleGuard\<lparr>blockNetwork := False\<rparr>) 16 failingDisk
          (Some ''evil.org'') ''socket.connect'') = PyProceeds"
  by code_simp

theorem network_decision_diverges_witness:
  "isThrown (fst (handleNetwork (posix ''/home/u'') (exampleGuard\<lparr>blockNetwork := False\<rparr>) 16
                    failingDisk (Some ''evil.org'') [])) \<and>
   \<not> isRaised (fst (py_handle_network (posix ''/home/u'') (exampleGuard\<lparr>blockNetwork := False\<rparr>) 16
                      failingDisk (Some ''evil.org'') ''socket.connect''))"
  using network_decision_diverges by (simp add: isThrown_def isRaised_def)

subsection \<open>Denials and audit-write failures\<close>






section \<open>Properties of the scanner\<close>

subsection \<open>Behavior correlator\<close>

lemma last_2000: "drop (length xs - n) xs = rev (take n (rev xs))"
  by (simp add: take_rev)

lemma recentLines_window:
  "recentLines content = rev (take 2000 (rev (filter (\<lambda>l. trim l \<noteq> []) (splitLines content))))"
  by (simp add: recentLines_def Let_def last_2000)

lemma scanBehavior_window:
  "scanBehavior env skill = List.map_filter (behaviorFlag env skill) (auditWindow env)"
  by (simp add: scanBehavior_def auditWindow_def recentLines_window map_filter_simps split: option.splits)

lemma truthy_JStr: "truthy (JStr s) \<longleftrightarrow> s \<noteq> []"
  by (simp add: truthy_def)

lemma skill_test:
  "(falsy x \<or> x \<noteq> Some (JStr i)) \<longleftrightarrow> \<not> (i \<noteq> [] \<and> x = Some (JStr i))"
  by (cases x) (auto simp: falsy_def truthy_def)

lemma result_test:
  "(case x of None \<Rightarrow> JStr ''blocked'' | Some r \<Rightarrow> (if truthy r then r else JStr ''blocked'')) = JStr ''blocked''
     \<longleftrightarrow> x = Some (JStr ''blocked'') \<or> falsy x"
  by (cases x) (auto simp: falsy_def truthy_def)

lemma severity_chain:
  "(if k = ''fs_write'' then medium
    else if k = ''env'' \<or> k = ''env_set'' then medium
    else if k = ''network'' then high
    else if k = ''shell'' then high else medium) = spec_severity k"
  by (simp add: spec_severity_def)

lemma behaviorFlag_counts:
  assumes "JSON_parse env l = Some entry" and "countsAsBlocked skill entry"
  shows "map_option findingClass (behaviorFlag env skill l) =
           Some (''runtime_blocked'', Some behavior, spec_severity (entryKind entry))"
proof -
  from assms(2) have a: "getProp entry ''action'' = Some (JStr ''runtime'')"
    and i: "skill_id skill \<noteq> []"
    and s: "getProp entry ''skillId'' = Some (JStr (skill_id skill))"
    and r: "getProp entry ''result'' = Some (JStr ''blocked'') \<or> falsy (getProp entry ''result'')"
    by (simp_all add: countsAsBlocked_def)
  from a have n: "entry \<noteq> JNull" by (auto simp: getProp_def)
  from i have t: "\<not> falsy (Some (JStr (skill_id skill)))" by (simp add: falsy_def truthy_def)
  from r have res: "(case getProp entry ''result'' of None \<Rightarrow> JStr ''blocked''
                     | Some r \<Rightarrow> (if truthy r then r else JStr ''blocked'')) = JStr ''blocked''"
    by (simp add: result_test)
  show ?thesis
    unfolding behaviorFlag_def
    by (simp add: assms(1) n a s t res Let_def findingClass_def entryKind_def spec_severity_def)
qed

lemma behaviorFlag_skips:
  assumes "JSON_parse env l = Some entry" and "\<not> countsAsBlocked skill entry"
  shows "behaviorFlag env skill l = None"
proof (cases "entry = JNull")
  case True
  with assms(1) show ?thesis by (simp add: behaviorFlag_def)
next
  case n: False
  show ?thesis
  proof (cases "getProp entry ''action'' = Some (JStr ''runtime'')")
    case False
    with assms(1) n show ?thesis by (simp add: behaviorFlag_def)
  next
    case a: True
    show ?thesis
    proof (cases "skill_id skill \<noteq> [] \<and> getProp entry ''skillId'' = Some (JStr (skill_id skill))")
      case False
      then have "falsy (getProp entry ''skillId'') \<or>
                 getProp entry ''skillId'' \<noteq> Some (JStr (skill_id skill))"
        by (simp add: skill_test)
      with assms(1) n a show ?thesis by (simp add: behaviorFlag_def)
    next
      case s: True
      with a assms(2) have "\<not> (getProp entry ''result'' = Some (JStr ''blocked'') \<or>
                                 falsy (getProp entry ''result''))"
        by (simp add: countsAsBlocked_def)
      then have res: "(case getProp entry ''result'' of None \<Rightarrow> JStr ''blocked''
                     | Some r \<Rightarrow> (if truthy r then r else JStr ''blocked'')) \<noteq> JStr ''blocked''"
        by (simp add: result_test)
      from s have t: "\<not> falsy (Some (JStr (skill_id skill)))" by (simp add: falsy_def truthy_def)
      show ?thesis
        unfolding behaviorFlag_def
        using res by (simp add: assms(1) n a s t Let_def)
    qed
  qed
qed

lemma behaviorFlag_class:
  "map_option findingClass (behaviorFlag env skill l) =
     (case JSON_parse env l of
        None \<Rightarrow> None
      | Some entry \<Rightarrow>
          (if countsAsBlocked skill entry
           then Some (''runtime_blocked'', Some behavior, spec_severity (entryKind entry))
           else None))"
proof (cases "JSON_parse env l")
  case None
  then show ?thesis by (simp add: behaviorFlag_def)
next
  case (Some entry)
  then show ?thesis
    by (simp add: behaviorFlag_counts behaviorFlag_skips)
qed




subsection \<open>Lists with distinct keys\<close>

lemma distinct_map_outer: "distinct (map (\<lambda>x. g (k x)) xs) \<Longrightarrow> distinct (map k xs)"
proof -
  assume "distinct (map (\<lambda>x. g (k x)) xs)"
  then show ?thesis by (induction xs) auto
qed

lemma distinct_keys_append:
  assumes "distinct (map k xs)" "distinct (map k ys)"
    and "\<And>x y. x \<in> set xs \<Longrightarrow> y \<in> set ys \<Longrightarrow> k x \<noteq> k y"
  shows "distinct (map k (xs @ ys))"
  using assms by auto

lemma tagged_concat:
  assumes "list_all2 (\<lambda>g t. (\<forall>f \<in> set g. tag f = t) \<and> distinct (map k g)) gs ts"
    and "distinct ts"
    and "\<And>x y. k x = k y \<Longrightarrow> tag x = tag y"
  shows "distinct (map k (concat gs)) \<and> (\<forall>f \<in> set (concat gs). tag f \<in> set ts)"
  using assms(1,2)
proof (induction rule: list_all2_induct)
  case Nil
  then show ?case by simp
next
  case (Cons g gs t ts)
  then have ih: "distinct (map k (concat gs))" "\<forall>f \<in> set (concat gs). tag f \<in> set ts"
    by simp_all
  have cross: "k x \<noteq> k y" if "x \<in> set g" "y \<in> set (concat gs)" for x y
  proof
    assume "k x = k y"
    then have "tag x = tag y" by (rule assms(3))
    moreover from that Cons.hyps have "tag x = t" by simp
    moreover from that ih have "tag y \<in> set ts" by blast
    ultimately show False using Cons.prems by simp
  qed
  have "distinct (map k (g @ concat gs))"
    by (rule distinct_keys_append) (use Cons.hyps ih cross in auto)
  moreover have "\<forall>f \<in> set (concat (g # gs)). tag f \<in> set (t # ts)"
    using Cons.hyps ih by auto
  ultimately show ?case by simp
qed

subsection \<open>Pattern matcher\<close>

lemma checkLines_inv:
  assumes "\<forall>f \<in> set found. regexFlag ty fp f \<and> (\<forall>n. line f = Some n \<longrightarrow> n \<le> i)"
    and "distinct (map line found)"
  shows "(\<forall>f \<in> set (checkLines ps fp ty d sv (Some regex) i ls found). regexFlag ty fp f) \<and>
         distinct (map line (checkLines ps fp ty d sv (Some regex) i ls found))"
  using assms
proof (induction ls arbitrary: i found)
  case Nil
  then show ?case by simp
next
  case (Cons l ls)
  let ?new = "\<lparr>type = ty, severity = sv, description = d, location = Some fp,
               line = Some (i + 1), source = Some regex, evidence = None\<rparr>"
  have step1: "\<forall>f \<in> set found. regexFlag ty fp f \<and> (\<forall>n. line f = Some n \<longrightarrow> n \<le> i + 1)"
    using Cons.prems(1) by fastforce
  have fresh: "Some (i + 1) \<notin> line ` set found"
  proof
    assume "Some (i + 1) \<in> line ` set found"
    then obtain f where "f \<in> set found" "line f = Some (i + 1)" by auto
    with Cons.prems(1) have "i + 1 \<le> i" by auto
    then show False by simp
  qed
  have step2: "\<forall>f \<in> set (found @ [?new]). regexFlag ty fp f \<and> (\<forall>n. line f = Some n \<longrightarrow> n \<le> i + 1)"
    using step1 by (simp add: regexFlag_def)
  have d2: "distinct (map line (found @ [?new]))"
    using Cons.prems(2) fresh by simp
  show ?case
    using Cons.IH [OF step1 Cons.prems(2)] Cons.IH [OF step2 d2]
    by (simp split: option.splits)
qed

lemma checkPatterns_props:
  "(\<forall>f \<in> set (checkPatterns ls fp lang pats ty d sv (Some regex)). regexFlag ty fp f) \<and>
   distinct (map line (checkPatterns ls fp lang pats ty d sv (Some regex)))"
  unfolding checkPatterns_def Let_def
  by (rule checkLines_inv) simp_all

lemma longLineFlags_props:
  "(\<forall>f \<in> set (longLineFlags fp i ls). regexFlag ''suspicious_long_line'' fp f \<and>
      (\<forall>n. line f = Some n \<longrightarrow> i < n)) \<and>
   distinct (map line (longLineFlags fp i ls))"
proof (induction ls arbitrary: i)
  case Nil
  then show ?case by simp
next
  case (Cons l ls)
  have later: "i < n" if "f \<in> set (longLineFlags fp (i + 1) ls)" "line f = Some n" for f n
  proof -
    from Cons.IH [of "i + 1"] that have "i + 1 < n" by blast
    then show ?thesis by simp
  qed
  have fresh: "Some (i + 1) \<notin> line ` set (longLineFlags fp (i + 1) ls)"
  proof
    assume "Some (i + 1) \<in> line ` set (longLineFlags fp (i + 1) ls)"
    then obtain f where "f \<in> set (longLineFlags fp (i + 1) ls)" "line f = Some (i + 1)" by auto
    with Cons.IH [of "i + 1"] have "i + 1 < i + 1" by blast
    then show False by simp
  qed
  show ?case
    using Cons.IH [of "i + 1"] later fresh by (simp add: regexFlag_def)
qed

lemma regexFlag_distinct_keys:
  assumes "\<forall>f \<in> set fs. regexFlag ty fp f" "distinct (map line fs)"
  shows "distinct (map flagKey fs)"
proof -
  have "distinct (map (\<lambda>f. fst (snd (snd (flagKey f)))) fs)"
    using assms(2) by (simp add: flagKey_def)
  then show ?thesis by (rule distinct_map_outer)
qed


subsection \<open>Syntax analyzer\<close>

lemma visit_props:
  assumes "visit node = Some (ty, sev, desc, ev)"
  shows "ty \<in> set astTypes \<and> (ev = None \<longrightarrow> ty = ''dynamic_require'' \<or> ty = ''dynamic_import'')"
proof (cases node)
  case (ImportDeclaration src)
  with assms show ?thesis
    by (auto simp: visit_def visitImportDeclaration_def astTypes_def split: if_splits)
next
  case (CallExpression callee arguments)
  with assms have v: "visitCallExpression callee arguments = Some (ty, sev, desc, ev)"
    by (simp add: visit_def)
  show ?thesis
  proof (cases callee)
    case (Identifier name)
    with v show ?thesis
      by (auto simp: visitCallExpression_def astTypes_def split: if_splits list.splits Expr.splits)
  next
    case (MemberExpression object property)
    with v show ?thesis
      by (auto simp: visitCallExpression_def astTypes_def Let_def split: if_splits Expr.splits)
  next
    case Import
    with v show ?thesis by (auto simp: visitCallExpression_def astTypes_def)
  next
    case (StringLiteral x)
    with v show ?thesis by (simp add: visitCallExpression_def)
  next
    case OtherExpr
    with v show ?thesis by (simp add: visitCallExpression_def)
  qed
next
  case (MemberExpressionNode object property)
  with assms show ?thesis
    by (auto simp: visit_def visitMemberExpression_def astTypes_def split: if_splits Expr.splits)
qed

lemma addFlag_inv:
  assumes "astInv fp st"
  shows "astInv fp (addFlag fp st v)"
proof (cases "visit (fst v)")
  case None
  with assms show ?thesis by (simp add: addFlag_def)
next
  case (Some c)
  obtain ty sev desc ev where c: "c = (ty, sev, desc, ev)" by (cases c)
  let ?f = "\<lparr>type = ty, severity = sev, description = desc, location = Some fp, line = snd v,
             source = Some ast, evidence = ev\<rparr>"
  let ?key = "ty @ '':'' @ fp @ '':'' @ decimal (case snd v of None \<Rightarrow> 0 | Some n \<Rightarrow> n) @ '':'' @
              (case ev of None \<Rightarrow> [] | Some e \<Rightarrow> e)"
  have key: "astKeyOf fp ?f = ?key" by (simp add: astKeyOf_def)
  have flag: "astFlag fp ?f"
    using visit_props [of "fst v" ty sev desc ev] Some c by (simp add: astFlag_def)
  show ?thesis
  proof (cases "?key \<in> set (fst st)")
    case True
    with assms Some c show ?thesis by (simp add: addFlag_def Let_def)
  next
    case False
    then have new: "addFlag fp st v = (fst st @ [?key], snd st @ [?f])"
      using Some c by (simp add: addFlag_def Let_def)
    from assms have eq: "set (fst st) = astKeyOf fp ` set (snd st)"
      and dis: "distinct (map (astKeyOf fp) (snd st))"
      and all: "\<forall>f \<in> set (snd st). astFlag fp f"
      by (simp_all add: astInv_def)
    have fresh: "astKeyOf fp ?f \<notin> astKeyOf fp ` set (snd st)"
      unfolding key eq [symmetric] by (rule False)
    have "set (fst st @ [?key]) = astKeyOf fp ` set (snd st @ [?f])"
      unfolding key [symmetric] using eq by simp
    moreover have "distinct (map (astKeyOf fp) (snd st @ [?f]))"
      using dis fresh by simp
    moreover have "\<forall>f \<in> set (snd st @ [?f]). astFlag fp f"
      using all flag by simp
    ultimately show ?thesis
      unfolding new astInv_def by simp
  qed
qed

lemma foldl_addFlag_inv: "astInv fp st \<Longrightarrow> astInv fp (foldl (addFlag fp) st vs)"
  by (induction vs arbitrary: st) (simp_all add: addFlag_inv)

lemma scanAst_props:
  "(\<forall>f \<in> set (scanAst env fp content). astFlag fp f) \<and> distinct (map flagKey (scanAst env fp content))"
proof -
  have inv: "astInv fp (foldl (addFlag fp) ([], []) vs)" for vs
    by (rule foldl_addFlag_inv) (simp add: astInv_def)
  have d: "distinct (map flagKey (snd (foldl (addFlag fp) ([], []) vs)))" for vs
  proof -
    let ?g = "\<lambda>k. case k of (t, l, n, e) \<Rightarrow> t @ '':'' @ fp @ '':'' @
            decimal (case n of None \<Rightarrow> 0 | Some m \<Rightarrow> m) @ '':'' @
            (case e of None \<Rightarrow> [] | Some x \<Rightarrow> x)"
    have "astKeyOf fp = (\<lambda>f. ?g (flagKey f))"
      by (rule ext) (simp add: astKeyOf_def flagKey_def)
    moreover from inv [of vs] have "distinct (map (astKeyOf fp) (snd (foldl (addFlag fp) ([], []) vs)))"
      by (simp add: astInv_def)
    ultimately have "distinct (map (\<lambda>f. ?g (flagKey f)) (snd (foldl (addFlag fp) ([], []) vs)))"
      by simp
    then show ?thesis by (rule distinct_map_outer)
  qed
  show ?thesis
    using inv d by (auto simp: scanAst_def Let_def astInv_def split: option.splits)
qed


subsection \<open>One file\<close>

lemma scanFile_parts:
  "readFile env fp = Some content \<Longrightarrow>
     scanFile env fp = concat (regexPart env fp content) @ scanAst env fp content"
  by (simp add: scanFile_def regexPart_def Let_def)

lemma regexPart_tagged:
  "list_all2 (\<lambda>g t. (\<forall>f \<in> set g. type f = t) \<and> distinct (map flagKey g))
     (regexPart env fp content) regexTypes"
proof -
  have cp: "(\<forall>f \<in> set (checkPatterns ls fp lang pats ty d sv (Some regex)). type f = ty) \<and>
            distinct (map flagKey (checkPatterns ls fp lang pats ty d sv (Some regex)))"
    for ls lang pats ty d sv
    using checkPatterns_props [of ls fp lang pats ty d sv]
      regexFlag_distinct_keys [of "checkPatterns ls fp lang pats ty d sv (Some regex)" ty fp]
    by (simp add: regexFlag_def)
  have ll: "(\<forall>f \<in> set (longLineFlags fp 0 ls). type f = ''suspicious_long_line'') \<and>
            distinct (map flagKey (longLineFlags fp 0 ls))" for ls
    using longLineFlags_props [of fp 0 ls]
      regexFlag_distinct_keys [of "longLineFlags fp 0 ls" "''suspicious_long_line''" fp]
    by (simp add: regexFlag_def)
  note facts = cp [THEN conjunct1] cp [THEN conjunct2] ll [THEN conjunct1] ll [THEN conjunct2]
  show ?thesis
    unfolding regexPart_def regexTypes_def Let_def list_all2_Cons list_all2_Nil
    by (intro conjI facts refl)
qed

lemma regexPart_flags:
  assumes "f \<in> set (concat (regexPart env fp content))"
  shows "location f = Some fp \<and> evidence f = None \<and> source f = Some regex"
proof -
  have cp: "\<forall>f \<in> set (checkPatterns ls fp lang pats ty d sv (Some regex)).
              location f = Some fp \<and> evidence f = None \<and> source f = Some regex"
    for ls lang pats ty d sv
    using checkPatterns_props [of ls fp lang pats ty d sv] by (simp add: regexFlag_def)
  have ll: "\<forall>f \<in> set (longLineFlags fp 0 ls).
              location f = Some fp \<and> evidence f = None \<and> source f = Some regex" for ls
    using longLineFlags_props [of fp 0 ls] by (simp add: regexFlag_def)
  from assms show ?thesis
    unfolding regexPart_def Let_def using cp ll by auto
qed

lemma distinct_regexTypes: "distinct regexTypes"
  by (simp add: regexTypes_def)

lemma scanFile_props:
  "(\<forall>f \<in> set (scanFile env fp).
      location f = Some fp \<and> source f \<noteq> Some behavior \<and> source f \<noteq> Some dependency \<and>
      type f \<in> set regexTypes \<union> set astTypes) \<and>
   distinct (map flagKey (scanFile env fp))"
proof (cases "readFile env fp")
  case None
  then show ?thesis by (simp add: scanFile_def)
next
  case (Some content)
  let ?r = "concat (regexPart env fp content)"
  let ?a = "scanAst env fp content"
  have r: "distinct (map flagKey ?r) \<and> (\<forall>f \<in> set ?r. type f \<in> set regexTypes)"
    by (rule tagged_concat [OF regexPart_tagged distinct_regexTypes]) (simp add: flagKey_def)
  have a: "(\<forall>f \<in> set ?a. astFlag fp f) \<and> distinct (map flagKey ?a)"
    by (rule scanAst_props)
  have cross: "flagKey x \<noteq> flagKey y" if "x \<in> set ?r" "y \<in> set ?a" for x y
  proof
    assume eq: "flagKey x = flagKey y"
    from that(1) have "evidence x = None" and tx: "type x \<in> set regexTypes"
      using regexPart_flags r by auto
    with eq have "evidence y = None" and "type y = type x" by (simp_all add: flagKey_def)
    with that(2) a have "type x = ''dynamic_require'' \<or> type x = ''dynamic_import''"
      by (auto simp: astFlag_def)
    with tx show False by (auto simp: regexTypes_def)
  qed
  have "distinct (map flagKey (?r @ ?a))"
    by (rule distinct_keys_append) (use r a cross in auto)
  moreover have "location f = Some fp \<and> source f \<noteq> Some behavior \<and>
      source f \<noteq> Some dependency \<and> type f \<in> set regexTypes \<union> set astTypes"
    if "f \<in> set (?r @ ?a)" for f
  proof (cases "f \<in> set ?r")
    case True
    from r True have "type f \<in> set regexTypes" by blast
    with regexPart_flags [OF True] show ?thesis by simp
  next
    case False
    with that have "f \<in> set ?a" by simp
    with a have "astFlag fp f" by blast
    then show ?thesis by (simp add: astFlag_def)
  qed
  ultimately show ?thesis
    unfolding scanFile_parts [OF Some] by blast
qed


subsection \<open>Supply-chain auditor\<close>

lemma addDepFlag_inv:
  assumes "depInv st" and "fst c \<in> set depTypes"
  shows "depInv (addDepFlag st c)"
proof -
  obtain ty sev desc loc ev where c: "c = (ty, sev, desc, loc, ev)" by (cases c)
  let ?f = "\<lparr>type = ty, severity = sev, description = desc, location = Some loc, line = None,
             source = Some dependency, evidence = ev\<rparr>"
  let ?key = "ty @ '':'' @ loc @ '':'' @ (case ev of None \<Rightarrow> [] | Some e \<Rightarrow> e)"
  have key: "depKeyOf ?f = ?key" by (simp add: depKeyOf_def)
  from assms(1) have eq: "set (fst st) = depKeyOf ` set (snd st)"
    and dis: "distinct (map depKeyOf (snd st))"
    and all: "\<forall>f \<in> set (snd st). source f = Some dependency \<and> type f \<in> set depTypes"
    by (simp_all add: depInv_def)
  show ?thesis
  proof (cases "?key \<in> set (fst st)")
    case True
    with assms(1) c show ?thesis by (simp add: addDepFlag_def Let_def)
  next
    case False
    then have new: "addDepFlag st c = (fst st @ [?key], snd st @ [?f])"
      using c by (simp add: addDepFlag_def Let_def)
    have fresh: "depKeyOf ?f \<notin> depKeyOf ` set (snd st)"
      unfolding key eq [symmetric] by (rule False)
    have "set (fst st @ [?key]) = depKeyOf ` set (snd st @ [?f])"
      unfolding key [symmetric] using eq by simp
    moreover have "distinct (map depKeyOf (snd st @ [?f]))"
      using dis fresh by simp
    moreover have "\<forall>f \<in> set (snd st @ [?f]). source f = Some dependency \<and> type f \<in> set depTypes"
      using all assms(2) c by simp
    ultimately show ?thesis
      unfolding new depInv_def by simp
  qed
qed

lemma foldl_addDepFlag_inv:
  "depInv st \<Longrightarrow> \<forall>c \<in> set cs. fst c \<in> set depTypes \<Longrightarrow> depInv (foldl addDepFlag st cs)"
  by (induction cs arbitrary: st) (simp_all add: addDepFlag_inv)

lemma in_set_map_filter: "y \<in> set (List.map_filter f xs) \<longleftrightarrow> (\<exists>x \<in> set xs. f x = Some y)"
  by (induction xs) (auto split: option.splits)

lemma specFindings_types: "c \<in> set (specFindings pats p e) \<Longrightarrow> fst c \<in> set depTypes"
  by (cases e) (auto simp: specFindings_def depTypes_def Let_def split: Json.splits if_splits)

lemma scriptFinding_types: "scriptFinding pats p scripts key = Some c \<Longrightarrow> fst c \<in> set depTypes"
  by (auto simp: scriptFinding_def depTypes_def split: option.splits Json.splits if_splits)

lemma lockLineFinding_types: "lockLineFinding pats p l = Some c \<Longrightarrow> fst c \<in> set depTypes"
  by (auto simp: lockLineFinding_def depTypes_def split: if_splits)

lemma packageJsonFindings_types:
  assumes "c \<in> set (packageJsonFindings env p)"
  shows "fst c \<in> set depTypes"
proof -
  let ?pp = "pathJoin env p ''package.json''"
  from assms obtain pkg where
    c: "c \<in> set (List.map_filter (scriptFinding (dependencyPatterns env) ?pp
                  (orEmptyObject (getProp pkg ''scripts''))) scriptKeys) \<or>
        (\<exists>deps. c \<in> set (concat (map (specFindings (dependencyPatterns env) ?pp) (jsEntries deps))))"
    unfolding packageJsonFindings_def Let_def
    by (fastforce split: if_splits option.splits)
  then show ?thesis
    by (auto simp: in_set_map_filter dest: scriptFinding_types specFindings_types)
qed

lemma lockFileFindings_types:
  assumes "c \<in> set (lockFileFindings env p)"
  shows "fst c \<in> set depTypes"
proof -
  from assms obtain lp ls where "c \<in> set (List.map_filter (lockLineFinding (dependencyPatterns env) lp) ls)"
    unfolding lockFileFindings_def Let_def
    by (fastforce split: if_splits option.splits)
  then show ?thesis
    by (auto simp: in_set_map_filter dest: lockLineFinding_types)
qed

lemma requirementFindings_types: "c \<in> set (requirementFindings pats p l) \<Longrightarrow> fst c \<in> set depTypes"
  unfolding requirementFindings_def Let_def
  by (auto simp: depTypes_def split: if_splits)

lemma requirementsFindings_types: "c \<in> set (requirementsFindings env p) \<Longrightarrow> fst c \<in> set depTypes"
  unfolding requirementsFindings_def Let_def
  by (auto dest: requirementFindings_types split: if_splits option.splits)

lemma textManifestFindings_types: "c \<in> set (textManifestFindings env p) \<Longrightarrow> fst c \<in> set depTypes"
  unfolding textManifestFindings_def Let_def
  by (auto simp: depTypes_def split: if_splits option.splits)

lemma binaryFindings_types: "c \<in> set (binaryFindings env p) \<Longrightarrow> fst c \<in> set depTypes"
  unfolding binaryFindings_def
  by (auto simp: depTypes_def split: option.splits)

lemma scanDependencies_props:
  "(\<forall>f \<in> set (scanDependencies env p). source f = Some dependency \<and> type f \<in> set depTypes) \<and>
   distinct (map flagKey (scanDependencies env p))"
proof -
  let ?cs = "packageJsonFindings env p @ lockFileFindings env p @ requirementsFindings env p @
             textManifestFindings env p @ binaryFindings env p"
  have types: "\<forall>c \<in> set ?cs. fst c \<in> set depTypes"
    using packageJsonFindings_types lockFileFindings_types requirementsFindings_types
      textManifestFindings_types binaryFindings_types by auto
  have inv: "depInv (foldl addDepFlag ([], []) ?cs)"
    by (rule foldl_addDepFlag_inv [OF _ types]) (simp add: depInv_def)
  let ?g = "\<lambda>k. case k of (t, l, n, e) \<Rightarrow> t @ '':'' @ (case l of None \<Rightarrow> [] | Some x \<Rightarrow> x) @ '':'' @
            (case e of None \<Rightarrow> [] | Some x \<Rightarrow> x)"
  have "depKeyOf = (\<lambda>f. ?g (flagKey f))"
    by (rule ext) (simp add: depKeyOf_def flagKey_def)
  moreover from inv have "distinct (map depKeyOf (snd (foldl addDepFlag ([], []) ?cs)))"
    by (simp add: depInv_def)
  ultimately have "distinct (map (\<lambda>f. ?g (flagKey f)) (snd (foldl addDepFlag ([], []) ?cs)))"
    by simp
  then have "distinct (map flagKey (snd (foldl addDepFlag ([], []) ?cs)))"
    by (rule distinct_map_outer)
  with inv show ?thesis
    by (simp add: scanDependencies_def depInv_def)
qed

subsection \<open>The whole scan\<close>

lemma behaviorFlag_source:
  assumes "behaviorFlag env skill l = Some f"
  shows "source f = Some behavior"
proof -
  from assms have "map_option findingClass (behaviorFlag env skill l) = Some (findingClass f)"
    by simp
  then show ?thesis
    by (auto simp: behaviorFlag_class findingClass_def split: option.splits if_splits)
qed

lemma scanBehavior_source: "f \<in> set (scanBehavior env skill) \<Longrightarrow> source f = Some behavior"
  by (auto simp: scanBehavior_window in_set_map_filter dest: behaviorFlag_source)

lemma files_tagged:
  "list_all2 (\<lambda>g t. (\<forall>f \<in> set g. location f = t) \<and> distinct (map flagKey g))
     (map (scanFile env) files) (map Some files)"
  using scanFile_props [of env]
  by (simp add: list_all2_map1 list_all2_map2 list_all2_same)

lemma types_disjoint: "t \<in> set regexTypes \<union> set astTypes \<Longrightarrow> t \<notin> set depTypes"
  by (auto simp: regexTypes_def astTypes_def depTypes_def)

lemma scanDependencies_missing:
  assumes "pathMissing env p"
  shows "scanDependencies env p = []"
proof -
  from assms have ex: "\<not> existsSync env (pathJoin env p nm)"
    if "nm \<in> set ([''package.json'', ''requirements.txt''] @ lockFiles @ textManifests)" for nm
    using that by (auto simp: pathMissing_def list_all_iff)
  have a: "packageJsonFindings env p = []"
    using ex [of "''package.json''"] by (simp add: packageJsonFindings_def)
  have b: "lockFileFindings env p = []"
    using ex by (simp add: lockFileFindings_def Let_def)
  have c: "requirementsFindings env p = []"
    using ex [of "''requirements.txt''"] by (simp add: requirementsFindings_def)
  have d: "textManifestFindings env p = []"
    using ex by (simp add: textManifestFindings_def Let_def)
  have e: "binaryFindings env p = []"
    using assms by (auto simp: pathMissing_def binaryFindings_def)
  show ?thesis
    by (simp add: scanDependencies_def a b c d e)
qed

lemma collectFlags_missing:
  assumes "pathMissing env (skill_path skill)"
  shows "collectFlags env skill = Inr (scanBehavior env skill)"
proof -
  from assms have l: "listSkillFiles env (skill_path skill) = Some []"
    and m: "\<not> existsSync env (pathJoin env (skill_path skill) ''SKILL.md'')"
    by (simp_all add: pathMissing_def)
  show ?thesis
    by (simp add: collectFlags_def l m scanDependencies_missing [OF assms])
qed

lemma buildResult_Nil:
  "buildResult t [] =
     \<lparr>score = 0, flags = [],
      explanation = ''No security risks detected. This skill appears safe to use.'',
      recommendation = allow, scannedAt = t, dependencyCount = 0, astCount = 0, behaviorCount = 0\<rparr>"
proof -
  have "Math_round 0 = 0"
    unfolding Math_round_def by (simp add: floor_eq_iff)
  then show ?thesis
    by (simp add: buildResult_def calculateScore_def countTypes_def
        generateExplanation_def getRecommendation_def SAFE_MAX_def)
qed

subsection \<open>Scan of a missing skill path\<close>

text \<open>
  Claim C7 fails on the code. On a machine where the path \<open>/nope\<close> does not exist, the
  scan of the skill that \<open>scanSkillPath\<close> builds for it returns a result with score 0,
  recommendation \<open>allow\<close> and the explanation that the skill appears safe: the result of
  a skill without any risk, not an error. The scanner never tests the path; the command
  \<open>run\<close> and the routes of the backend do, and answer a missing skill with an error.
\<close>

theorem missing_path_scans_as_safe:
  "pathMissing emptyDisk (skill_path missingSkill) \<and>
   scanSkill emptyDisk missingSkill =
     Inr \<lparr>score = 0, flags = [],
          explanation = ''No security risks detected. This skill appears safe to use.'',
          recommendation = allow, scannedAt = ''2026-01-01T00:00:00.000Z'',
          dependencyCount = 0, astCount = 0, behaviorCount = 0\<rparr>"
  by code_simp

theorem missing_path_scans_as_safe_witness:
  "\<not> isl (scanSkill emptyDisk missingSkill) \<and>
   score (projr (scanSkill emptyDisk missingSkill)) = 0 \<and>
   recommendation (projr (scanSkill emptyDisk missingSkill)) = allow"
  using missing_path_scans_as_safe by simp

text \<open>
  The same on every machine: the only failure of a scan is a rejected glob, and for a
  path under which nothing exists the scan returns the result built from the behavior
  findings recorded for the skill's id alone.
\<close>

lemma missing_path_is_no_failure:
  "(listSkillFiles env (skill_path skill) = None \<longrightarrow> scanSkill env skill = Inl GlobRejected) \<and>
   (pathMissing env (skill_path skill) \<longrightarrow>
      scanSkill env skill = Inr (buildResult (isoTime env) (scanBehavior env skill)) \<and>
      (scanBehavior env skill = [] \<longrightarrow>
         scanSkill env skill =
           Inr \<lparr>score = 0, flags = [],
                explanation = ''No security risks detected. This skill appears safe to use.'',
                recommendation = allow, scannedAt = isoTime env,
                dependencyCount = 0, astCount = 0, behaviorCount = 0\<rparr>))"
proof -
  have a: "scanSkill env skill = Inl GlobRejected" if "listSkillFiles env (skill_path skill) = None"
    using that by (simp add: scanSkill_def collectFlags_def)
  have b: "scanSkill env skill = Inr (buildResult (isoTime env) (scanBehavior env skill))"
    if "pathMissing env (skill_path skill)"
    using collectFlags_missing [OF that] by (simp add: scanSkill_def)
  from a b show ?thesis
    by (auto simp: buildResult_Nil)
qed

subsection \<open>Behavior findings\<close>




subsection \<open>Uniqueness of findings\<close>

text \<open>
  Claim C9, as stated, fails: two blocked \<open>exec\<close> calls of the same skill are two
  entries of the audit trail, and the scan returns two behavior findings with the same
  category, file, line and evidence.
\<close>

theorem repeated_behavior_findings:
  "\<not> isl (scanSkill (exampleDisk twoBlockedLines) exampleSkill) \<and>
   \<not> distinct (map flagKey (flags (projr (scanSkill (exampleDisk twoBlockedLines) exampleSkill))))"
  by code_simp

text \<open>
  Claim C9, amended. In the result of a scan, no two findings of the pattern, syntax-tree
  and dependency detectors have the same category, file, line and evidence, provided the
  discovery lists every file once and does not list \<open>SKILL.md\<close> (the eight globs of
  \<open>listSkillFiles\<close> are for eight different extensions, none of them \<open>md\<close>, so this is
  a condition on \<open>glob\<close> alone: that it returns a match once). Behavior findings are
  not de-duplicated: each counted audit entry gives a finding of its own.
\<close>

theorem findings_unique_except_behavior:
  assumes "scanSkill env skill = Inr r"
    and "listSkillFiles env (skill_path skill) = Some files"
    and "distinct files"
    and "pathJoin env (skill_path skill) ''SKILL.md'' \<notin> set files"
  shows "distinct (map flagKey (filter (\<lambda>f. source f \<noteq> Some behavior) (flags r)))"
proof -
  let ?md = "pathJoin env (skill_path skill) ''SKILL.md''"
  let ?all = "files @ (if existsSync env ?md then [?md] else [])"
  let ?ff = "concat (map (scanFile env) ?all)"
  let ?dep = "scanDependencies env (skill_path skill)"
  let ?beh = "scanBehavior env skill"
  have fl: "flags r = ?ff @ ?dep @ ?beh"
    using assms(1,2)
    by (auto simp: scanSkill_def collectFlags_def Let_def buildResult_def split: sum.splits)
  have dall: "distinct (map Some ?all)"
    using assms(3,4) by (auto simp: distinct_map)
  have ff: "distinct (map flagKey ?ff) \<and> (\<forall>f \<in> set ?ff. location f \<in> set (map Some ?all))"
    by (rule tagged_concat [OF files_tagged dall]) (simp add: flagKey_def)
  have ffp: "source f \<noteq> Some behavior \<and> type f \<in> set regexTypes \<union> set astTypes"
    if "f \<in> set ?ff" for f
    using that scanFile_props [of env] by fastforce
  have dep: "(\<forall>f \<in> set ?dep. source f = Some dependency \<and> type f \<in> set depTypes) \<and>
             distinct (map flagKey ?dep)"
    by (rule scanDependencies_props)
  have cross: "flagKey x \<noteq> flagKey y" if "x \<in> set ?ff" "y \<in> set ?dep" for x y
  proof
    assume "flagKey x = flagKey y"
    then have "type x = type y" by (simp add: flagKey_def)
    moreover from ffp [OF that(1)] have "type x \<notin> set depTypes" by (simp add: types_disjoint)
    moreover from dep that(2) have "type y \<in> set depTypes" by blast
    ultimately show False by simp
  qed
  have keep: "filter (\<lambda>f. source f \<noteq> Some behavior) (?ff @ ?dep @ ?beh) = ?ff @ ?dep"
  proof -
    have "filter (\<lambda>f. source f \<noteq> Some behavior) ?ff = ?ff"
      using ffp by (simp add: filter_id_conv)
    moreover have "filter (\<lambda>f. source f \<noteq> Some behavior) ?dep = ?dep"
      using dep by (simp add: filter_id_conv)
    moreover have "filter (\<lambda>f. source f \<noteq> Some behavior) ?beh = []"
      using scanBehavior_source [of _ env skill] by (simp add: filter_empty_conv)
    ultimately show ?thesis by simp
  qed
  have "distinct (map flagKey (?ff @ ?dep))"
    by (rule distinct_keys_append) (use ff dep cross in auto)
  then show ?thesis
    unfolding fl keep .
qed

theorem findings_unique_except_behavior_witness:
  "length (flags (projr (scanSkill (exampleDisk twoBlockedLines) exampleSkill))) = 6 \<and>
   distinct (map flagKey (filter (\<lambda>f. source f \<noteq> Some behavior)
      (flags (projr (scanSkill (exampleDisk twoBlockedLines) exampleSkill)))))"
proof -
  have "\<not> isl (scanSkill (exampleDisk twoBlockedLines) exampleSkill)"
    by code_simp
  then have s: "scanSkill (exampleDisk twoBlockedLines) exampleSkill =
                Inr (projr (scanSkill (exampleDisk twoBlockedLines) exampleSkill))"
    by (cases "scanSkill (exampleDisk twoBlockedLines) exampleSkill") simp_all
  have l: "listSkillFiles (exampleDisk twoBlockedLines) (skill_path exampleSkill) =
           Some [''/ws/skills/foo/index.js'']"
    by code_simp
  have d: "distinct [''/ws/skills/foo/index.js'']"
    by simp
  have m: "pathJoin (exampleDisk twoBlockedLines) (skill_path exampleSkill) ''SKILL.md'' \<notin>
           set [''/ws/skills/foo/index.js'']"
    by code_simp
  have n: "length (flags (projr (scanSkill (exampleDisk twoBlockedLines) exampleSkill))) = 6"
    by code_simp
  from findings_unique_except_behavior [OF s l d m] n show ?thesis
    by simp
qed

end
